(* ===== verification/Prelude.thy ===== *)
theory Prelude
  imports Complex_Main "HOL-Library.Word" "HOL-Library.Signed_Division"
begin

text \<open>
  Shared vocabulary of the development: Rust's \<open>Result\<close> as a sum type, the iterator method
  \<open>collect\<close> on results, fixed-width integer ranges with the checked operations of the Rust
  standard library, truncating division, and the terms a NIF hands back to the BEAM
  (\<open>util.rs\<close>).  Everything here is either part of the Rust language and its standard library
  or a data type; third-party code is never defined here.
\<close>

section \<open>Collections of rewrite rules\<close>

named_theorems rust_num \<open>range predicates and checked integer operations of Rust\<close>
named_theorems decode_simps \<open>decoders of BEAM terms on concrete constructors\<close>

section \<open>Rust results\<close>

type_synonym ('a, 'e) result = "'e + 'a"

abbreviation Ok :: "'a \<Rightarrow> ('a, 'e) result" where
  "Ok \<equiv> Inr"

abbreviation Err :: "'e \<Rightarrow> ('a, 'e) result" where
  "Err \<equiv> Inl"

definition ok_or :: "'e \<Rightarrow> 'a option \<Rightarrow> ('a, 'e) result" where
  "ok_or e x = (case x of None \<Rightarrow> Err e | Some a \<Rightarrow> Ok a)"

definition map_err :: "('d \<Rightarrow> 'e) \<Rightarrow> ('a, 'd) result \<Rightarrow> ('a, 'e) result" where
  "map_err f r = (case r of Err d \<Rightarrow> Err (f d) | Ok a \<Rightarrow> Ok a)"

definition is_ok :: "('a, 'e) result \<Rightarrow> bool" where
  "is_ok r = (case r of Err _ \<Rightarrow> False | Ok _ \<Rightarrow> True)"

lemma ok_or_simps [simp]:
  "ok_or e None = Err e" "ok_or e (Some a) = Ok a"
  by (simp_all add: ok_or_def)

lemma map_err_simps [simp]:
  "map_err f (Err d) = Err (f d)" "map_err f (Ok a) = Ok a"
  by (simp_all add: map_err_def)

lemma is_ok_simps [simp]:
  "\<not> is_ok (Err e)" "is_ok (Ok a)"
  by (simp_all add: is_ok_def)

lemma ok_or_eq_Ok [simp]: "ok_or e x = Ok a \<longleftrightarrow> x = Some a"
  by (cases x) auto

lemma map_err_eq_Ok [simp]: "map_err f r = Ok a \<longleftrightarrow> r = Ok a"
  by (cases r) auto

text \<open>
  \<open>iter().map(f).collect::<Result<Vec<_>, _>>()\<close>: the elements in order, stopping at the
  first error.
\<close>

fun collect :: "('a \<Rightarrow> ('b, 'e) result) \<Rightarrow> 'a list \<Rightarrow> ('b list, 'e) result" where
  "collect f [] = Ok []"
| "collect f (x # xs) =
     (case f x of
        Err e \<Rightarrow> Err e
      | Ok y \<Rightarrow> (case collect f xs of Err e \<Rightarrow> Err e | Ok ys \<Rightarrow> Ok (y # ys)))"

lemma collect_cong [fundef_cong]:
  "xs = ys \<Longrightarrow> (\<And>x. x \<in> set ys \<Longrightarrow> f x = g x) \<Longrightarrow> collect f xs = collect g ys"
  by (induction ys arbitrary: xs) (auto split: sum.splits)

lemma collect_eq_Ok:
  "collect f xs = Ok ys \<longleftrightarrow> list_all2 (\<lambda>x y. f x = Ok y) xs ys"
proof (induction xs arbitrary: ys)
  case Nil
  then show ?case by (cases ys) auto
next
  case (Cons x xs)
  show ?case
  proof (cases "collect f xs")
    case (Inl e)
    then show ?thesis using Cons.IH by (cases ys) (auto split: sum.splits)
  next
    case (Inr zs)
    then have "list_all2 (\<lambda>x y. f x = Ok y) xs ws \<longleftrightarrow> ws = zs" for ws
      using Cons.IH [of ws] Inr by auto
    with Inr show ?thesis by (cases ys) (auto split: sum.splits)
  qed
qed

lemma collect_Ok_length: "collect f xs = Ok ys \<Longrightarrow> length ys = length xs"
  by (auto simp: collect_eq_Ok dest: list_all2_lengthD)

lemma collect_total: "(\<And>x. x \<in> set xs \<Longrightarrow> f x = Ok (g x)) \<Longrightarrow> collect f xs = Ok (map g xs)"
  by (induction xs) auto

lemma collect_ErrE:
  assumes "collect f xs = Err e"
  obtains us x vs where "xs = us @ x # vs" "f x = Err e" "\<And>u. u \<in> set us \<Longrightarrow> is_ok (f u)"
  using assms
proof (induction xs arbitrary: thesis)
  case Nil
  then show ?case by simp
next
  case (Cons x xs)
  show ?case
  proof (cases "f x")
    case (Inl d)
    then show ?thesis using Cons.prems(1) [of "[]" x xs] Cons.prems(2) by auto
  next
    case (Inr y)
    then have "collect f xs = Err e" using Cons.prems(2) by (auto split: sum.splits)
    then show ?thesis
    proof (rule Cons.IH [rotated])
      fix us z vs
      assume "xs = us @ z # vs" "f z = Err e" "\<And>u. u \<in> set us \<Longrightarrow> is_ok (f u)"
      then show thesis using Inr by (intro Cons.prems(1) [of "x # us" z vs]) auto
    qed
  qed
qed

text \<open>A \<open>for\<close> loop whose body may return an error early: \<open>for x in xs { f(x)?; }\<close>.\<close>

fun try_each :: "('a \<Rightarrow> (unit, 'e) result) \<Rightarrow> 'a list \<Rightarrow> (unit, 'e) result" where
  "try_each f [] = Ok ()"
| "try_each f (x # xs) = (case f x of Err e \<Rightarrow> Err e | Ok _ \<Rightarrow> try_each f xs)"

lemma try_each_cong [fundef_cong]:
  "xs = ys \<Longrightarrow> (\<And>x. x \<in> set ys \<Longrightarrow> f x = g x) \<Longrightarrow> try_each f xs = try_each g ys"
  by (induction ys arbitrary: xs) (auto split: sum.splits)

lemma try_each_eq_Ok [simp]: "try_each f xs = Ok u \<longleftrightarrow> (\<forall>x \<in> set xs. is_ok (f x))"
  by (induction xs) (auto split: sum.splits)

lemma try_each_ErrD: "try_each f xs = Err e \<Longrightarrow> \<exists>x \<in> set xs. f x = Err e"
  by (induction xs) (auto split: sum.splits)

text \<open>A \<open>for\<close> loop over a mutable state whose body may return an error early.\<close>

fun foldM_result :: "('s \<Rightarrow> 'a \<Rightarrow> ('s, 'e) result) \<Rightarrow> 's \<Rightarrow> 'a list \<Rightarrow> ('s, 'e) result" where
  "foldM_result f s [] = Ok s"
| "foldM_result f s (x # xs) = (case f s x of Err e \<Rightarrow> Err e | Ok s' \<Rightarrow> foldM_result f s' xs)"

lemma foldM_result_cong [fundef_cong]:
  "xs = ys \<Longrightarrow> s = t \<Longrightarrow> (\<And>u x. x \<in> set ys \<Longrightarrow> f u x = g u x) \<Longrightarrow>
   foldM_result f s xs = foldM_result g t ys"
  by (induction ys arbitrary: xs s t) (auto split: sum.splits)

lemma foldM_result_append:
  "foldM_result f s (xs @ ys) =
     (case foldM_result f s xs of Err e \<Rightarrow> Err e | Ok s' \<Rightarrow> foldM_result f s' ys)"
  by (induction xs arbitrary: s) (auto split: sum.splits)

lemma foldM_result_invariant:
  assumes "foldM_result f s xs = Ok s'" "P s" "\<And>s x s'. P s \<Longrightarrow> f s x = Ok s' \<Longrightarrow> P s'"
  shows "P s'"
  using assms by (induction xs arbitrary: s) (auto split: sum.splits)

section \<open>Fixed-width signed and unsigned integers\<close>

text \<open>
  The signed integers of the source are modelled by mathematical integers together with the
  range predicate of their type; each operation that can leave the range is one of the checked
  or wrapping operations below.
\<close>

definition in_i8 :: "int \<Rightarrow> bool" where
  [rust_num]: "in_i8 v \<longleftrightarrow> - 128 \<le> v \<and> v \<le> 127"

definition in_i16 :: "int \<Rightarrow> bool" where
  [rust_num]: "in_i16 v \<longleftrightarrow> - 32768 \<le> v \<and> v \<le> 32767"

definition in_i32 :: "int \<Rightarrow> bool" where
  [rust_num]: "in_i32 v \<longleftrightarrow> - 2147483648 \<le> v \<and> v \<le> 2147483647"

definition in_i64 :: "int \<Rightarrow> bool" where
  [rust_num]: "in_i64 v \<longleftrightarrow> - 9223372036854775808 \<le> v \<and> v \<le> 9223372036854775807"

definition in_u8 :: "int \<Rightarrow> bool" where
  [rust_num]: "in_u8 v \<longleftrightarrow> 0 \<le> v \<and> v \<le> 255"

definition in_u16 :: "int \<Rightarrow> bool" where
  [rust_num]: "in_u16 v \<longleftrightarrow> 0 \<le> v \<and> v \<le> 65535"

definition in_u32 :: "int \<Rightarrow> bool" where
  [rust_num]: "in_u32 v \<longleftrightarrow> 0 \<le> v \<and> v \<le> 4294967295"

definition in_u64 :: "int \<Rightarrow> bool" where
  [rust_num]: "in_u64 v \<longleftrightarrow> 0 \<le> v \<and> v \<le> 18446744073709551615"

text \<open>\<open>T::try_from(v)\<close> for an integer type with range predicate \<open>rng\<close>.\<close>

definition try_from :: "(int \<Rightarrow> bool) \<Rightarrow> int \<Rightarrow> int option" where
  "try_from rng v = (if rng v then Some v else None)"

lemma try_from_eq_Some [simp]: "try_from rng v = Some w \<longleftrightarrow> rng v \<and> w = v"
  by (auto simp: try_from_def)

lemma try_from_eq_None [simp]: "try_from rng v = None \<longleftrightarrow> \<not> rng v"
  by (auto simp: try_from_def)

text \<open>\<open>i64::checked_mul\<close>.\<close>

definition checked_mul_i64 :: "int \<Rightarrow> int \<Rightarrow> int option" where
  "checked_mul_i64 a b = (if in_i64 (a * b) then Some (a * b) else None)"

lemma checked_mul_i64_eq_Some [simp]:
  "checked_mul_i64 a b = Some c \<longleftrightarrow> in_i64 (a * b) \<and> c = a * b"
  by (auto simp: checked_mul_i64_def)

lemma checked_mul_i64_eq_None [simp]: "checked_mul_i64 a b = None \<longleftrightarrow> \<not> in_i64 (a * b)"
  by (auto simp: checked_mul_i64_def)

text \<open>
  \<open>i64\<close> addition as release builds compile it: two's complement wrap-around.
\<close>

definition wrap_i64 :: "int \<Rightarrow> int" where
  "wrap_i64 v = (v + 9223372036854775808) mod 18446744073709551616 - 9223372036854775808"

lemma wrap_i64_range [simp]: "in_i64 (wrap_i64 v)"
  by (simp add: wrap_i64_def in_i64_def)

lemma wrap_i64_id [simp]: "in_i64 v \<Longrightarrow> wrap_i64 v = v"
  by (simp add: wrap_i64_def in_i64_def)

section \<open>Truncating division\<close>

lemma sdiv_exact:
  assumes "(b :: int) dvd a"
  shows "a sdiv b * b = a"
proof -
  have "a sdiv b * b = sgn a * (sgn b * b * (\<bar>a\<bar> div \<bar>b\<bar>))"
    by (simp add: signed_divide_int_def ac_simps)
  also have "sgn b * b = \<bar>b\<bar>" by (simp add: abs_sgn mult.commute)
  also have "\<bar>b\<bar> * (\<bar>a\<bar> div \<bar>b\<bar>) = \<bar>a\<bar>" using assms by simp
  also have "sgn a * \<bar>a\<bar> = a" by (simp add: sgn_mult_abs)
  finally show ?thesis .
qed

lemma smod_eq_0_iff: "(a :: int) smod b = 0 \<longleftrightarrow> b dvd a"
proof
  assume "a smod b = 0"
  then have "a = a sdiv b * b" using sdiv_mult_smod_eq [of a b] by simp
  moreover have "b dvd a sdiv b * b" by simp
  ultimately show "b dvd a" by simp
next
  assume "b dvd a"
  then show "a smod b = 0" using sdiv_mult_smod_eq [of a b] by (simp add: sdiv_exact)
qed

lemma sdiv_in_i64: "in_i64 a \<Longrightarrow> 0 < b \<Longrightarrow> b dvd a \<Longrightarrow> in_i64 (a sdiv b)"
proof -
  assume a: "in_i64 a" and b: "0 < b" "b dvd a"
  then obtain k where k: "a = b * k" by (auto elim: dvdE)
  have "a sdiv b * b = a" using b(2) by (rule sdiv_exact)
  then have q: "a sdiv b = k" using k b(1) by (metis mult.commute mult_cancel_left less_irrefl)
  have "1 * \<bar>k\<bar> \<le> b * \<bar>k\<bar>" using b(1) by (intro mult_right_mono) auto
  then have "\<bar>k\<bar> \<le> \<bar>a\<bar>" using k b(1) by (simp add: abs_mult)
  moreover have "0 < k \<longleftrightarrow> 0 < a" using k b(1) by (simp add: zero_less_mult_iff)
  ultimately show ?thesis using a by (auto simp: q in_i64_def)
qed

section \<open>Replies of a native function\<close>

text \<open>
  The shapes of the terms a NIF returns.  \<open>ok_encode\<close> builds \<open>{:ok, v}\<close> and
  \<open>err_encode\<close> builds \<open>{:error, msg}\<close>; some functions return the atoms \<open>:ok\<close> or
  \<open>:done\<close>, or a value with no tag.
\<close>

datatype ('v, 'e) nif_term =
    OkTuple 'v
  | ErrorTuple 'e
  | AtomOk
  | AtomDone
  | Untagged 'v

definition ok_encode :: "'v \<Rightarrow> ('v, 'e) nif_term" where
  [simp]: "ok_encode v = OkTuple v"

definition err_encode :: "'e \<Rightarrow> ('v, 'e) nif_term" where
  [simp]: "err_encode e = ErrorTuple e"

section \<open>Decimal notation\<close>

text \<open>\<open>to_string\<close> of an integer and of a boolean.\<close>

fun show_nat :: "nat \<Rightarrow> string" where
  "show_nat n = (if n < 10 then [char_of (48 + n)] else show_nat (n div 10) @ [char_of (48 + n mod 10)])"

declare show_nat.simps [simp del]

definition show_int :: "int \<Rightarrow> string" where
  "show_int i = (if i < 0 then ''-'' @ show_nat (nat (- i)) else show_nat (nat i))"

definition show_bool :: "bool \<Rightarrow> string" where
  "show_bool b = (if b then ''true'' else ''false'')"

section \<open>Lists\<close>

lemma map_nth_upt [simp]: "map (\<lambda>i. f (xs ! i)) [0..<length xs] = map f xs"
  by (rule nth_equalityI) auto

end
