(* ===== verification/Rust_Float.thy ===== *)
theory Rust_Float
  imports Prelude "HOL-Library.Log_Nat"
begin

text \<open>
  The floating-point values of Rust (\<open>f64\<close>, \<open>f32\<close>) and the operations the sources use on
  them: the casts \<open>i64 as f64\<close>, \<open>i64 as f32\<close>, \<open>f64 as f32\<close>, \<open>f32 as f64\<close>,
  \<open>f as i64\<close>, \<open>f as i128\<close>, and the IEEE 754 comparisons.  A finite value is a sign, an
  integral significand and a binary exponent; comparisons look at the denoted number, so the
  representation need not be canonical.
\<close>

section \<open>Values\<close>

datatype fp =
    FNaN
  | FInf bool
  | FFin bool nat int

type_synonym f64 = fp
type_synonym f32 = fp

definition with_sign :: "bool \<Rightarrow> int \<Rightarrow> int" where
  "with_sign s m = (if s then - m else m)"

definition fp_val :: "fp \<Rightarrow> real" where
  "fp_val x = (case x of FFin s m e \<Rightarrow> of_int (with_sign s (int m)) * 2 powi e | _ \<Rightarrow> 0)"

fun is_finite :: "fp \<Rightarrow> bool" where
  "is_finite (FFin s m e) = True"
| "is_finite _ = False"

section \<open>Rounding to nearest, ties to even\<close>

definition rne :: "nat \<Rightarrow> nat \<Rightarrow> nat" where
  "rne m k =
     (let q = m div 2 ^ k; r = m mod 2 ^ k
      in if 2 ^ k < 2 * r \<or> (2 * r = 2 ^ k \<and> odd q) then q + 1 else q)"

definition round_fp :: "nat \<Rightarrow> int \<Rightarrow> int \<Rightarrow> bool \<Rightarrow> nat \<Rightarrow> int \<Rightarrow> fp" where
  "round_fp prec emin emax s m e =
     (let e' = max (e + int (floorlog 2 m) - int prec) emin;
          q = (if e' \<le> e then m else rne m (nat (e' - e)));
          x = (if e' \<le> e then e else e')
      in if q \<noteq> 0 \<and> emax + 1 < int (floorlog 2 q) + x then FInf s else FFin s q x)"

definition round_f64 :: "bool \<Rightarrow> nat \<Rightarrow> int \<Rightarrow> f64" where
  "round_f64 = round_fp 53 (- 1074) 1023"

definition round_f32 :: "bool \<Rightarrow> nat \<Rightarrow> int \<Rightarrow> f32" where
  "round_f32 = round_fp 24 (- 149) 127"

section \<open>Casts\<close>

definition i64_as_f64 :: "int \<Rightarrow> f64" where
  "i64_as_f64 v = round_f64 (v < 0) (nat \<bar>v\<bar>) 0"

definition i64_as_f32 :: "int \<Rightarrow> f32" where
  "i64_as_f32 v = round_f32 (v < 0) (nat \<bar>v\<bar>) 0"

fun f64_as_f32 :: "f64 \<Rightarrow> f32" where
  "f64_as_f32 (FFin s m e) = round_f32 s m e"
| "f64_as_f32 x = x"

definition f32_as_f64 :: "f32 \<Rightarrow> f64" where
  [simp]: "f32_as_f64 x = x"

text \<open>
  Float to integer casts truncate towards zero, saturate at the bounds and send NaN to zero.
\<close>

definition trunc_mag :: "nat \<Rightarrow> int \<Rightarrow> int" where
  "trunc_mag m e = (if 0 \<le> e then int m * 2 ^ nat e else int m div 2 ^ nat (- e))"

fun fp_as_int :: "int \<Rightarrow> int \<Rightarrow> fp \<Rightarrow> int" where
  "fp_as_int lo hi FNaN = 0"
| "fp_as_int lo hi (FInf s) = (if s then lo else hi)"
| "fp_as_int lo hi (FFin s m e) = max lo (min hi (with_sign s (trunc_mag m e)))"

definition fp_as_i64 :: "fp \<Rightarrow> int" where
  "fp_as_i64 = fp_as_int (- 9223372036854775808) 9223372036854775807"

definition fp_as_i128 :: "fp \<Rightarrow> int" where
  "fp_as_i128 =
     fp_as_int (- 170141183460469231731687303715884105728) 170141183460469231731687303715884105727"

section \<open>IEEE 754 comparisons\<close>

definition fin_scaled :: "bool \<Rightarrow> nat \<Rightarrow> int \<Rightarrow> int \<Rightarrow> int" where
  "fin_scaled s m e k = with_sign s (int m) * 2 ^ nat (e - k)"

fun fp_lt :: "fp \<Rightarrow> fp \<Rightarrow> bool" where
  "fp_lt (FFin s m e) (FFin t n d) =
     (fin_scaled s m e (min e d) < fin_scaled t n d (min e d))"
| "fp_lt (FFin s m e) (FInf t) = (\<not> t)"
| "fp_lt (FInf s) (FFin t n d) = s"
| "fp_lt (FInf s) (FInf t) = (s \<and> \<not> t)"
| "fp_lt _ _ = False"

fun fp_eq :: "fp \<Rightarrow> fp \<Rightarrow> bool" where
  "fp_eq (FFin s m e) (FFin t n d) =
     (fin_scaled s m e (min e d) = fin_scaled t n d (min e d))"
| "fp_eq (FInf s) (FInf t) = (s = t)"
| "fp_eq _ _ = False"

definition fp_le :: "fp \<Rightarrow> fp \<Rightarrow> bool" where
  "fp_le x y \<longleftrightarrow> fp_lt x y \<or> fp_eq x y"

section \<open>What the operations compute\<close>

lemma fin_scaled_val:
  assumes "k \<le> e"
  shows "fp_val (FFin s m e) = of_int (fin_scaled s m e k) * 2 powi k"
proof -
  have "(2::real) powi e = 2 ^ nat (e - k) * 2 powi k"
    using assms by (simp add: power_int_add [symmetric] flip: power_int_of_nat)
  then show ?thesis by (simp add: fp_val_def fin_scaled_def)
qed

lemma fp_lt_fin: "is_finite x \<Longrightarrow> is_finite y \<Longrightarrow> fp_lt x y \<longleftrightarrow> fp_val x < fp_val y"
proof -
  assume "is_finite x" "is_finite y"
  then obtain s m e t n d where x: "x = FFin s m e" and y: "y = FFin t n d"
    by (metis is_finite.elims(2))
  have "fp_val x < fp_val y \<longleftrightarrow>
      real_of_int (fin_scaled s m e (min e d)) * 2 powi (min e d)
      < real_of_int (fin_scaled t n d (min e d)) * 2 powi (min e d)"
    by (simp add: x y fin_scaled_val [of "min e d"])
  also have "\<dots> \<longleftrightarrow> fin_scaled s m e (min e d) < fin_scaled t n d (min e d)"
    by simp
  finally show ?thesis by (simp add: x y)
qed

lemma fp_eq_fin: "is_finite x \<Longrightarrow> is_finite y \<Longrightarrow> fp_eq x y \<longleftrightarrow> fp_val x = fp_val y"
proof -
  assume "is_finite x" "is_finite y"
  then obtain s m e t n d where x: "x = FFin s m e" and y: "y = FFin t n d"
    by (metis is_finite.elims(2))
  have "fp_val x = fp_val y \<longleftrightarrow>
      real_of_int (fin_scaled s m e (min e d)) * 2 powi (min e d)
      = real_of_int (fin_scaled t n d (min e d)) * 2 powi (min e d)"
    by (simp add: x y fin_scaled_val [of "min e d"])
  also have "\<dots> \<longleftrightarrow> fin_scaled s m e (min e d) = fin_scaled t n d (min e d)"
    by simp
  finally show ?thesis by (simp add: x y)
qed

lemma fp_le_fin: "is_finite x \<Longrightarrow> is_finite y \<Longrightarrow> fp_le x y \<longleftrightarrow> fp_val x \<le> fp_val y"
  by (auto simp: fp_le_def fp_lt_fin fp_eq_fin)

lemma fp_lt_irrefl [simp]: "\<not> fp_lt x x"
  by (cases x) auto

lemma fp_lt_trans: "fp_lt x y \<Longrightarrow> fp_lt y z \<Longrightarrow> fp_lt x z"
proof -
  assume xy: "fp_lt x y" and yz: "fp_lt y z"
  show ?thesis
  proof (cases "is_finite x \<and> is_finite y \<and> is_finite z")
    case True
    with xy yz show ?thesis using fp_lt_fin [of x y] fp_lt_fin [of y z] fp_lt_fin [of x z] by auto
  next
    case False
    with xy yz show ?thesis by (cases x; cases y; cases z) auto
  qed
qed

lemma fp_le_trans: "fp_le x y \<Longrightarrow> fp_le y z \<Longrightarrow> fp_le x z"
proof -
  assume xy: "fp_le x y" and yz: "fp_le y z"
  show ?thesis
  proof (cases "is_finite x \<and> is_finite y \<and> is_finite z")
    case True
    with xy yz show ?thesis using fp_le_fin [of x y] fp_le_fin [of y z] fp_le_fin [of x z] by auto
  next
    case False
    with xy yz show ?thesis unfolding fp_le_def by (cases x; cases y; cases z) auto
  qed
qed

lemma fp_lt_le_trans: "fp_lt x y \<Longrightarrow> fp_le y z \<Longrightarrow> fp_lt x z"
proof -
  assume xy: "fp_lt x y" and yz: "fp_le y z"
  show ?thesis
  proof (cases "is_finite x \<and> is_finite y \<and> is_finite z")
    case True
    with xy yz show ?thesis using fp_lt_fin [of x y] fp_le_fin [of y z] fp_lt_fin [of x z] by auto
  next
    case False
    with xy yz show ?thesis unfolding fp_le_def by (cases x; cases y; cases z) auto
  qed
qed

lemma fp_le_lt_trans: "fp_le x y \<Longrightarrow> fp_lt y z \<Longrightarrow> fp_lt x z"
proof -
  assume xy: "fp_le x y" and yz: "fp_lt y z"
  show ?thesis
  proof (cases "is_finite x \<and> is_finite y \<and> is_finite z")
    case True
    with xy yz show ?thesis using fp_le_fin [of x y] fp_lt_fin [of y z] fp_lt_fin [of x z] by auto
  next
    case False
    with xy yz show ?thesis unfolding fp_le_def by (cases x; cases y; cases z) auto
  qed
qed

subsection \<open>Rounding an integer gives an integer\<close>

lemma not_fp_lt: "x \<noteq> FNaN \<Longrightarrow> y \<noteq> FNaN \<Longrightarrow> \<not> fp_lt x y \<longleftrightarrow> fp_le y x"
proof (cases "is_finite x \<and> is_finite y")
  case True
  then show ?thesis by (auto simp: fp_lt_fin fp_le_fin)
next
  case False
  moreover assume "x \<noteq> FNaN" "y \<noteq> FNaN"
  ultimately show ?thesis by (cases x; cases y) (auto simp: fp_le_def)
qed

lemma rne_0 [simp]: "rne m 0 = m"
  by (simp add: rne_def)

lemma rne_le: "m \<le> 2 ^ (k + j) \<Longrightarrow> rne m k \<le> 2 ^ j"
proof -
  assume m: "m \<le> 2 ^ (k + j)"
  show ?thesis
  proof (cases "m = 2 ^ (k + j)")
    case True
    then show ?thesis by (simp add: rne_def Let_def power_add)
  next
    case False
    with m have "m < 2 ^ j * 2 ^ k" by (simp add: power_add mult.commute)
    then have "m div 2 ^ k < 2 ^ j" by (simp add: less_mult_imp_div_less)
    then show ?thesis by (auto simp: rne_def Let_def)
  qed
qed

lemma rne_exact: "2 ^ k dvd m \<Longrightarrow> rne m k * 2 ^ k = m"
  by (auto simp: rne_def Let_def)

text \<open>
  An integral magnitude below \<open>2 ^ 64\<close> rounds to a finite value with a non-negative exponent in
  both formats: neither cast can overflow.
\<close>

lemma round_fp_int:
  assumes m: "m < 2 ^ 64" and p: "0 < prec" "prec \<le> 64" and em: "emin \<le> 0" "64 < emax"
  obtains q x where "round_fp prec emin emax s m 0 = FFin s q (int x)" "q * 2 ^ x \<le> 2 ^ 64"
    "m < 2 ^ prec \<Longrightarrow> q = m \<and> x = 0"
proof -
  define L where "L = floorlog 2 m"
  have mL: "m \<le> 2 ^ L" using floorlog_bounds [of m 2] unfolding L_def by (cases "m = 0") auto
  have L64: "L \<le> 64" unfolding L_def using m by (simp add: floorlog_le_iff)
  have Lp: "m < 2 ^ prec \<Longrightarrow> L \<le> prec" unfolding L_def by (simp add: floorlog_le_iff)
  show ?thesis
  proof (cases "L \<le> prec")
    case True
    then have "max (0 + int (floorlog 2 m) - int prec) emin \<le> 0" using em by (simp add: L_def)
    then have "round_fp prec emin emax s m 0 = FFin s m (int 0)"
      using em L64 by (simp add: round_fp_def Let_def L_def)
    then show ?thesis using that [of m 0] m by simp
  next
    case False
    then obtain k where k: "L = prec + k" "0 < k" by (metis less_imp_add_positive not_le)
    then have e': "max (0 + int (floorlog 2 m) - int prec) emin = int k"
      using em by (simp add: L_def)
    have q: "rne m k \<le> 2 ^ prec" using mL k by (intro rne_le) (simp add: add.commute)
    then have "rne m k < 2 ^ Suc prec" by (rule le_less_trans) simp
    then have "floorlog 2 (rne m k) \<le> Suc prec" by (simp add: floorlog_le_iff)
    then have fin: "round_fp prec emin emax s m 0 = FFin s (rne m k) (int k)"
      using k L64 em unfolding round_fp_def e' by (simp add: Let_def)
    have "rne m k * 2 ^ k \<le> 2 ^ prec * 2 ^ k" using q by simp
    also have "\<dots> = 2 ^ L" by (simp add: k power_add)
    also have "\<dots> \<le> 2 ^ 64" using L64 by (intro power_increasing) simp_all
    finally show ?thesis using that [of "rne m k" k] fin Lp False by auto
  qed
qed

lemma nat_abs_lt_64: "in_i64 v \<Longrightarrow> nat \<bar>v\<bar> < 2 ^ 64"
  by (auto simp: in_i64_def)

lemma i64_as_f64_int:
  assumes "in_i64 v"
  obtains q x where "i64_as_f64 v = FFin (v < 0) q (int x)" "q * 2 ^ x \<le> 2 ^ 64"
    "\<bar>v\<bar> < 2 ^ 53 \<Longrightarrow> q = nat \<bar>v\<bar> \<and> x = 0"
proof (rule round_fp_int [of "nat \<bar>v\<bar>" 53 "- 1074" 1023 "v < 0"])
  show "nat \<bar>v\<bar> < 2 ^ 64" using assms by (rule nat_abs_lt_64)
qed (auto intro!: that simp: i64_as_f64_def round_f64_def)

lemma i64_as_f32_int:
  assumes "in_i64 v"
  obtains q x where "i64_as_f32 v = FFin (v < 0) q (int x)" "q * 2 ^ x \<le> 2 ^ 64"
    "\<bar>v\<bar> < 2 ^ 24 \<Longrightarrow> q = nat \<bar>v\<bar> \<and> x = 0"
proof (rule round_fp_int [of "nat \<bar>v\<bar>" 24 "- 149" 127 "v < 0"])
  show "nat \<bar>v\<bar> < 2 ^ 64" using assms by (rule nat_abs_lt_64)
qed (auto intro!: that simp: i64_as_f32_def round_f32_def)

lemma fp_val_int: "fp_val (FFin s q (int x)) = of_int (with_sign s (int (q * 2 ^ x)))"
  by (simp add: fp_val_def with_sign_def)

lemma trunc_mag_int: "trunc_mag q (int x) = int (q * 2 ^ x)"
  by (simp add: trunc_mag_def)

end
