(* ===== verification/Rust_Utf8.thy ===== *)
theory Rust_Utf8
  imports Prelude
begin

text \<open>
  Byte strings and UTF-8 as the Rust standard library treats them.  A byte is a HOL character
  (an octet), a Rust \<open>String\<close> is the byte list of its UTF-8 encoding, \<open>utf8_valid\<close> is the
  check of \<open>std::str::from_utf8\<close>, and \<open>from_utf8_lossy\<close> is
  \<open>String::from_utf8_lossy\<close>: each maximal ill-formed subpart becomes U+FFFD.
\<close>

type_synonym byte = char
type_synonym bytes = "char list"

abbreviation byte_val :: "byte \<Rightarrow> nat" where
  "byte_val \<equiv> of_char"

section \<open>One scalar value at the head of a byte string\<close>

definition is_cont :: "byte \<Rightarrow> bool" where
  "is_cont b \<longleftrightarrow> 128 \<le> byte_val b \<and> byte_val b \<le> 191"

text \<open>The permitted second bytes after a three- or four-byte lead.\<close>

definition second_ok :: "byte \<Rightarrow> byte \<Rightarrow> bool" where
  "second_ok b0 b1 \<longleftrightarrow>
     (if byte_val b0 = 224 then 160 \<le> byte_val b1 \<and> byte_val b1 \<le> 191
      else if byte_val b0 = 237 then 128 \<le> byte_val b1 \<and> byte_val b1 \<le> 159
      else if byte_val b0 = 240 then 144 \<le> byte_val b1 \<and> byte_val b1 \<le> 191
      else if byte_val b0 = 244 then 128 \<le> byte_val b1 \<and> byte_val b1 \<le> 143
      else is_cont b1)"

text \<open>
  \<open>Ok n\<close>: the first \<open>n\<close> bytes encode a scalar value.  \<open>Err n\<close>: they are a maximal
  ill-formed subpart.
\<close>

fun utf8_head :: "bytes \<Rightarrow> (nat, nat) result" where
  "utf8_head [] = Err 1"
| "utf8_head (b0 # bs) =
     (if byte_val b0 < 128 then Ok 1
      else if 194 \<le> byte_val b0 \<and> byte_val b0 \<le> 223 then
        (case bs of b1 # _ \<Rightarrow> if is_cont b1 then Ok 2 else Err 1 | [] \<Rightarrow> Err 1)
      else if 224 \<le> byte_val b0 \<and> byte_val b0 \<le> 239 then
        (case bs of
           b1 # cs \<Rightarrow>
             if second_ok b0 b1 then
               (case cs of b2 # _ \<Rightarrow> if is_cont b2 then Ok 3 else Err 2 | [] \<Rightarrow> Err 2)
             else Err 1
         | [] \<Rightarrow> Err 1)
      else if 240 \<le> byte_val b0 \<and> byte_val b0 \<le> 244 then
        (case bs of
           b1 # cs \<Rightarrow>
             if second_ok b0 b1 then
               (case cs of
                  b2 # ds \<Rightarrow>
                    if is_cont b2 then
                      (case ds of b3 # _ \<Rightarrow> if is_cont b3 then Ok 4 else Err 3 | [] \<Rightarrow> Err 3)
                    else Err 2
                | [] \<Rightarrow> Err 2)
             else Err 1
         | [] \<Rightarrow> Err 1)
      else Err 1)"

lemma utf8_head_Ok_bounds: "utf8_head bs = Ok n \<Longrightarrow> 0 < n \<and> n \<le> length bs"
  by (cases bs) (auto split: if_splits list.splits)

lemma utf8_head_Err_pos: "utf8_head bs = Err n \<Longrightarrow> 0 < n"
  by (cases bs) (auto split: if_splits list.splits)

lemma utf8_head_take: "utf8_head bs = Ok n \<Longrightarrow> utf8_head (take n bs @ ys) = Ok n"
  by (cases bs) (auto simp: numeral_nat split: if_splits list.splits)

section \<open>Validation and lossy decoding\<close>

function utf8_valid :: "bytes \<Rightarrow> bool" where
  "utf8_valid bs =
     (if bs = [] then True
      else case utf8_head bs of Ok n \<Rightarrow> utf8_valid (drop n bs) | Err _ \<Rightarrow> False)"
  by pat_completeness auto
termination
  by (relation "measure length") (auto dest: utf8_head_Ok_bounds)

declare utf8_valid.simps [simp del]

definition replacement :: bytes where
  "replacement = [CHR 0xEF, CHR 0xBF, CHR 0xBD]"

function from_utf8_lossy :: "bytes \<Rightarrow> bytes" where
  "from_utf8_lossy bs =
     (if bs = [] then []
      else case utf8_head bs of
        Ok n \<Rightarrow> take n bs @ from_utf8_lossy (drop n bs)
      | Err n \<Rightarrow> replacement @ from_utf8_lossy (drop n bs))"
  by pat_completeness auto
termination
  by (relation "measure length") (auto dest: utf8_head_Ok_bounds utf8_head_Err_pos)

declare from_utf8_lossy.simps [simp del]

lemma utf8_valid_Nil [simp]: "utf8_valid []"
  by (simp add: utf8_valid.simps)

lemma utf8_valid_step: "utf8_head bs = Ok n \<Longrightarrow> utf8_valid (drop n bs) \<Longrightarrow> utf8_valid bs"
  by (subst utf8_valid.simps) simp

text \<open>Validity is closed under concatenation, so joining strings gives a string.\<close>

lemma utf8_valid_append: "utf8_valid xs \<Longrightarrow> utf8_valid ys \<Longrightarrow> utf8_valid (xs @ ys)"
proof (induction xs rule: utf8_valid.induct)
  case (1 bs)
  show ?case
  proof (cases "bs = []")
    case True
    with "1.prems" show ?thesis by simp
  next
    case False
    with "1.prems"(1) obtain n where n: "utf8_head bs = Ok n" "utf8_valid (drop n bs)"
      by (subst (asm) utf8_valid.simps) (auto split: sum.splits)
    have le: "n \<le> length bs" using utf8_head_Ok_bounds [OF n(1)] by simp
    have "utf8_head (bs @ ys) = utf8_head (take n bs @ (drop n bs @ ys))"
      by (simp flip: append_assoc)
    also have "\<dots> = Ok n" using n(1) by (rule utf8_head_take)
    finally have "utf8_head (bs @ ys) = Ok n" .
    moreover have "utf8_valid (drop n bs @ ys)" using "1.IH" False n "1.prems"(2) by blast
    ultimately show ?thesis using le utf8_valid_step [of "bs @ ys" n] by simp
  qed
qed

lemma utf8_valid_replacement [simp]: "utf8_valid replacement"
  by (rule utf8_valid_step [of _ 3]) (simp_all add: replacement_def second_ok_def is_cont_def)

lemma from_utf8_lossy_valid: "utf8_valid (from_utf8_lossy bs)"
proof (induction bs rule: from_utf8_lossy.induct)
  case (1 bs)
  show ?case
  proof (cases "bs = []")
    case True
    then show ?thesis by (simp add: from_utf8_lossy.simps)
  next
    case False
    show ?thesis
    proof (cases "utf8_head bs")
      case (Inl n)
      have "utf8_valid (from_utf8_lossy (drop n bs))" using "1.IH" False Inl by blast
      then show ?thesis using False Inl
        by (subst from_utf8_lossy.simps) (simp add: utf8_valid_append)
    next
      case (Inr n)
      have "utf8_valid (take n bs)"
        using utf8_head_take [OF Inr, of "[]"] utf8_valid_step [of "take n bs" n] by simp
      moreover have "utf8_valid (from_utf8_lossy (drop n bs))" using "1.IH" False Inr by blast
      ultimately show ?thesis using False Inr
        by (subst from_utf8_lossy.simps) (simp add: utf8_valid_append)
    qed
  qed
qed

lemma from_utf8_lossy_id: "utf8_valid bs \<Longrightarrow> from_utf8_lossy bs = bs"
proof (induction bs rule: utf8_valid.induct)
  case (1 bs)
  then show ?case
    by (subst from_utf8_lossy.simps, subst (asm) (2) utf8_valid.simps)
       (auto split: sum.splits if_splits)
qed

corollary from_utf8_lossy_idem [simp]: "from_utf8_lossy (from_utf8_lossy bs) = from_utf8_lossy bs"
  by (simp add: from_utf8_lossy_id from_utf8_lossy_valid)

lemma utf8_valid_ascii: "(\<And>b. b \<in> set bs \<Longrightarrow> byte_val b < 128) \<Longrightarrow> utf8_valid bs"
  by (induction bs) (auto intro: utf8_valid_step)

section \<open>Byte-wise order of strings\<close>

text \<open>\<open>str\<close> values compare byte by byte (\<open>Ord for str\<close>).\<close>

fun str_lt :: "bytes \<Rightarrow> bytes \<Rightarrow> bool" where
  "str_lt xs [] = False"
| "str_lt [] (y # ys) = True"
| "str_lt (x # xs) (y # ys) = (byte_val x < byte_val y \<or> x = y \<and> str_lt xs ys)"

definition str_le :: "bytes \<Rightarrow> bytes \<Rightarrow> bool" where
  "str_le xs ys \<longleftrightarrow> str_lt xs ys \<or> xs = ys"

lemma str_lt_irrefl [simp]: "\<not> str_lt xs xs"
  by (induction xs) auto

lemma str_lt_trans: "str_lt xs ys \<Longrightarrow> str_lt ys zs \<Longrightarrow> str_lt xs zs"
proof (induction xs zs arbitrary: ys rule: str_lt.induct)
  case (1 xs)
  then show ?case by simp
next
  case (2 z zs)
  then show ?case by simp
next
  case (3 x xs z zs)
  then obtain y ys' where "ys = y # ys'" by (cases ys) auto
  with 3 show ?case by auto
qed

lemma str_lt_total: "str_lt xs ys \<or> xs = ys \<or> str_lt ys xs"
proof (induction xs ys rule: str_lt.induct)
  case (1 xs)
  then show ?case by (cases xs) auto
next
  case (3 x xs y ys)
  then show ?case by (cases "byte_val x" "byte_val y" rule: linorder_cases) auto
qed simp

lemma str_le_trans: "str_le xs ys \<Longrightarrow> str_le ys zs \<Longrightarrow> str_le xs zs"
  by (auto simp: str_le_def intro: str_lt_trans)

lemma str_lt_le_trans: "str_lt xs ys \<Longrightarrow> str_le ys zs \<Longrightarrow> str_lt xs zs"
  by (auto simp: str_le_def intro: str_lt_trans)

lemma str_le_lt_trans: "str_le xs ys \<Longrightarrow> str_lt ys zs \<Longrightarrow> str_lt xs zs"
  by (auto simp: str_le_def intro: str_lt_trans)

lemma not_str_lt: "\<not> str_lt xs ys \<longleftrightarrow> str_le ys xs"
proof -
  have "\<not> (str_lt xs ys \<and> str_lt ys xs)" using str_lt_trans [of xs ys xs] by auto
  then show ?thesis using str_lt_total [of xs ys] by (auto simp: str_le_def)
qed

end
