(* ===== verification/Beam_Term.thy ===== *)
theory Beam_Term
  imports Rust_Float Rust_Utf8
begin

text \<open>
  The terms that cross the NIF boundary and their decoding.  A BEAM term is an atom, an integer
  of any size, a float, a binary, a tuple, a proper list, or something the sources never look
  into (references, functions, maps, improper lists).  The decoders are the views
  \<open>term.decode::<T>()\<close> and \<open>get_tuple\<close> take of a term: each inspects the term's runtime type
  and its range.  Atoms are interned names; \<open>true\<close>, \<open>false\<close> and \<open>nil\<close> are atoms.
\<close>

datatype beam_term =
    TAtom string
  | TInt int
  | TFloat f64
  | TBinary bytes
  | TTuple "beam_term list"
  | TList "beam_term list"
  | TOpaque nat

fun decode_atom :: "beam_term \<Rightarrow> string option" where
  "decode_atom (TAtom a) = Some a"
| "decode_atom _ = None"

definition decode_bool :: "beam_term \<Rightarrow> bool option" where
  "decode_bool t =
     (if t = TAtom ''true'' then Some True else if t = TAtom ''false'' then Some False else None)"

fun decode_i64 :: "beam_term \<Rightarrow> int option" where
  "decode_i64 (TInt i) = try_from in_i64 i"
| "decode_i64 _ = None"

fun decode_f64 :: "beam_term \<Rightarrow> f64 option" where
  "decode_f64 (TFloat f) = Some f"
| "decode_f64 _ = None"

fun decode_binary :: "beam_term \<Rightarrow> bytes option" where
  "decode_binary (TBinary b) = Some b"
| "decode_binary _ = None"

text \<open>A \<open>String\<close> is a binary that holds valid UTF-8.\<close>

fun decode_string :: "beam_term \<Rightarrow> string option" where
  "decode_string (TBinary b) = (if utf8_valid b then Some b else None)"
| "decode_string _ = None"

fun get_tuple :: "beam_term \<Rightarrow> beam_term list option" where
  "get_tuple (TTuple ts) = Some ts"
| "get_tuple _ = None"

fun decode_list :: "beam_term \<Rightarrow> beam_term list option" where
  "decode_list (TList ts) = Some ts"
| "decode_list _ = None"

text \<open>\<open>Vec<String>\<close>: every element must be a string.\<close>

definition decode_string_vec :: "beam_term \<Rightarrow> string list option" where
  "decode_string_vec t =
     (case decode_list t of
        None \<Rightarrow> None
      | Some ts \<Rightarrow> (case collect (\<lambda>x. ok_or () (decode_string x)) ts of Err _ \<Rightarrow> None | Ok ss \<Rightarrow> Some ss))"

lemma decode_bool_simps [simp]:
  "decode_bool (TInt i) = None" "decode_bool (TFloat f) = None" "decode_bool (TBinary b) = None"
  "decode_bool (TTuple ts) = None" "decode_bool (TList ts) = None"
  "decode_bool (TAtom a) =
     (if a = ''true'' then Some True else if a = ''false'' then Some False else None)"
  by (simp_all add: decode_bool_def)

lemma decode_bool_opaque [simp]: "decode_bool (TOpaque n) = None"
  by (simp add: decode_bool_def)

text \<open>A decoder succeeds on exactly one shape of term.\<close>

lemma decode_atom_iff [simp]: "decode_atom t = Some a \<longleftrightarrow> t = TAtom a"
  by (cases t) auto

lemma decode_i64_iff [simp]: "decode_i64 t = Some v \<longleftrightarrow> in_i64 v \<and> t = TInt v"
  by (cases t) auto

lemma decode_f64_iff [simp]: "decode_f64 t = Some f \<longleftrightarrow> t = TFloat f"
  by (cases t) auto

lemma decode_binary_iff [simp]: "decode_binary t = Some b \<longleftrightarrow> t = TBinary b"
  by (cases t) auto

lemma decode_string_iff [simp]: "decode_string t = Some s \<longleftrightarrow> utf8_valid s \<and> t = TBinary s"
  by (cases t) auto

lemma get_tuple_iff [simp]: "get_tuple t = Some ts \<longleftrightarrow> t = TTuple ts"
  by (cases t) auto

lemma decode_list_iff [simp]: "decode_list t = Some ts \<longleftrightarrow> t = TList ts"
  by (cases t) auto

lemma decode_string_vec_strings:
  "(\<And>s. s \<in> set ss \<Longrightarrow> utf8_valid s) \<Longrightarrow> decode_string_vec (TList (map TBinary ss)) = Some ss"
proof -
  assume "\<And>s. s \<in> set ss \<Longrightarrow> utf8_valid s"
  then have "collect (\<lambda>x. ok_or () (decode_string x)) (map TBinary ss) = Ok ss"
    by (induction ss) auto
  then show ?thesis by (simp add: decode_string_vec_def)
qed

section \<open>Sizes, for recursion on terms\<close>

lemma elem_size: "(x :: beam_term) \<in> set xs \<Longrightarrow> size x < size_list size xs"
  by (induction xs) auto

end
