(* ===== verification/Arrow_Model.thy ===== *)
theory Arrow_Model
  imports Beam_Term
begin

text \<open>
  The data of Apache Arrow as the sources see it, and the interface to the Arrow crates.
  Arrays, schemas and record batches are data; every computation of the \<open>arrow\<close>,
  \<open>arrow-ord\<close>, \<open>arrow-arith\<close> and \<open>arrow-select\<close> crates is a field of the parameter
  record \<open>arrow_api\<close>.  What the sources rely on is stated as the laws of the locale
  \<open>arrow_laws\<close> (the documented behaviour of those crates), and \<open>ref_api\<close> shows that the
  laws can hold together.
\<close>

section \<open>Data types, fields and schemas\<close>

datatype TimeUnit = Second | Millisecond | Microsecond | Nanosecond

datatype DataType =
    DNull | DBoolean
  | DInt8 | DInt16 | DInt32 | DInt64
  | DUInt8 | DUInt16 | DUInt32 | DUInt64
  | DFloat16 | DFloat32 | DFloat64
  | DUtf8 | DLargeUtf8 | DBinary | DLargeBinary
  | DList Field | DLargeList Field | DStruct "Field list"
  | DTimestamp TimeUnit "string option"
  | DDate32 | DDate64
  | DTime32 TimeUnit | DTime64 TimeUnit | DDuration TimeUnit
  | DDecimal128 nat int | DDecimal256 nat int
  | DDictionary DataType DataType
  | DOther nat
and Field = Field (f_name: string) (f_type: DataType) (f_nullable: bool)

record Schema =
  sfields :: "Field list"
  metadata :: "(string \<times> string) list"

definition schema_new :: "Field list \<Rightarrow> Schema" where
  "schema_new fs = \<lparr>sfields = fs, metadata = []\<rparr>"

lemma sfields_schema_new [simp]: "sfields (schema_new fs) = fs"
  by (simp add: schema_new_def)

section \<open>Arrays and record batches\<close>

text \<open>
  An array is its logical content: one optional value per slot, \<open>None\<close> for a null.  A
  \<open>BooleanArray\<close> is the array type the sources downcast to; every other array is typed by its
  Arrow data type.
\<close>

datatype cell =
    CBool bool
  | CInt int
  | CFloat fp
  | CStr bytes
  | CBin bytes
  | COther nat

datatype Arr =
    BooleanArray "bool option list"
  | TypedArray DataType "cell option list"

fun array_type :: "Arr \<Rightarrow> DataType" where
  "array_type (BooleanArray bs) = DBoolean"
| "array_type (TypedArray dt cs) = dt"

fun array_cells :: "Arr \<Rightarrow> cell option list" where
  "array_cells (BooleanArray bs) = map (map_option CBool) bs"
| "array_cells (TypedArray dt cs) = cs"

definition array_len :: "Arr \<Rightarrow> nat" where
  "array_len a = length (array_cells a)"

lemma array_len_simps [simp]:
  "array_len (BooleanArray bs) = length bs" "array_len (TypedArray dt cs) = length cs"
  by (simp_all add: array_len_def)

text \<open>\<open>as_any().downcast_ref::<BooleanArray>()\<close>.\<close>

fun downcast_boolean :: "Arr \<Rightarrow> bool option list option" where
  "downcast_boolean (BooleanArray bs) = Some bs"
| "downcast_boolean (TypedArray dt cs) = None"

lemma downcast_boolean_eq_Some [simp]: "downcast_boolean a = Some bs \<longleftrightarrow> a = BooleanArray bs"
  by (cases a) auto

record RecordBatch =
  schema :: Schema
  columns :: "Arr list"
  num_rows :: nat

text \<open>The invariant \<open>RecordBatch::try_new\<close> establishes.\<close>

definition batch_wf :: "RecordBatch \<Rightarrow> bool" where
  "batch_wf b \<longleftrightarrow>
     length (columns b) = length (sfields (schema b)) \<and>
     list_all2 (\<lambda>f c. array_type c = f_type f) (sfields (schema b)) (columns b) \<and>
     list_all (\<lambda>c. array_len c = num_rows b) (columns b)"

lemma batch_wf_len: "batch_wf b \<Longrightarrow> c \<in> set (columns b) \<Longrightarrow> array_len c = num_rows b"
  by (auto simp: batch_wf_def list_all_iff)

lemma batch_wf_nth:
  assumes "batch_wf b" "i < length (sfields (schema b))"
  shows "array_type (columns b ! i) = f_type (sfields (schema b) ! i)"
    "array_len (columns b ! i) = num_rows b" "i < length (columns b)"
  using assms by (auto simp: batch_wf_def list_all_length dest: list_all2_nthD)

text \<open>The slots of an array at given positions, in that order.\<close>

fun array_sel :: "nat list \<Rightarrow> Arr \<Rightarrow> Arr" where
  "array_sel is (BooleanArray bs) = BooleanArray (map ((!) bs) is)"
| "array_sel is (TypedArray dt cs) = TypedArray dt (map ((!) cs) is)"

lemma array_sel_type [simp]: "array_type (array_sel is a) = array_type a"
  by (cases a) auto

lemma array_sel_len [simp]: "array_len (array_sel is a) = length is"
  by (cases a) auto

lemma array_sel_cells:
  "(\<And>i. i \<in> set is \<Longrightarrow> i < array_len a) \<Longrightarrow>
   array_cells (array_sel is a) = map ((!) (array_cells a)) is"
  by (cases a) auto

definition true_positions :: "bool option list \<Rightarrow> nat list" where
  "true_positions msk = filter (\<lambda>i. msk ! i = Some True) [0..<length msk]"

lemma true_positions_in_range: "i \<in> set (true_positions msk) \<Longrightarrow> i < length msk"
  by (simp add: true_positions_def)

definition batch_sel :: "nat list \<Rightarrow> RecordBatch \<Rightarrow> RecordBatch" where
  "batch_sel is b = b\<lparr>columns := map (array_sel is) (columns b), num_rows := length is\<rparr>"

lemma batch_sel_simps [simp]:
  "schema (batch_sel is b) = schema b" "num_rows (batch_sel is b) = length is"
  "columns (batch_sel is b) = map (array_sel is) (columns b)"
  by (simp_all add: batch_sel_def)

lemma batch_sel_wf: "batch_wf b \<Longrightarrow> batch_wf (batch_sel is b)"
  by (simp add: batch_wf_def list_all2_map2 list_all_iff)

section \<open>The Arrow crates as a parameter\<close>

datatype cmp_op = CmpEq | CmpNe | CmpGt | CmpGte | CmpLt | CmpLte

text \<open>\<open>Datum\<close>: an array, or a one-element array marked as a scalar (\<open>Scalar::new\<close>).\<close>

datatype datum = DArray Arr | DScalar Arr

record SortOptions =
  descending :: bool
  nulls_first :: bool

type_synonym arrow_err = string

record arrow_api =
  k_index_of :: "Schema \<Rightarrow> string \<Rightarrow> nat option"
  k_field_with_name :: "Schema \<Rightarrow> string \<Rightarrow> Field option"
  k_column_by_name :: "RecordBatch \<Rightarrow> string \<Rightarrow> Arr option"
  k_cmp :: "cmp_op \<Rightarrow> datum \<Rightarrow> datum \<Rightarrow> (bool option list, arrow_err) result"
  k_and :: "bool option list \<Rightarrow> bool option list \<Rightarrow> (bool option list, arrow_err) result"
  k_or :: "bool option list \<Rightarrow> bool option list \<Rightarrow> (bool option list, arrow_err) result"
  k_bool_value :: "bool option list \<Rightarrow> nat \<Rightarrow> bool"
  k_not :: "bool option list \<Rightarrow> (bool option list, arrow_err) result"
  k_filter :: "RecordBatch \<Rightarrow> bool option list \<Rightarrow> (RecordBatch, arrow_err) result"
  k_project :: "RecordBatch \<Rightarrow> nat list \<Rightarrow> (RecordBatch, arrow_err) result"
  k_sort_to_indices :: "Arr \<Rightarrow> SortOptions \<Rightarrow> (nat list, arrow_err) result"
  k_take :: "Arr \<Rightarrow> nat list \<Rightarrow> (Arr, arrow_err) result"
  k_try_new :: "Schema \<Rightarrow> Arr list \<Rightarrow> (RecordBatch, arrow_err) result"
  k_concat_batches :: "Schema \<Rightarrow> RecordBatch list \<Rightarrow> (RecordBatch, arrow_err) result"

text \<open>Null-propagating application of a binary predicate to two slots.\<close>

fun lift2 :: "('a \<Rightarrow> 'b \<Rightarrow> 'c) \<Rightarrow> 'a option \<Rightarrow> 'b option \<Rightarrow> 'c option" where
  "lift2 f (Some x) (Some y) = Some (f x y)"
| "lift2 f _ _ = None"

lemma lift2_None [simp]: "lift2 f x None = None" "lift2 f None y = None"
  by (cases x; cases y; simp)+

lemma lift2_eq_Some: "lift2 f x y = Some z \<longleftrightarrow> (\<exists>a b. x = Some a \<and> y = Some b \<and> z = f a b)"
  by (cases x; cases y) auto

text \<open>
  The documented behaviour of the kernels.  \<open>ccmp\<close> is the comparison of two non-null values;
  the boolean kernels \<open>and\<close>, \<open>or\<close>, \<open>not\<close> are the strict ones (a null operand gives a null
  result, unlike the \<open>_kleene\<close> kernels); \<open>filter_record_batch\<close> keeps the rows whose mask
  slot is true.
\<close>

locale arrow_laws =
  fixes K :: arrow_api
    and ccmp :: "cmp_op \<Rightarrow> cell \<Rightarrow> cell \<Rightarrow> bool"
  assumes index_of_Some:
      "k_index_of K s n = Some i \<Longrightarrow> i < length (sfields s) \<and> f_name (sfields s ! i) = n"
    and index_of_None: "k_index_of K s n = None \<longleftrightarrow> n \<notin> f_name ` set (sfields s)"
    and column_by_name:
      "batch_wf b \<Longrightarrow> k_column_by_name K b n = map_option ((!) (columns b)) (k_index_of K (schema b) n)"
    and cmp_arrays:
      "array_type a = array_type c \<Longrightarrow> array_len a = array_len c \<Longrightarrow>
       k_cmp K op (DArray a) (DArray c) =
         Ok (map2 (lift2 (ccmp op)) (array_cells a) (array_cells c))"
    and cmp_array_scalar:
      "array_type a = array_type c \<Longrightarrow> array_cells c = [y] \<Longrightarrow>
       k_cmp K op (DArray a) (DScalar c) = Ok (map (\<lambda>x. lift2 (ccmp op) x y) (array_cells a))"
    and cmp_scalar_array:
      "array_type a = array_type c \<Longrightarrow> array_cells a = [x] \<Longrightarrow>
       k_cmp K op (DScalar a) (DArray c) = Ok (map (lift2 (ccmp op) x) (array_cells c))"
    and cmp_scalars:
      "array_type a = array_type c \<Longrightarrow> array_cells a = [x] \<Longrightarrow> array_cells c = [y] \<Longrightarrow>
       k_cmp K op (DScalar a) (DScalar c) = Ok [lift2 (ccmp op) x y]"
    and cmp_type_mismatch: "array_type a \<noteq> array_type c \<Longrightarrow> \<not> is_ok (k_cmp K op (DArray a) (DArray c))"
    and and_eq: "length p = length q \<Longrightarrow> k_and K p q = Ok (map2 (lift2 (\<and>)) p q)"
    and or_eq: "length p = length q \<Longrightarrow> k_or K p q = Ok (map2 (lift2 (\<or>)) p q)"
    and not_eq: "k_not K p = Ok (map (map_option Not) p)"
    and bool_value: "i < length p \<Longrightarrow> p ! i = Some v \<Longrightarrow> k_bool_value K p i = v"
    and filter_eq:
      "batch_wf b \<Longrightarrow> length m = num_rows b \<Longrightarrow> k_filter K b m = Ok (batch_sel (true_positions m) b)"
    and project_eq:
      "batch_wf b \<Longrightarrow> (\<And>i. i \<in> set is \<Longrightarrow> i < length (columns b)) \<Longrightarrow>
       k_project K b is = Ok (b\<lparr>schema := (schema b)\<lparr>sfields := map ((!) (sfields (schema b))) is\<rparr>,
                               columns := map ((!) (columns b)) is\<rparr>)"
    and sort_perm:
      "k_sort_to_indices K a o1 = Ok is \<Longrightarrow> distinct is \<and> set is = {..<array_len a}"
    and sort_sorted:
      "k_sort_to_indices K a \<lparr>descending = desc, nulls_first = True\<rparr> = Ok is \<Longrightarrow> i < j \<Longrightarrow>
       j < length is \<Longrightarrow> array_cells a ! (is ! i) = Some u \<Longrightarrow>
       \<exists>w. array_cells a ! (is ! j) = Some w \<and> ccmp (if desc then CmpGte else CmpLte) u w"
    and take_eq:
      "(\<And>i. i \<in> set is \<Longrightarrow> i < array_len a) \<Longrightarrow> k_take K a is = Ok (array_sel is a)"
    and try_new_eq:
      "batch_wf \<lparr>schema = s, columns = cs, num_rows = rows\<rparr> \<Longrightarrow> cs \<noteq> [] \<Longrightarrow>
       list_all2 (\<lambda>f c. f_nullable f \<or> None \<notin> set (array_cells c)) (sfields s) cs \<Longrightarrow>
       k_try_new K s cs = Ok \<lparr>schema = s, columns = cs, num_rows = rows\<rparr>"
    and try_new_wf:
      "k_try_new K s cs = Ok b \<Longrightarrow> schema b = s \<and> columns b = cs \<and> batch_wf b"
    and field_with_name: "k_field_with_name K s n = map_option ((!) (sfields s)) (k_index_of K s n)"

text \<open>
  The order the comparison kernels use: numeric on integers, false below true, bytewise on
  strings, and on floats the IEEE 754 order wherever that is total (no NaN, and not two zeros,
  whose signs the kernels distinguish).
\<close>

fun cmp_by :: "('a \<Rightarrow> 'a \<Rightarrow> bool) \<Rightarrow> cmp_op \<Rightarrow> 'a \<Rightarrow> 'a \<Rightarrow> bool" where
  "cmp_by lt CmpEq x y = (\<not> lt x y \<and> \<not> lt y x)"
| "cmp_by lt CmpNe x y = (lt x y \<or> lt y x)"
| "cmp_by lt CmpGt x y = lt y x"
| "cmp_by lt CmpGte x y = (\<not> lt x y)"
| "cmp_by lt CmpLt x y = lt x y"
| "cmp_by lt CmpLte x y = (\<not> lt y x)"

locale arrow_order = arrow_laws +
  assumes ccmp_int: "ccmp op (CInt i) (CInt j) = cmp_by (<) op i j"
    and ccmp_bool: "ccmp op (CBool p) (CBool q) = cmp_by (<) op p q"
    and ccmp_str: "ccmp op (CStr u) (CStr w) = cmp_by str_lt op u w"
    and ccmp_float:
      "x \<noteq> FNaN \<Longrightarrow> is_finite y \<Longrightarrow> fp_val y \<noteq> 0 \<Longrightarrow> ccmp op (CFloat x) (CFloat y) = cmp_by fp_lt op x y"

section \<open>A reference instance\<close>

text \<open>
  A concrete interface that satisfies the laws: floats are compared by the IEEE 754
  totalOrder predicate, as the comparison kernels document, with one NaN, above every other
  value.
\<close>

definition fp_neg_zero :: "fp \<Rightarrow> bool" where
  "fp_neg_zero x = (case x of FFin True 0 e \<Rightarrow> True | _ \<Rightarrow> False)"

definition fp_pos_zero :: "fp \<Rightarrow> bool" where
  "fp_pos_zero x = (case x of FFin False 0 e \<Rightarrow> True | _ \<Rightarrow> False)"

definition fp_total_lt :: "fp \<Rightarrow> fp \<Rightarrow> bool" where
  "fp_total_lt x y \<longleftrightarrow> fp_lt x y \<or> (y = FNaN \<and> x \<noteq> FNaN) \<or> (fp_neg_zero x \<and> fp_pos_zero y)"

fun ref_lt :: "cell \<Rightarrow> cell \<Rightarrow> bool" where
  "ref_lt (CBool a) (CBool b) = (\<not> a \<and> b)"
| "ref_lt (CInt a) (CInt b) = (a < b)"
| "ref_lt (CFloat a) (CFloat b) = fp_total_lt a b"
| "ref_lt (CStr a) (CStr b) = str_lt a b"
| "ref_lt (CBin a) (CBin b) = str_lt a b"
| "ref_lt _ _ = False"

definition ref_ccmp :: "cmp_op \<Rightarrow> cell \<Rightarrow> cell \<Rightarrow> bool" where
  [simp]: "ref_ccmp op x y = cmp_by ref_lt op x y"

fun position :: "('a \<Rightarrow> bool) \<Rightarrow> 'a list \<Rightarrow> nat option" where
  "position p [] = None"
| "position p (x # xs) = (if p x then Some 0 else map_option Suc (position p xs))"

lemma position_Some: "position p xs = Some i \<Longrightarrow> i < length xs \<and> p (xs ! i)"
  by (induction xs arbitrary: i) (auto split: if_splits)

lemma position_None: "position p xs = None \<longleftrightarrow> (\<forall>x \<in> set xs. \<not> p x)"
  by (induction xs) auto

lemma position_first: "position p xs = Some i \<Longrightarrow> j < i \<Longrightarrow> \<not> p (xs ! j)"
proof (induction xs arbitrary: i j)
  case (Cons x xs)
  then show ?case by (cases j) (auto split: if_splits)
qed simp

fun ref_cmp :: "cmp_op \<Rightarrow> datum \<Rightarrow> datum \<Rightarrow> (bool option list, arrow_err) result" where
  "ref_cmp op (DArray a) (DArray c) =
     (if array_type a = array_type c \<and> array_len a = array_len c
      then Ok (map2 (lift2 (ref_ccmp op)) (array_cells a) (array_cells c))
      else Err ''invalid comparison'')"
| "ref_cmp op (DArray a) (DScalar c) =
     (case array_cells c of
        [y] \<Rightarrow> if array_type a = array_type c
               then Ok (map (\<lambda>x. lift2 (ref_ccmp op) x y) (array_cells a))
               else Err ''invalid comparison''
      | _ \<Rightarrow> Err ''invalid scalar'')"
| "ref_cmp op (DScalar a) (DArray c) =
     (case array_cells a of
        [x] \<Rightarrow> if array_type a = array_type c
               then Ok (map (lift2 (ref_ccmp op) x) (array_cells c))
               else Err ''invalid comparison''
      | _ \<Rightarrow> Err ''invalid scalar'')"
| "ref_cmp op (DScalar a) (DScalar c) =
     (case (array_cells a, array_cells c) of
        ([x], [y]) \<Rightarrow> if array_type a = array_type c
               then Ok [lift2 (ref_ccmp op) x y]
               else Err ''invalid comparison''
      | _ \<Rightarrow> Err ''invalid scalar'')"

text \<open>Insertion sort of the slot positions, nulls first; a slot order that is not total is refused.\<close>

fun insert_by :: "('a \<Rightarrow> 'a \<Rightarrow> bool) \<Rightarrow> 'a \<Rightarrow> 'a list \<Rightarrow> 'a list" where
  "insert_by le x [] = [x]"
| "insert_by le x (y # ys) = (if le x y then x # y # ys else y # insert_by le x ys)"

lemma insert_by_set [simp]: "set (insert_by le x xs) = insert x (set xs)"
  by (induction xs) auto

lemma insert_by_distinct: "x \<notin> set xs \<Longrightarrow> distinct xs \<Longrightarrow> distinct (insert_by le x xs)"
  by (induction xs) auto

definition slot_le :: "bool \<Rightarrow> cell option \<Rightarrow> cell option \<Rightarrow> bool" where
  "slot_le desc p q =
     (case (p, q) of
        (None, _) \<Rightarrow> True
      | (Some x, None) \<Rightarrow> False
      | (Some x, Some y) \<Rightarrow> ref_ccmp (if desc then CmpGte else CmpLte) x y)"

definition ref_sort :: "Arr \<Rightarrow> SortOptions \<Rightarrow> (nat list, arrow_err) result" where
  "ref_sort a o1 =
     (let cs = array_cells a;
          le = (\<lambda>i j. slot_le (descending o1) (cs ! i) (cs ! j));
          is = foldr (insert_by le) [0..<length cs] []
      in if sorted_wrt le is then Ok is else Err ''unsortable'')"

lemma foldr_insert_by:
  "distinct xs \<Longrightarrow> set (foldr (insert_by le) xs []) = set xs \<and> distinct (foldr (insert_by le) xs [])"
  by (induction xs) (auto intro: insert_by_distinct)

lemma ref_sort_perm:
  "ref_sort a o1 = Ok is \<Longrightarrow> distinct is \<and> set is = {..<array_len a}"
  using foldr_insert_by [of "[0..<length (array_cells a)]"]
  by (auto simp: ref_sort_def Let_def array_len_def split: if_splits)

lemma ref_sort_sorted:
  assumes "ref_sort a \<lparr>descending = desc, nulls_first = True\<rparr> = Ok is" "i < j" "j < length is"
    "array_cells a ! (is ! i) = Some x"
  shows "\<exists>y. array_cells a ! (is ! j) = Some y \<and> ref_ccmp (if desc then CmpGte else CmpLte) x y"
proof -
  have "slot_le desc (array_cells a ! (is ! i)) (array_cells a ! (is ! j))"
    using assms(1,2,3)
    by (auto simp: ref_sort_def Let_def sorted_wrt_iff_nth_less split: if_splits)
  then show ?thesis using assms(4)
    by (auto simp: slot_le_def split: option.splits)
qed

definition ref_try_new :: "Schema \<Rightarrow> Arr list \<Rightarrow> (RecordBatch, arrow_err) result" where
  "ref_try_new s cs =
     (case cs of
        [] \<Rightarrow> Err ''must either specify a row count or at least one column''
      | c # _ \<Rightarrow>
          if batch_wf \<lparr>schema = s, columns = cs, num_rows = array_len c\<rparr> \<and>
             list_all2 (\<lambda>f c. f_nullable f \<or> None \<notin> set (array_cells c)) (sfields s) cs
          then Ok \<lparr>schema = s, columns = cs, num_rows = array_len c\<rparr>
          else Err ''invalid record batch'')"

fun array_append :: "Arr \<Rightarrow> Arr \<Rightarrow> Arr" where
  "array_append (BooleanArray xs) (BooleanArray ys) = BooleanArray (xs @ ys)"
| "array_append (TypedArray dt xs) a = TypedArray dt (xs @ array_cells a)"
| "array_append a _ = a"

definition ref_concat :: "Schema \<Rightarrow> RecordBatch list \<Rightarrow> (RecordBatch, arrow_err) result" where
  "ref_concat s bs =
     (case bs of
        [] \<Rightarrow> Ok \<lparr>schema = s, columns = [], num_rows = 0\<rparr>
      | b # cs \<Rightarrow>
          if list_all (\<lambda>c. schema c = s) bs
          then Ok \<lparr>schema = s,
                   columns = foldl (\<lambda>acc c. map2 array_append acc (columns c)) (columns b) cs,
                   num_rows = sum_list (map num_rows bs)\<rparr>
          else Err ''batch schemas differ'')"

definition ref_api :: arrow_api where
  "ref_api =
     \<lparr>k_index_of = (\<lambda>s n. position (\<lambda>f. f_name f = n) (sfields s)),
      k_field_with_name =
        (\<lambda>s n. map_option ((!) (sfields s)) (position (\<lambda>f. f_name f = n) (sfields s))),
      k_column_by_name =
        (\<lambda>b n. map_option ((!) (columns b)) (position (\<lambda>f. f_name f = n) (sfields (schema b)))),
      k_cmp = ref_cmp,
      k_and = (\<lambda>p q. if length p = length q then Ok (map2 (lift2 (\<and>)) p q) else Err ''length''),
      k_or = (\<lambda>p q. if length p = length q then Ok (map2 (lift2 (\<or>)) p q) else Err ''length''),
      k_bool_value = (\<lambda>p i. p ! i = Some True),
      k_not = (\<lambda>p. Ok (map (map_option Not) p)),
      k_filter =
        (\<lambda>b m. if length m = num_rows b then Ok (batch_sel (true_positions m) b) else Err ''length''),
      k_project =
        (\<lambda>b is. if list_all (\<lambda>i. i < length (columns b)) is
               then Ok (b\<lparr>schema := (schema b)\<lparr>sfields := map ((!) (sfields (schema b))) is\<rparr>,
                          columns := map ((!) (columns b)) is\<rparr>)
               else Err ''index''),
      k_sort_to_indices = ref_sort,
      k_take = (\<lambda>a is. if list_all (\<lambda>i. i < array_len a) is then Ok (array_sel is a) else Err ''index''),
      k_try_new = ref_try_new,
      k_concat_batches = ref_concat\<rparr>"

lemma ref_api_simps [simp]:
  "k_index_of ref_api s n = position (\<lambda>f. f_name f = n) (sfields s)"
  "k_field_with_name ref_api s n =
     map_option ((!) (sfields s)) (position (\<lambda>f. f_name f = n) (sfields s))"
  "k_column_by_name ref_api b n =
     map_option ((!) (columns b)) (position (\<lambda>f. f_name f = n) (sfields (schema b)))"
  "k_cmp ref_api = ref_cmp"
  "k_and ref_api p q = (if length p = length q then Ok (map2 (lift2 (\<and>)) p q) else Err ''length'')"
  "k_or ref_api p q = (if length p = length q then Ok (map2 (lift2 (\<or>)) p q) else Err ''length'')"
  "k_bool_value ref_api p i = (p ! i = Some True)"
  "k_not ref_api p = Ok (map (map_option Not) p)"
  "k_filter ref_api b m =
     (if length m = num_rows b then Ok (batch_sel (true_positions m) b) else Err ''length'')"
  "k_project ref_api b is =
     (if list_all (\<lambda>i. i < length (columns b)) is
      then Ok (b\<lparr>schema := (schema b)\<lparr>sfields := map ((!) (sfields (schema b))) is\<rparr>,
                 columns := map ((!) (columns b)) is\<rparr>)
      else Err ''index'')"
  "k_sort_to_indices ref_api = ref_sort"
  "k_take ref_api a is = (if list_all (\<lambda>i. i < array_len a) is then Ok (array_sel is a) else Err ''index'')"
  "k_try_new ref_api = ref_try_new"
  "k_concat_batches ref_api = ref_concat"
  by (simp_all add: ref_api_def)

interpretation ref: arrow_laws ref_api ref_ccmp
proof (unfold_locales, goal_cases)
  case (1 s n i)
  then show ?case by (auto dest: position_Some)
next
  case (2 s n)
  then show ?case by (auto simp: position_None)
next
  case (19 s cs b)
  then show ?case by (auto simp: ref_try_new_def split: list.splits if_splits)
next
  case (18 s cs n)
  then show ?case
    by (cases cs) (auto simp: ref_try_new_def batch_wf_def)
qed (auto simp: list_all_iff dest: ref_sort_perm ref_sort_sorted split: if_splits)

lemma fp_total_lt_nonzero:
  "x \<noteq> FNaN \<Longrightarrow> is_finite y \<Longrightarrow> fp_val y \<noteq> 0 \<Longrightarrow>
   fp_total_lt x y = fp_lt x y \<and> fp_total_lt y x = fp_lt y x"
  by (cases y) (auto simp: fp_total_lt_def fp_val_def fp_pos_zero_def fp_neg_zero_def with_sign_def
                     split: fp.splits bool.splits nat.splits)

lemma cmp_by_cong:
  "lt x y = lt' u w \<Longrightarrow> lt y x = lt' w u \<Longrightarrow> cmp_by lt op x y = cmp_by lt' op u w"
  by (cases op) auto

interpretation ref: arrow_order ref_api ref_ccmp
proof (unfold_locales, goal_cases)
  case (4 x y op)
  then show ?case using fp_total_lt_nonzero [of x y] by (auto intro!: cmp_by_cong)
qed (auto intro!: cmp_by_cong)

section \<open>A sample batch\<close>

text \<open>Two columns and three rows, with a null in each column; used to instantiate theorems.\<close>

definition sample_batch :: RecordBatch where
  "sample_batch =
     \<lparr>schema = schema_new [Field ''id'' DInt64 True, Field ''flag'' DBoolean True],
      columns = [TypedArray DInt64 [Some (CInt 7), None, Some (CInt 3)],
                 BooleanArray [Some True, Some True, None]],
      num_rows = 3\<rparr>"

lemma sample_batch_wf: "batch_wf sample_batch"
  by (simp add: batch_wf_def sample_batch_def schema_new_def)

end
