(* ===== verification/Compute.thy ===== *)
theory Compute
  imports Arrow_Model
begin

text \<open>
  The compute kernels (\<open>compute.rs\<close>): decoding of an encoded filter expression, its
  evaluation to a boolean mask over a record batch, the conversion of literals to one-element
  arrays of a column's type, and the NIFs \<open>compute_filter\<close>, \<open>compute_filter_expr\<close>,
  \<open>compute_project\<close> and \<open>compute_sort\<close>.  Error messages are the constructors of
  \<open>compute_error\<close>, one per \<open>return Err\<close> of the source; \<open>IndexPanic\<close> and
  \<open>UnreachablePanic\<close> stand for an out-of-bounds index and for \<open>unreachable!\<close>.
\<close>

section \<open>The expression tree\<close>

datatype Op = OpEq | OpNe | OpGt | OpGte | OpLt | OpLte | OpAnd | OpOr | OpNot

datatype ScalarValue =
    SBool bool
  | SInt int
  | SFloat f64
  | SUtf8 string
  | SDate32 int
  | SDate64 int
  | STimestampMicros int
  | STimestampMillis int
  | STimestampSeconds int
  | STimestampNanos int

datatype Expr =
    EField string
  | EScalar ScalarValue
  | ECall Op "Expr list"

datatype Value = ValArray Arr | ValLit ScalarValue

datatype compute_error =
    ExprNotTuple | ExprEmptyTuple | ExprTagNotAtom | FieldArity | FieldNameNotString
  | ScalarArity | CallArity | ArgsNotList | NotArity | BinaryArity Op | ExprBadTag
  | OpNotAtom | UnsupportedOp
  | ScalarBadShape | TemporalArity | TemporalUnitNotAtom | TemporalValueNotInteger
  | Date32ValueOutOfRange int | TemporalBadUnit
  | ColumnNotFound string
  | NotBooleanColumn DataType | NotBooleanScalar ScalarValue
  | MaskLengthMismatch nat nat | ArrayLengthMismatch nat nat
  | CannotCompareScalars ScalarValue ScalarValue
  | ValueOutOfRange int DataType
  | NotExactInt int DataType | NotExactFloat f64 DataType
  | Date32Overflow int | Date64NotWholeDays int | Date64OutOfRange int
  | MillisOverflowMicros int | SecondsOverflowMicros int | NanosNotWholeMicros int
  | MicrosNotWholeMillis int | MicrosNotWholeSeconds int | MicrosOverflowNanos int
  | CannotCompare ScalarValue DataType
  | PredicateNoColumns | PredicateNotBoolean
  | ArrowError arrow_err
  | IndexPanic | UnreachablePanic

section \<open>Decoding\<close>

definition decode_op :: "beam_term \<Rightarrow> (Op, compute_error) result" where
  "decode_op t =
     (case decode_atom t of
        None \<Rightarrow> Err OpNotAtom
      | Some a \<Rightarrow>
          if a = ''eq'' then Ok OpEq
          else if a = ''ne'' then Ok OpNe
          else if a = ''gt'' then Ok OpGt
          else if a = ''gte'' then Ok OpGte
          else if a = ''lt'' then Ok OpLt
          else if a = ''lte'' then Ok OpLte
          else if a = ''and'' then Ok OpAnd
          else if a = ''or'' then Ok OpOr
          else if a = ''not'' then Ok OpNot
          else Err UnsupportedOp)"

definition decode_temporal :: "beam_term list \<Rightarrow> (ScalarValue, compute_error) result" where
  "decode_temporal ts =
     (case ts of
        [u, x] \<Rightarrow>
          (case decode_atom u of
             None \<Rightarrow> Err TemporalUnitNotAtom
           | Some unit \<Rightarrow>
               (case decode_i64 x of
                  None \<Rightarrow> Err TemporalValueNotInteger
                | Some v \<Rightarrow>
                    if unit = ''date32'' then
                      (case try_from in_i32 v of
                         None \<Rightarrow> Err (Date32ValueOutOfRange v) | Some d \<Rightarrow> Ok (SDate32 d))
                    else if unit = ''date64'' then Ok (SDate64 v)
                    else if unit = ''timestamp_micros'' then Ok (STimestampMicros v)
                    else if unit = ''timestamp_millis'' then Ok (STimestampMillis v)
                    else if unit = ''timestamp_seconds'' then Ok (STimestampSeconds v)
                    else if unit = ''timestamp_nanos'' then Ok (STimestampNanos v)
                    else Err TemporalBadUnit))
      | _ \<Rightarrow> Err TemporalArity)"

definition decode_scalar :: "beam_term \<Rightarrow> (ScalarValue, compute_error) result" where
  "decode_scalar t =
     (case decode_bool t of Some b \<Rightarrow> Ok (SBool b) | None \<Rightarrow>
     (case decode_i64 t of Some i \<Rightarrow> Ok (SInt i) | None \<Rightarrow>
     (case decode_f64 t of Some f \<Rightarrow> Ok (SFloat f) | None \<Rightarrow>
     (case decode_string t of Some s \<Rightarrow> Ok (SUtf8 s) | None \<Rightarrow>
     (case get_tuple t of None \<Rightarrow> Err ScalarBadShape | Some ts \<Rightarrow> decode_temporal ts)))))"

text \<open>The arity check at the end of the \<open>:call\<close> branch.\<close>

definition check_arity :: "Op \<Rightarrow> Expr list \<Rightarrow> (Expr, compute_error) result" where
  "check_arity op args =
     (case op of
        OpNot \<Rightarrow> if length args \<noteq> 1 then Err NotArity else Ok (ECall op args)
      | _ \<Rightarrow> if length args \<noteq> 2 then Err (BinaryArity op) else Ok (ECall op args))"

function decode_expr :: "beam_term \<Rightarrow> (Expr, compute_error) result" where
  "decode_expr t =
     (case get_tuple t of
        None \<Rightarrow> Err ExprNotTuple
      | Some [] \<Rightarrow> Err ExprEmptyTuple
      | Some (tag_term # rest) \<Rightarrow>
          (case decode_atom tag_term of
             None \<Rightarrow> Err ExprTagNotAtom
           | Some tag \<Rightarrow>
               if tag = ''field'' then
                 (case rest of
                    [x] \<Rightarrow> (case decode_string x of
                              None \<Rightarrow> Err FieldNameNotString | Some n \<Rightarrow> Ok (EField n))
                  | _ \<Rightarrow> Err FieldArity)
               else if tag = ''scalar'' then
                 (case rest of
                    [x] \<Rightarrow> (case decode_scalar x of Err e \<Rightarrow> Err e | Ok s \<Rightarrow> Ok (EScalar s))
                  | _ \<Rightarrow> Err ScalarArity)
               else if tag = ''call'' then
                 (case rest of
                    [x, y] \<Rightarrow>
                      (case decode_op x of
                         Err e \<Rightarrow> Err e
                       | Ok op \<Rightarrow>
                           (case decode_list y of
                              None \<Rightarrow> Err ArgsNotList
                            | Some xs \<Rightarrow>
                                (case collect decode_expr xs of
                                   Err e \<Rightarrow> Err e
                                 | Ok args \<Rightarrow> check_arity op args)))
                  | _ \<Rightarrow> Err CallArity)
               else Err ExprBadTag))"
  by pat_completeness auto
termination
  by (relation "measure size") (auto dest: elem_size)

declare decode_expr.simps [simp del]

section \<open>Literals as one-element arrays\<close>

definition micros_to_unit :: "int \<Rightarrow> TimeUnit \<Rightarrow> (int, compute_error) result" where
  "micros_to_unit micros unit =
     (case unit of
        Microsecond \<Rightarrow> Ok micros
      | Millisecond \<Rightarrow>
          if micros smod 1000 \<noteq> 0 then Err (MicrosNotWholeMillis micros)
          else Ok (micros sdiv 1000)
      | Second \<Rightarrow>
          if micros smod 1000000 \<noteq> 0 then Err (MicrosNotWholeSeconds micros)
          else Ok (micros sdiv 1000000)
      | Nanosecond \<Rightarrow> ok_or (MicrosOverflowNanos micros) (checked_mul_i64 micros 1000))"

definition timestamp_array_from_ticks ::
  "int \<Rightarrow> TimeUnit \<Rightarrow> string option \<Rightarrow> (Arr, compute_error) result" where
  "timestamp_array_from_ticks ticks unit tz =
     (case unit of
        Second \<Rightarrow> Ok (TypedArray (DTimestamp Second tz) [Some (CInt ticks)])
      | Millisecond \<Rightarrow> Ok (TypedArray (DTimestamp Millisecond tz) [Some (CInt ticks)])
      | Microsecond \<Rightarrow> Ok (TypedArray (DTimestamp Microsecond tz) [Some (CInt ticks)])
      | Nanosecond \<Rightarrow> Ok (TypedArray (DTimestamp Nanosecond tz) [Some (CInt ticks)]))"

definition finish_timestamp ::
  "int \<Rightarrow> TimeUnit \<Rightarrow> string option \<Rightarrow> (Arr, compute_error) result" where
  "finish_timestamp micros unit tz =
     (case micros_to_unit micros unit of
        Err e \<Rightarrow> Err e
      | Ok ticks \<Rightarrow> timestamp_array_from_ticks ticks unit tz)"

definition make_timestamp_scalar ::
  "ScalarValue \<Rightarrow> int \<Rightarrow> TimeUnit \<Rightarrow> string option \<Rightarrow> (Arr, compute_error) result" where
  "make_timestamp_scalar original raw unit tz =
     (case original of
        STimestampMicros v \<Rightarrow> finish_timestamp v unit tz
      | STimestampMillis v \<Rightarrow>
          (case checked_mul_i64 v 1000 of
             None \<Rightarrow> Err (MillisOverflowMicros v) | Some m \<Rightarrow> finish_timestamp m unit tz)
      | STimestampSeconds v \<Rightarrow>
          (case checked_mul_i64 v 1000000 of
             None \<Rightarrow> Err (SecondsOverflowMicros v) | Some m \<Rightarrow> finish_timestamp m unit tz)
      | STimestampNanos v \<Rightarrow>
          if v smod 1000 \<noteq> 0 then Err (NanosNotWholeMicros v)
          else finish_timestamp (v sdiv 1000) unit tz
      | SInt v \<Rightarrow> timestamp_array_from_ticks v unit tz
      | _ \<Rightarrow> finish_timestamp raw unit tz)"

text \<open>One integer slot of type \<open>dt\<close>, if the value fits the type's range.\<close>

definition int_scalar :: "(int \<Rightarrow> bool) \<Rightarrow> DataType \<Rightarrow> int \<Rightarrow> (Arr, compute_error) result" where
  "int_scalar rng dt v =
     (case try_from rng v of
        None \<Rightarrow> Err (ValueOutOfRange v dt)
      | Some i \<Rightarrow> Ok (TypedArray dt [Some (CInt i)]))"

definition make_int_scalar :: "int \<Rightarrow> DataType \<Rightarrow> (Arr, compute_error) result" where
  "make_int_scalar v dt =
     (case dt of
        DInt64 \<Rightarrow> Ok (TypedArray DInt64 [Some (CInt v)])
      | DInt32 \<Rightarrow> int_scalar in_i32 DInt32 v
      | DInt16 \<Rightarrow> int_scalar in_i16 DInt16 v
      | DInt8 \<Rightarrow> int_scalar in_i8 DInt8 v
      | DUInt64 \<Rightarrow>
          if v < 0 then Err (ValueOutOfRange v DUInt64)
          else Ok (TypedArray DUInt64 [Some (CInt v)])
      | DUInt32 \<Rightarrow> int_scalar in_u32 DUInt32 v
      | DUInt16 \<Rightarrow> int_scalar in_u16 DUInt16 v
      | DUInt8 \<Rightarrow> int_scalar in_u8 DUInt8 v
      | DFloat64 \<Rightarrow>
          if fp_as_i128 (i64_as_f64 v) \<noteq> v then Err (NotExactInt v DFloat64)
          else Ok (TypedArray DFloat64 [Some (CFloat (i64_as_f64 v))])
      | DFloat32 \<Rightarrow>
          if fp_as_i64 (i64_as_f32 v) \<noteq> v then Err (NotExactInt v DFloat32)
          else Ok (TypedArray DFloat32 [Some (CFloat (i64_as_f32 v))])
      | DDate32 \<Rightarrow> int_scalar in_i32 DDate32 v
      | DDate64 \<Rightarrow> Ok (TypedArray DDate64 [Some (CInt v)])
      | DTimestamp unit tz \<Rightarrow> make_timestamp_scalar (SInt v) v unit tz
      | _ \<Rightarrow> Err (CannotCompare (SInt v) dt))"

definition make_scalar_array :: "ScalarValue \<Rightarrow> DataType \<Rightarrow> (Arr, compute_error) result" where
  "make_scalar_array value dt =
     (case value of
        SInt v \<Rightarrow> make_int_scalar v dt
      | SFloat v \<Rightarrow>
          (case dt of
             DFloat64 \<Rightarrow> Ok (TypedArray DFloat64 [Some (CFloat v)])
           | DFloat32 \<Rightarrow>
               if \<not> fp_eq (f32_as_f64 (f64_as_f32 v)) v then Err (NotExactFloat v DFloat32)
               else Ok (TypedArray DFloat32 [Some (CFloat (f64_as_f32 v))])
           | _ \<Rightarrow> Err (CannotCompare value dt))
      | SUtf8 s \<Rightarrow>
          (case dt of
             DUtf8 \<Rightarrow> Ok (TypedArray DUtf8 [Some (CStr s)])
           | DLargeUtf8 \<Rightarrow> Ok (TypedArray DLargeUtf8 [Some (CStr s)])
           | _ \<Rightarrow> Err (CannotCompare value dt))
      | SBool b \<Rightarrow>
          (case dt of
             DBoolean \<Rightarrow> Ok (BooleanArray [Some b])
           | _ \<Rightarrow> Err (CannotCompare value dt))
      | SDate32 d \<Rightarrow>
          (case dt of
             DDate32 \<Rightarrow> Ok (TypedArray DDate32 [Some (CInt d)])
           | DDate64 \<Rightarrow>
               (case checked_mul_i64 d 86400000 of
                  None \<Rightarrow> Err (Date32Overflow d)
                | Some millis \<Rightarrow> Ok (TypedArray DDate64 [Some (CInt millis)]))
           | _ \<Rightarrow> Err (CannotCompare value dt))
      | SDate64 d \<Rightarrow>
          (case dt of
             DDate64 \<Rightarrow> Ok (TypedArray DDate64 [Some (CInt d)])
           | DDate32 \<Rightarrow>
               if d smod 86400000 \<noteq> 0 then Err (Date64NotWholeDays d)
               else (case try_from in_i32 (d sdiv 86400000) of
                       None \<Rightarrow> Err (Date64OutOfRange d)
                     | Some i \<Rightarrow> Ok (TypedArray DDate32 [Some (CInt i)]))
           | _ \<Rightarrow> Err (CannotCompare value dt))
      | STimestampMicros v \<Rightarrow>
          (case dt of DTimestamp unit tz \<Rightarrow> make_timestamp_scalar value v unit tz
           | _ \<Rightarrow> Err (CannotCompare value dt))
      | STimestampMillis v \<Rightarrow>
          (case dt of DTimestamp unit tz \<Rightarrow> make_timestamp_scalar value v unit tz
           | _ \<Rightarrow> Err (CannotCompare value dt))
      | STimestampSeconds v \<Rightarrow>
          (case dt of DTimestamp unit tz \<Rightarrow> make_timestamp_scalar value v unit tz
           | _ \<Rightarrow> Err (CannotCompare value dt))
      | STimestampNanos v \<Rightarrow>
          (case dt of DTimestamp unit tz \<Rightarrow> make_timestamp_scalar value v unit tz
           | _ \<Rightarrow> Err (CannotCompare value dt)))"

section \<open>Evaluation\<close>

text \<open>
  The type two literals are compared in.  The arms of the source are tried in order; the
  timestamp arms look at either side and prefer microseconds, then milliseconds, seconds and
  nanoseconds.
\<close>

fun is_ts_micros :: "ScalarValue \<Rightarrow> bool" where
  "is_ts_micros (STimestampMicros _) = True" | "is_ts_micros _ = False"

fun is_ts_millis :: "ScalarValue \<Rightarrow> bool" where
  "is_ts_millis (STimestampMillis _) = True" | "is_ts_millis _ = False"

fun is_ts_seconds :: "ScalarValue \<Rightarrow> bool" where
  "is_ts_seconds (STimestampSeconds _) = True" | "is_ts_seconds _ = False"

fun is_ts_nanos :: "ScalarValue \<Rightarrow> bool" where
  "is_ts_nanos (STimestampNanos _) = True" | "is_ts_nanos _ = False"

definition infer_timestamp_type ::
  "ScalarValue \<Rightarrow> ScalarValue \<Rightarrow> (DataType, compute_error) result" where
  "infer_timestamp_type l r =
     (if is_ts_micros l \<or> is_ts_micros r then Ok (DTimestamp Microsecond None)
      else if is_ts_millis l \<or> is_ts_millis r then Ok (DTimestamp Millisecond None)
      else if is_ts_seconds l \<or> is_ts_seconds r then Ok (DTimestamp Second None)
      else if is_ts_nanos l \<or> is_ts_nanos r then Ok (DTimestamp Nanosecond None)
      else Err (CannotCompareScalars l r))"

definition infer_lit_compare_type ::
  "ScalarValue \<Rightarrow> ScalarValue \<Rightarrow> (DataType, compute_error) result" where
  "infer_lit_compare_type l r =
     (case (l, r) of
        (SBool _, SBool _) \<Rightarrow> Ok DBoolean
      | (SInt _, SInt _) \<Rightarrow> Ok DInt64
      | (SFloat _, SFloat _) \<Rightarrow> Ok DFloat64
      | (SInt _, SFloat _) \<Rightarrow> Ok DFloat64
      | (SFloat _, SInt _) \<Rightarrow> Ok DFloat64
      | (SUtf8 _, SUtf8 _) \<Rightarrow> Ok DUtf8
      | (SDate32 _, SDate32 _) \<Rightarrow> Ok DDate32
      | (SDate64 _, SDate64 _) \<Rightarrow> Ok DDate64
      | (SDate32 _, SDate64 _) \<Rightarrow> Ok DDate64
      | (SDate64 _, SDate32 _) \<Rightarrow> Ok DDate64
      | _ \<Rightarrow> infer_timestamp_type l r)"

fun cmp_of_op :: "Op \<Rightarrow> cmp_op option" where
  "cmp_of_op OpEq = Some CmpEq"
| "cmp_of_op OpNe = Some CmpNe"
| "cmp_of_op OpGt = Some CmpGt"
| "cmp_of_op OpGte = Some CmpGte"
| "cmp_of_op OpLt = Some CmpLt"
| "cmp_of_op OpLte = Some CmpLte"
| "cmp_of_op _ = None"

text \<open>The six-way \<open>match op\<close> that picks a comparison kernel.\<close>

definition call_cmp ::
  "arrow_api \<Rightarrow> Op \<Rightarrow> datum \<Rightarrow> datum \<Rightarrow> (bool option list, compute_error) result" where
  "call_cmp K op l r =
     (case cmp_of_op op of
        None \<Rightarrow> Err UnreachablePanic
      | Some c \<Rightarrow> map_err ArrowError (k_cmp K c l r))"

definition apply_cmp_dyn ::
  "arrow_api \<Rightarrow> Arr \<Rightarrow> Arr \<Rightarrow> Op \<Rightarrow> (bool option list, compute_error) result" where
  "apply_cmp_dyn K l r op = call_cmp K op (DArray l) (DArray r)"

fun eval_cmp ::
  "arrow_api \<Rightarrow> Value \<Rightarrow> Value \<Rightarrow> Op \<Rightarrow> nat \<Rightarrow> (bool option list, compute_error) result" where
  "eval_cmp K (ValArray l) (ValArray r) op len =
     (if array_len l \<noteq> array_len r then Err (ArrayLengthMismatch (array_len l) (array_len r))
      else apply_cmp_dyn K l r op)"
| "eval_cmp K (ValArray l) (ValLit s) op len =
     (case make_scalar_array s (array_type l) of
        Err e \<Rightarrow> Err e
      | Ok scalar_arr \<Rightarrow> call_cmp K op (DArray l) (DScalar scalar_arr))"
| "eval_cmp K (ValLit s) (ValArray r) op len =
     (case make_scalar_array s (array_type r) of
        Err e \<Rightarrow> Err e
      | Ok scalar_arr \<Rightarrow> call_cmp K op (DScalar scalar_arr) (DArray r))"
| "eval_cmp K (ValLit l) (ValLit r) op len =
     (case infer_lit_compare_type l r of
        Err e \<Rightarrow> Err e
      | Ok dt \<Rightarrow>
          (case make_scalar_array l dt of
             Err e \<Rightarrow> Err e
           | Ok la \<Rightarrow>
               (case make_scalar_array r dt of
                  Err e \<Rightarrow> Err e
                | Ok ra \<Rightarrow>
                    (case call_cmp K op (DScalar la) (DScalar ra) of
                       Err e \<Rightarrow> Err e
                     | Ok one \<Rightarrow>
                         if one = [] then Err IndexPanic
                         else Ok (replicate len (Some (k_bool_value K one 0)))))))"

fun value_as_bool :: "Value \<Rightarrow> nat \<Rightarrow> (bool option list, compute_error) result" where
  "value_as_bool (ValArray arr) len =
     (case downcast_boolean arr of
        None \<Rightarrow> Err (NotBooleanColumn (array_type arr))
      | Some b \<Rightarrow> if length b \<noteq> len then Err (MaskLengthMismatch (length b) len) else Ok b)"
| "value_as_bool (ValLit (SBool b)) len = Ok (replicate len (Some b))"
| "value_as_bool (ValLit other) len = Err (NotBooleanScalar other)"

text \<open>\<open>value_as_bool(eval_value(..)?, len)?\<close>: the operand of a boolean operator.\<close>

definition as_bool_operand ::
  "(Value, compute_error) result \<Rightarrow> nat \<Rightarrow> (bool option list, compute_error) result" where
  "as_bool_operand r len = (case r of Err e \<Rightarrow> Err e | Ok v \<Rightarrow> value_as_bool v len)"

definition mask_value :: "(bool option list, compute_error) result \<Rightarrow> (Value, compute_error) result" where
  "mask_value r = (case r of Err e \<Rightarrow> Err e | Ok m \<Rightarrow> Ok (ValArray (BooleanArray m)))"

text \<open>\<open>args[0]\<close> and \<open>args[1]\<close> panic when the argument list is too short.\<close>

fun eval_value :: "arrow_api \<Rightarrow> RecordBatch \<Rightarrow> Expr \<Rightarrow> (Value, compute_error) result" where
  "eval_value K b (EField name) =
     (case k_column_by_name K b name of
        None \<Rightarrow> Err (ColumnNotFound name)
      | Some col \<Rightarrow> Ok (ValArray col))"
| "eval_value K b (EScalar s) = Ok (ValLit s)"
| "eval_value K b (ECall op []) = Err IndexPanic"
| "eval_value K b (ECall op [x]) =
     (if op = OpNot then
        (case as_bool_operand (eval_value K b x) (num_rows b) of
           Err e \<Rightarrow> Err e
         | Ok inner \<Rightarrow> mask_value (map_err ArrowError (k_not K inner)))
      else if op = OpAnd \<or> op = OpOr then
        (case as_bool_operand (eval_value K b x) (num_rows b) of
           Err e \<Rightarrow> Err e
         | Ok _ \<Rightarrow> Err IndexPanic)
      else
        (case eval_value K b x of Err e \<Rightarrow> Err e | Ok _ \<Rightarrow> Err IndexPanic))"
| "eval_value K b (ECall op (x # y # rest)) =
     (if op = OpNot then
        (case as_bool_operand (eval_value K b x) (num_rows b) of
           Err e \<Rightarrow> Err e
         | Ok inner \<Rightarrow> mask_value (map_err ArrowError (k_not K inner)))
      else if op = OpAnd \<or> op = OpOr then
        (case as_bool_operand (eval_value K b x) (num_rows b) of
           Err e \<Rightarrow> Err e
         | Ok left \<Rightarrow>
             (case as_bool_operand (eval_value K b y) (num_rows b) of
                Err e \<Rightarrow> Err e
              | Ok right \<Rightarrow>
                  mask_value (map_err ArrowError
                    (if op = OpAnd then k_and K left right else k_or K left right))))
      else
        (case eval_value K b x of
           Err e \<Rightarrow> Err e
         | Ok left \<Rightarrow>
             (case eval_value K b y of
                Err e \<Rightarrow> Err e
              | Ok right \<Rightarrow> mask_value (eval_cmp K left right op (num_rows b)))))"

definition eval_to_bool ::
  "arrow_api \<Rightarrow> RecordBatch \<Rightarrow> Expr \<Rightarrow> (bool option list, compute_error) result" where
  "eval_to_bool K b e = as_bool_operand (eval_value K b e) (num_rows b)"

section \<open>Native functions\<close>

definition batch_reply ::
  "(RecordBatch, arrow_err) result \<Rightarrow> (RecordBatch, compute_error) nif_term" where
  "batch_reply r = (case r of Ok b \<Rightarrow> ok_encode b | Err e \<Rightarrow> err_encode (ArrowError e))"

definition compute_filter ::
  "arrow_api \<Rightarrow> RecordBatch \<Rightarrow> RecordBatch \<Rightarrow> (RecordBatch, compute_error) nif_term" where
  "compute_filter K b predicate =
     (case columns predicate of
        [] \<Rightarrow> err_encode PredicateNoColumns
      | bool_col # _ \<Rightarrow>
          (case downcast_boolean bool_col of
             None \<Rightarrow> err_encode PredicateNotBoolean
           | Some bool_array \<Rightarrow> batch_reply (k_filter K b bool_array)))"

definition compute_filter_expr ::
  "arrow_api \<Rightarrow> RecordBatch \<Rightarrow> beam_term \<Rightarrow> (RecordBatch, compute_error) nif_term" where
  "compute_filter_expr K b encoded =
     (case decode_expr encoded of
        Err msg \<Rightarrow> err_encode msg
      | Ok expr \<Rightarrow>
          (case eval_to_bool K b expr of
             Err msg \<Rightarrow> err_encode msg
           | Ok m \<Rightarrow> batch_reply (k_filter K b m)))"

definition compute_project ::
  "arrow_api \<Rightarrow> RecordBatch \<Rightarrow> string list \<Rightarrow> (RecordBatch, compute_error) nif_term" where
  "compute_project K b column_names =
     (case collect (\<lambda>name. ok_or (ColumnNotFound name) (k_index_of K (schema b) name)) column_names of
        Err e \<Rightarrow> err_encode e
      | Ok indices \<Rightarrow> batch_reply (k_project K b indices))"

definition compute_sort ::
  "arrow_api \<Rightarrow> RecordBatch \<Rightarrow> string \<Rightarrow> bool \<Rightarrow> (RecordBatch, compute_error) nif_term" where
  "compute_sort K b column_name ascending =
     (case k_index_of K (schema b) column_name of
        None \<Rightarrow> err_encode (ColumnNotFound column_name)
      | Some col_idx \<Rightarrow>
          if length (columns b) \<le> col_idx then err_encode IndexPanic
          else
            (case k_sort_to_indices K (columns b ! col_idx)
                    \<lparr>descending = \<not> ascending, nulls_first = True\<rparr> of
               Err e \<Rightarrow> err_encode (ArrowError e)
             | Ok indices \<Rightarrow>
                 (case collect (\<lambda>col. map_err ArrowError (k_take K col indices)) (columns b) of
                    Err e \<Rightarrow> err_encode e
                  | Ok new_columns \<Rightarrow> batch_reply (k_try_new K (schema b) new_columns))))"

end
