(* ===== verification/Compute_Laws.thy ===== *)
theory Compute_Laws
  imports Compute
begin

text \<open>
  Correctness of \<open>compute.rs\<close>: the term encoding of expressions is decoded exactly, literals
  are converted without changing the value they denote, and a filter expression keeps exactly
  the rows on which its row-by-row meaning is true.
\<close>

section \<open>The term encoding of expressions\<close>

fun encode_op :: "Op \<Rightarrow> beam_term" where
  "encode_op OpEq = TAtom ''eq''"
| "encode_op OpNe = TAtom ''ne''"
| "encode_op OpGt = TAtom ''gt''"
| "encode_op OpGte = TAtom ''gte''"
| "encode_op OpLt = TAtom ''lt''"
| "encode_op OpLte = TAtom ''lte''"
| "encode_op OpAnd = TAtom ''and''"
| "encode_op OpOr = TAtom ''or''"
| "encode_op OpNot = TAtom ''not''"

fun encode_scalar :: "ScalarValue \<Rightarrow> beam_term" where
  "encode_scalar (SBool b) = TAtom (if b then ''true'' else ''false'')"
| "encode_scalar (SInt i) = TInt i"
| "encode_scalar (SFloat f) = TFloat f"
| "encode_scalar (SUtf8 s) = TBinary s"
| "encode_scalar (SDate32 v) = TTuple [TAtom ''date32'', TInt v]"
| "encode_scalar (SDate64 v) = TTuple [TAtom ''date64'', TInt v]"
| "encode_scalar (STimestampMicros v) = TTuple [TAtom ''timestamp_micros'', TInt v]"
| "encode_scalar (STimestampMillis v) = TTuple [TAtom ''timestamp_millis'', TInt v]"
| "encode_scalar (STimestampSeconds v) = TTuple [TAtom ''timestamp_seconds'', TInt v]"
| "encode_scalar (STimestampNanos v) = TTuple [TAtom ''timestamp_nanos'', TInt v]"

fun encode_expr :: "Expr \<Rightarrow> beam_term" where
  "encode_expr (EField n) = TTuple [TAtom ''field'', TBinary n]"
| "encode_expr (EScalar s) = TTuple [TAtom ''scalar'', encode_scalar s]"
| "encode_expr (ECall op args) = TTuple [TAtom ''call'', encode_op op, TList (map encode_expr args)]"

fun scalar_wf :: "ScalarValue \<Rightarrow> bool" where
  "scalar_wf (SBool _) = True"
| "scalar_wf (SInt v) = in_i64 v"
| "scalar_wf (SFloat _) = True"
| "scalar_wf (SUtf8 s) = utf8_valid s"
| "scalar_wf (SDate32 v) = in_i32 v"
| "scalar_wf (SDate64 v) = in_i64 v"
| "scalar_wf (STimestampMicros v) = in_i64 v"
| "scalar_wf (STimestampMillis v) = in_i64 v"
| "scalar_wf (STimestampSeconds v) = in_i64 v"
| "scalar_wf (STimestampNanos v) = in_i64 v"

definition arity :: "Op \<Rightarrow> nat" where
  "arity op = (if op = OpNot then 1 else 2)"

fun expr_wf :: "Expr \<Rightarrow> bool" where
  "expr_wf (EField n) = utf8_valid n"
| "expr_wf (EScalar s) = scalar_wf s"
| "expr_wf (ECall op args) = (length args = arity op \<and> list_all expr_wf args)"

lemma in_i32_i64: "in_i32 v \<Longrightarrow> in_i64 v"
  by (simp add: in_i32_def in_i64_def)

lemma decode_op_iff: "decode_op t = Ok op \<longleftrightarrow> t = encode_op op"
  by (cases t; cases op) (auto simp: decode_op_def)

lemma check_arity_iff: "check_arity op args = Ok e \<longleftrightarrow> length args = arity op \<and> e = ECall op args"
  by (cases op) (auto simp: check_arity_def arity_def)

lemma decode_temporal_Ok:
  "decode_temporal ts = Ok s \<Longrightarrow> scalar_wf s \<and> encode_scalar s = TTuple ts"
  by (auto simp: decode_temporal_def in_i32_i64 split: list.splits option.splits if_splits)

lemma decode_scalar_Ok: "decode_scalar t = Ok s \<Longrightarrow> scalar_wf s \<and> encode_scalar s = t"
  by (cases t) (auto simp: decode_scalar_def split: option.splits if_splits dest: decode_temporal_Ok)

lemma decode_scalar_encode: "scalar_wf s \<Longrightarrow> decode_scalar (encode_scalar s) = Ok s"
  by (cases s) (auto simp: decode_scalar_def decode_temporal_def try_from_def in_i32_i64)

lemma decode_expr_encode: "expr_wf e \<Longrightarrow> decode_expr (encode_expr e) = Ok e"
proof (induction e rule: expr_wf.induct)
  case (1 n)
  then show ?case by (simp add: decode_expr.simps)
next
  case (2 s)
  then show ?case by (simp add: decode_expr.simps decode_scalar_encode)
next
  case (3 op args)
  then have "collect decode_expr (map encode_expr args) = Ok args"
    by (auto simp: collect_eq_Ok list_all2_map1 list_all_iff intro: list.rel_refl_strong)
  moreover have "check_arity op args = Ok (ECall op args)" using 3 by (simp add: check_arity_iff)
  moreover have "decode_op (encode_op op) = Ok op" by (simp add: decode_op_iff)
  ultimately show ?case by (subst decode_expr.simps) simp
qed

lemma decode_expr_sound: "decode_expr t = Ok e \<Longrightarrow> expr_wf e \<and> encode_expr e = t"
proof (induction t arbitrary: e rule: decode_expr.induct)
  case (1 t)
  obtain tag rest where t: "t = TTuple (TAtom tag # rest)"
    using "1.prems" by (subst (asm) decode_expr.simps)
      (auto split: option.splits list.splits)
  consider (field) x where "tag = ''field''" "rest = [x]" |
    (scalar) x where "tag = ''scalar''" "rest = [x]" |
    (call) x y where "tag = ''call''" "rest = [x, y]"
    using "1.prems" unfolding t
    by (subst (asm) decode_expr.simps) (auto split: if_splits list.splits)
  then show ?case
  proof cases
    case field
    then show ?thesis using "1.prems" unfolding t
      by (subst (asm) decode_expr.simps) (auto split: option.splits if_splits)
  next
    case scalar
    then show ?thesis using "1.prems" unfolding t
      by (subst (asm) decode_expr.simps) (auto dest: decode_scalar_Ok split: sum.splits)
  next
    case call
    obtain op xs args where op: "x = encode_op op" "y = TList xs" and c: "collect decode_expr xs = Ok args"
      and e: "length args = arity op" "e = ECall op args"
      using "1.prems" call unfolding t
      by (subst (asm) decode_expr.simps)
         (auto simp: decode_op_iff check_arity_iff split: sum.splits option.splits)
    have "expr_wf a \<and> encode_expr a = u" if "u \<in> set xs" "decode_expr u = Ok a" for u a
      by (rule "1.IH" [where x = u]) (use that call op t in \<open>auto simp: decode_op_iff\<close>)
    then have "list_all2 (\<lambda>u a. expr_wf a \<and> encode_expr a = u) xs args"
      using c unfolding collect_eq_Ok by (auto elim!: list.rel_mono_strong)
    then have "list_all expr_wf args \<and> map encode_expr args = xs"
      by (induction rule: list_all2_induct) auto
    then show ?thesis using call op e t by simp
  qed
qed

section \<open>Literals keep their value\<close>

text \<open>The number of nanoseconds of one tick, and the instant a temporal literal denotes.\<close>

fun unit_ns :: "TimeUnit \<Rightarrow> int" where
  "unit_ns Second = 1000000000"
| "unit_ns Millisecond = 1000000"
| "unit_ns Microsecond = 1000"
| "unit_ns Nanosecond = 1"

fun timestamp_ns :: "ScalarValue \<Rightarrow> int option" where
  "timestamp_ns (STimestampSeconds v) = Some (v * 1000000000)"
| "timestamp_ns (STimestampMillis v) = Some (v * 1000000)"
| "timestamp_ns (STimestampMicros v) = Some (v * 1000)"
| "timestamp_ns (STimestampNanos v) = Some v"
| "timestamp_ns _ = None"

lemma micros_to_unit_exact:
  assumes "micros_to_unit m u = Ok t"
  shows "t * unit_ns u = m * 1000"
proof (cases u)
  case Second
  then have "1000000 dvd m" and t: "t = m sdiv 1000000"
    using assms by (auto simp: micros_to_unit_def smod_eq_0_iff split: if_splits)
  from sdiv_exact [OF this(1)] show ?thesis by (simp add: Second t)
next
  case Millisecond
  then have "1000 dvd m" and t: "t = m sdiv 1000"
    using assms by (auto simp: micros_to_unit_def smod_eq_0_iff split: if_splits)
  from sdiv_exact [OF this(1)] show ?thesis by (simp add: Millisecond t)
qed (use assms in \<open>auto simp: micros_to_unit_def\<close>)

lemma micros_to_unit_range: "in_i64 m \<Longrightarrow> micros_to_unit m u = Ok t \<Longrightarrow> in_i64 t"
  by (cases u) (auto simp: micros_to_unit_def smod_eq_0_iff sdiv_in_i64 split: if_splits)

lemma micros_to_unit_complete:
  assumes "in_i64 t" "t * unit_ns u = m * 1000"
  shows "micros_to_unit m u = Ok t"
proof (cases u)
  case Second
  with assms have m: "m = t * 1000000" by simp
  then have "1000000 dvd m" by simp
  from sdiv_exact [OF this] m this show ?thesis
    by (simp add: micros_to_unit_def Second smod_eq_0_iff)
next
  case Millisecond
  with assms have m: "m = t * 1000" by simp
  then have "1000 dvd m" by simp
  from sdiv_exact [OF this] m this show ?thesis
    by (simp add: micros_to_unit_def Millisecond smod_eq_0_iff)
qed (use assms in \<open>auto simp: micros_to_unit_def checked_mul_i64_def\<close>)

lemma timestamp_array_eq [simp]:
  "timestamp_array_from_ticks t u tz = Ok (TypedArray (DTimestamp u tz) [Some (CInt t)])"
  by (cases u) (simp_all add: timestamp_array_from_ticks_def)

lemma finish_timestamp_Ok [simp]:
  "finish_timestamp m u tz = Ok a \<longleftrightarrow>
     (\<exists>t. micros_to_unit m u = Ok t \<and> a = TypedArray (DTimestamp u tz) [Some (CInt t)])"
  by (auto simp: finish_timestamp_def split: sum.splits)

lemma make_timestamp_exact:
  assumes "make_timestamp_scalar s raw u tz = Ok a" "timestamp_ns s = Some ns"
  shows "\<exists>t. a = TypedArray (DTimestamp u tz) [Some (CInt t)] \<and> t * unit_ns u = ns"
proof -
  have *: "1000 dvd v \<Longrightarrow> v sdiv 1000 * 1000 = v" for v :: int by (rule sdiv_exact)
  from assms show ?thesis
    by (cases s) (auto simp: make_timestamp_scalar_def smod_eq_0_iff * dest!: micros_to_unit_exact
                       split: option.splits if_splits)
qed

text \<open>What it means for a slot of type \<open>dt\<close> to hold the value of a literal.\<close>

fun denotes :: "ScalarValue \<Rightarrow> DataType \<Rightarrow> cell \<Rightarrow> bool" where
  "denotes (SBool b) dt c = (c = CBool b)"
| "denotes (SUtf8 s) dt c = (c = CStr s)"
| "denotes (SFloat v) dt c = (\<exists>f. c = CFloat f \<and> (dt = DFloat64 \<and> f = v \<or> dt = DFloat32 \<and> fp_eq f v))"
| "denotes (SInt v) dt c =
     (c = CInt v \<or> (\<exists>f. c = CFloat f \<and> (dt = DFloat64 \<or> dt = DFloat32) \<and>
                       is_finite f \<and> fp_val f = of_int v))"
| "denotes (SDate32 v) dt c =
     (dt = DDate32 \<and> c = CInt v \<or> dt = DDate64 \<and> c = CInt (v * 86400000))"
| "denotes (SDate64 v) dt c =
     (dt = DDate64 \<and> c = CInt v \<or> dt = DDate32 \<and> (\<exists>d. c = CInt d \<and> d * 86400000 = v))"
| "denotes s dt c =
     (\<exists>u tz t ns. dt = DTimestamp u tz \<and> c = CInt t \<and> timestamp_ns s = Some ns \<and> t * unit_ns u = ns)"

lemma i64_as_f64_exact:
  assumes "in_i64 v"
  shows "is_finite (i64_as_f64 v) \<and>
    (fp_as_i128 (i64_as_f64 v) = v \<longleftrightarrow> fp_val (i64_as_f64 v) = of_int v)"
proof -
  obtain q x where f: "i64_as_f64 v = FFin (v < 0) q (int x)" and le: "q * 2 ^ x \<le> 2 ^ 64"
    using i64_as_f64_int [OF assms] by metis
  define w where "w = with_sign (v < 0) (int (q * 2 ^ x))"
  have "int (q * 2 ^ x) \<le> int (2 ^ 64)" using le by (simp only: of_nat_le_iff)
  then have "\<bar>w\<bar> \<le> 2 ^ 64" by (simp add: w_def with_sign_def)
  then have "fp_as_i128 (i64_as_f64 v) = w"
    by (simp add: f fp_as_i128_def trunc_mag_int w_def [symmetric] del: of_nat_mult)
  moreover have "fp_val (i64_as_f64 v) = of_int w" by (simp only: f fp_val_int w_def)
  ultimately show ?thesis by (simp add: f)
qed

lemma i64_min_as_f32: "i64_as_f32 (- 9223372036854775808) = FFin True 8388608 40"
  by (simp add: i64_as_f32_def round_f32_def round_fp_def Let_def compute_floorlog rne_def)

lemma i64_max_as_f32: "i64_as_f32 9223372036854775807 = FFin False 16777216 39"
  by (simp add: i64_as_f32_def round_f32_def round_fp_def Let_def compute_floorlog rne_def)

lemma i64_as_f32_exact:
  assumes v: "in_i64 v" "v \<noteq> 9223372036854775807"
  shows "is_finite (i64_as_f32 v) \<and>
    (fp_as_i64 (i64_as_f32 v) = v \<longleftrightarrow> fp_val (i64_as_f32 v) = of_int v)"
proof (cases "v = - 9223372036854775808")
  case True
  then show ?thesis by (simp add: i64_min_as_f32 fp_as_i64_def trunc_mag_def with_sign_def fp_val_def)
next
  case False
  obtain q x where f: "i64_as_f32 v = FFin (v < 0) q (int x)"
    using i64_as_f32_int [OF v(1)] by metis
  define w where "w = with_sign (v < 0) (int (q * 2 ^ x))"
  have "fp_as_i64 (i64_as_f32 v) = max (- 9223372036854775808) (min 9223372036854775807 w)"
    by (simp add: f fp_as_i64_def trunc_mag_int w_def [symmetric] del: of_nat_mult)
  then have "fp_as_i64 (i64_as_f32 v) = v \<longleftrightarrow> w = v"
    using v False by (auto simp: in_i64_def max_def min_def)
  moreover have "fp_val (i64_as_f32 v) = of_int w" by (simp only: f fp_val_int w_def)
  ultimately show ?thesis by (simp add: f)
qed

lemma make_int_scalar_denotes:
  assumes "in_i64 v" "make_int_scalar v dt = Ok a" "\<not> (v = 9223372036854775807 \<and> dt = DFloat32)"
  shows "\<exists>c. array_type a = dt \<and> array_cells a = [Some c] \<and> denotes (SInt v) dt c"
  using assms i64_as_f64_exact [OF assms(1)] i64_as_f32_exact [OF assms(1)]
  by (auto simp: make_int_scalar_def int_scalar_def make_timestamp_scalar_def
           split: DataType.splits option.splits if_splits)

lemma make_scalar_array_denotes:
  assumes "scalar_wf s" "make_scalar_array s dt = Ok a"
    "\<not> (s = SInt 9223372036854775807 \<and> dt = DFloat32)"
  shows "\<exists>c. array_type a = dt \<and> array_cells a = [Some c] \<and> denotes s dt c"
proof (cases s)
  case (SInt v)
  then show ?thesis using assms make_int_scalar_denotes [of v dt a]
    by (auto simp: make_scalar_array_def)
next
  case (SDate64 d)
  then show ?thesis using assms
    by (auto simp: make_scalar_array_def smod_eq_0_iff sdiv_exact
             split: DataType.splits option.splits if_splits)
qed (use assms make_timestamp_exact in
      \<open>fastforce simp: make_scalar_array_def split: DataType.splits option.splits if_splits\<close>)+

section \<open>Row-by-row meaning of an expression\<close>

text \<open>
  The reference semantics evaluates one row at a time: a literal is converted to the type of
  the other operand, comparisons and boolean operators propagate nulls.
\<close>

fun is_lit :: "Expr \<Rightarrow> bool" where
  "is_lit (EScalar _) = True"
| "is_lit _ = False"

definition lit_cell :: "ScalarValue \<Rightarrow> DataType \<Rightarrow> cell option" where
  "lit_cell s dt = (case make_scalar_array s dt of Ok a \<Rightarrow> hd (array_cells a) | Err _ \<Rightarrow> None)"

fun expr_type :: "arrow_api \<Rightarrow> RecordBatch \<Rightarrow> Expr \<Rightarrow> DataType" where
  "expr_type K b (EField n) =
     (case k_column_by_name K b n of None \<Rightarrow> DNull | Some c \<Rightarrow> array_type c)"
| "expr_type K b _ = DBoolean"

definition cmp_type :: "arrow_api \<Rightarrow> RecordBatch \<Rightarrow> Expr \<Rightarrow> Expr \<Rightarrow> DataType" where
  "cmp_type K b x y =
     (if \<not> is_lit x then expr_type K b x
      else if \<not> is_lit y then expr_type K b y
      else (case (x, y) of
              (EScalar l, EScalar r) \<Rightarrow>
                (case infer_lit_compare_type l r of Ok dt \<Rightarrow> dt | Err _ \<Rightarrow> DNull)
            | _ \<Rightarrow> DNull))"

fun to_bool :: "cell option \<Rightarrow> bool option" where
  "to_bool (Some (CBool x)) = Some x"
| "to_bool _ = None"

fun row_cell ::
  "arrow_api \<Rightarrow> (cmp_op \<Rightarrow> cell \<Rightarrow> cell \<Rightarrow> bool) \<Rightarrow> RecordBatch \<Rightarrow> nat \<Rightarrow> DataType \<Rightarrow> Expr \<Rightarrow> cell option"
where
  "row_cell K ccmp b i dt (EScalar s) = lit_cell s dt"
| "row_cell K ccmp b i dt (EField n) =
     (case k_column_by_name K b n of None \<Rightarrow> None | Some c \<Rightarrow> array_cells c ! i)"
| "row_cell K ccmp b i dt (ECall op (x # rest)) =
     (if op = OpNot then map_option CBool (map_option Not (to_bool (row_cell K ccmp b i DBoolean x)))
      else case rest of
        [] \<Rightarrow> None
      | y # _ \<Rightarrow>
          map_option CBool
            (if op = OpAnd then
               lift2 (\<and>) (to_bool (row_cell K ccmp b i DBoolean x)) (to_bool (row_cell K ccmp b i DBoolean y))
             else if op = OpOr then
               lift2 (\<or>) (to_bool (row_cell K ccmp b i DBoolean x)) (to_bool (row_cell K ccmp b i DBoolean y))
             else case cmp_of_op op of
               None \<Rightarrow> None
             | Some c \<Rightarrow>
                 lift2 (ccmp c) (row_cell K ccmp b i (cmp_type K b x y) x)
                                (row_cell K ccmp b i (cmp_type K b x y) y)))"
| "row_cell K ccmp b i dt (ECall op []) = None"

definition row_bool ::
  "arrow_api \<Rightarrow> (cmp_op \<Rightarrow> cell \<Rightarrow> cell \<Rightarrow> bool) \<Rightarrow> RecordBatch \<Rightarrow> Expr \<Rightarrow> nat \<Rightarrow> bool option" where
  "row_bool K ccmp b e i = to_bool (row_cell K ccmp b i DBoolean e)"

lemma to_bool_CBool [simp]: "to_bool (map_option CBool x) = x"
  by (cases x) auto

text \<open>A literal always becomes a one-element array of the requested type.\<close>

lemma make_scalar_array_shape:
  assumes "make_scalar_array s dt = Ok a"
  shows "array_type a = dt \<and> (\<exists>c. array_cells a = [Some c])"
  using assms
  by (cases s)
     (auto simp: make_scalar_array_def make_int_scalar_def int_scalar_def make_timestamp_scalar_def
           split: DataType.splits option.splits if_splits)

lemma make_scalar_array_cell:
  assumes "make_scalar_array s dt = Ok a"
  obtains c where "array_type a = dt" "array_cells a = [Some c]" "lit_cell s dt = Some c"
  using make_scalar_array_shape [OF assms] assms by (auto simp: lit_cell_def)

lemma value_as_bool_Ok:
  assumes "value_as_bool v n = Ok m"
  shows "v = ValArray (BooleanArray m) \<and> length m = n \<or>
         (\<exists>x. v = ValLit (SBool x) \<and> m = replicate n (Some x))"
proof (cases v)
  case (ValLit s)
  then show ?thesis using assms by (cases s) auto
qed (use assms in \<open>auto split: option.splits if_splits\<close>)

text \<open>
  \<open>agrees K ccmp b e v\<close>: the batch-level value \<open>v\<close> is the row-level meaning of \<open>e\<close>.
\<close>

fun agrees ::
  "arrow_api \<Rightarrow> (cmp_op \<Rightarrow> cell \<Rightarrow> cell \<Rightarrow> bool) \<Rightarrow> RecordBatch \<Rightarrow> Expr \<Rightarrow> Value \<Rightarrow> bool" where
  "agrees K ccmp b e (ValLit s) = (e = EScalar s)"
| "agrees K ccmp b e (ValArray a) =
     (\<not> is_lit e \<and> array_type a = expr_type K b e \<and> array_len a = num_rows b \<and>
      (\<forall>i < num_rows b. \<forall>dt. row_cell K ccmp b i dt e = array_cells a ! i))"

definition mask_agrees ::
  "RecordBatch \<Rightarrow> (nat \<Rightarrow> bool option) \<Rightarrow> bool option list \<Rightarrow> bool" where
  "mask_agrees b f m \<longleftrightarrow> length m = num_rows b \<and> (\<forall>i < num_rows b. m ! i = f i)"

lemma mask_agrees_map: "mask_agrees b f m \<longleftrightarrow> m = map f [0..<num_rows b]"
  by (auto simp: mask_agrees_def intro: nth_equalityI)

lemma value_as_bool_agrees:
  assumes "value_as_bool v (num_rows b) = Ok m" "agrees K ccmp b e v"
  shows "mask_agrees b (row_bool K ccmp b e) m"
  using value_as_bool_Ok [OF assms(1)] assms(2)
  by (auto simp: mask_agrees_def row_bool_def lit_cell_def make_scalar_array_def)

lemma as_bool_operand_agrees:
  assumes "as_bool_operand r (num_rows b) = Ok m" "\<And>v. r = Ok v \<Longrightarrow> agrees K ccmp b e v"
  shows "mask_agrees b (row_bool K ccmp b e) m"
  using assms by (auto simp: as_bool_operand_def value_as_bool_agrees split: sum.splits)

lemma mask_value_Ok:
  "mask_value r = Ok v \<longleftrightarrow> (\<exists>m. r = Ok m \<and> v = ValArray (BooleanArray m))"
  by (auto simp: mask_value_def split: sum.splits)

text \<open>Neither decoding nor literal conversion can index out of bounds.\<close>

definition is_panic :: "compute_error \<Rightarrow> bool" where
  "is_panic e \<longleftrightarrow> e = IndexPanic \<or> e = UnreachablePanic"

definition no_panic :: "('a, compute_error) result \<Rightarrow> bool" where
  "no_panic r = (case r of Ok _ \<Rightarrow> True | Err e \<Rightarrow> \<not> is_panic e)"

lemma no_panic_simps [simp]: "no_panic (Ok a)" "no_panic (Err e) \<longleftrightarrow> \<not> is_panic e"
  by (simp_all add: no_panic_def)

lemma no_panic_ErrD: "no_panic r \<Longrightarrow> r = Err e \<Longrightarrow> \<not> is_panic e"
  by simp

lemma no_panic_map_err: "(\<And>e. \<not> is_panic (f e)) \<Longrightarrow> no_panic (map_err f r)"
  by (cases r) auto

lemma no_panic_arrow [simp]: "no_panic (map_err ArrowError r)"
  by (rule no_panic_map_err) (simp add: is_panic_def)

lemma no_panic_micros: "no_panic (micros_to_unit m u)"
  by (cases u) (auto simp: micros_to_unit_def ok_or_def is_panic_def split: option.splits)

lemma no_panic_timestamp: "no_panic (make_timestamp_scalar v raw u tz)"
proof -
  have "no_panic (finish_timestamp m u tz)" for m
    using no_panic_micros [of m u] by (auto simp: finish_timestamp_def split: sum.splits)
  then show ?thesis
    by (cases v) (auto simp: make_timestamp_scalar_def is_panic_def split: option.splits)
qed

lemma no_panic_scalar: "no_panic (make_scalar_array s dt)"
  using no_panic_timestamp
  by (cases s) (auto simp: make_scalar_array_def make_int_scalar_def int_scalar_def is_panic_def
                     split: DataType.splits option.splits)

lemma no_panic_as_bool: "no_panic (value_as_bool v n)"
  by (cases "(v, n)" rule: value_as_bool.cases) (auto simp: is_panic_def split: option.splits)

lemma no_panic_decode: "no_panic (decode_expr t)"
proof (induction t rule: decode_expr.induct)
  case (1 t)
  have "\<not> is_panic e" if e: "decode_expr t = Err e" for e
  proof
    assume p: "is_panic e"
    have op: "no_panic (decode_op x)" for x
      by (auto simp: decode_op_def is_panic_def split: option.splits)
    have sc: "no_panic (decode_scalar x)" for x
      by (auto simp: decode_scalar_def decode_temporal_def is_panic_def split: option.splits list.splits)
    have ar: "no_panic (check_arity q as)" for q as
      by (auto simp: check_arity_def is_panic_def split: Op.splits)
    obtain x q xs where t: "t = TTuple [TAtom ''call'', x, TList xs]" "decode_op x = Ok q"
      and c: "collect decode_expr xs = Err e"
      using e p op [THEN no_panic_ErrD] sc [THEN no_panic_ErrD] ar [THEN no_panic_ErrD]
      by (subst (asm) decode_expr.simps)
         (auto simp: is_panic_def split: option.splits list.splits sum.splits if_splits)
    from c obtain u where u: "u \<in> set xs" "decode_expr u = Err e"
      by (rule collect_ErrE) auto
    have "no_panic (decode_expr u)" by (rule "1.IH" [where x = u]) (use t u in auto)
    with u p show False by simp
  qed
  then show ?case by (auto simp: no_panic_def split: sum.splits)
qed

context arrow_laws
begin

lemma call_cmp_Ok:
  "call_cmp K op l r = Ok m \<longleftrightarrow> (\<exists>c. cmp_of_op op = Some c \<and> k_cmp K c l r = Ok m)"
  by (auto simp: call_cmp_def split: option.splits)

lemma eval_cmp_agrees:
  assumes ok: "eval_cmp K l r op (num_rows b) = Ok m"
    and x: "agrees K ccmp b x l" and y: "agrees K ccmp b y r"
  shows "\<exists>c. cmp_of_op op = Some c \<and>
    mask_agrees b (\<lambda>i. lift2 (ccmp c) (row_cell K ccmp b i (cmp_type K b x y) x)
                                     (row_cell K ccmp b i (cmp_type K b x y) y)) m"
proof (cases l; cases r)
  fix a d assume l: "l = ValArray a" and r: "r = ValArray d"
  then obtain c where c: "cmp_of_op op = Some c" and k: "k_cmp K c (DArray a) (DArray d) = Ok m"
    and len: "array_len a = array_len d"
    using ok by (auto simp: apply_cmp_dyn_def call_cmp_Ok split: if_splits)
  have "array_type a = array_type d" using cmp_type_mismatch [of a d c] k by auto
  from cmp_arrays [OF this len, of c] k x y l r c show ?thesis
    by (auto simp: mask_agrees_def array_len_def)
next
  fix a s assume l: "l = ValArray a" and r: "r = ValLit s"
  then obtain c arr where c: "cmp_of_op op = Some c"
    and s: "make_scalar_array s (array_type a) = Ok arr"
    and k: "k_cmp K c (DArray a) (DScalar arr) = Ok m"
    using ok by (auto simp: call_cmp_Ok split: sum.splits)
  from s obtain v where v: "array_type arr = array_type a" "array_cells arr = [Some v]"
    "lit_cell s (array_type a) = Some v" by (rule make_scalar_array_cell)
  from cmp_array_scalar [OF v(1) [symmetric] v(2), of c] k v(3) x y l r c show ?thesis
    by (auto simp: mask_agrees_def array_len_def cmp_type_def)
next
  fix s d assume l: "l = ValLit s" and r: "r = ValArray d"
  then obtain c arr where c: "cmp_of_op op = Some c"
    and s: "make_scalar_array s (array_type d) = Ok arr"
    and k: "k_cmp K c (DScalar arr) (DArray d) = Ok m"
    using ok by (auto simp: call_cmp_Ok split: sum.splits)
  from s obtain v where v: "array_type arr = array_type d" "array_cells arr = [Some v]"
    "lit_cell s (array_type d) = Some v" by (rule make_scalar_array_cell)
  from cmp_scalar_array [OF v(1,2), of c] k v(3) x y l r c show ?thesis
    by (auto simp: mask_agrees_def array_len_def cmp_type_def)
next
  fix s t assume l: "l = ValLit s" and r: "r = ValLit t"
  then obtain c dt la ra one where c: "cmp_of_op op = Some c"
    and dt: "infer_lit_compare_type s t = Ok dt"
    and a: "make_scalar_array s dt = Ok la" "make_scalar_array t dt = Ok ra"
    and k: "k_cmp K c (DScalar la) (DScalar ra) = Ok one"
    and m: "m = replicate (num_rows b) (Some (k_bool_value K one 0))"
    using ok by (auto simp: call_cmp_Ok split: sum.splits if_splits)
  from a(1) obtain v where v: "array_type la = dt" "array_cells la = [Some v]" "lit_cell s dt = Some v"
    by (rule make_scalar_array_cell)
  from a(2) obtain w where w: "array_type ra = dt" "array_cells ra = [Some w]" "lit_cell t dt = Some w"
    by (rule make_scalar_array_cell)
  have "one = [Some (ccmp c v w)]" using cmp_scalars [of la ra "Some v" "Some w" c] k v w by simp
  then have "k_bool_value K one 0 = ccmp c v w" by (intro bool_value) simp_all
  with m x y l r c v(3) w(3) dt show ?thesis
    by (auto simp: mask_agrees_def cmp_type_def)
qed

lemma eval_value_agrees:
  assumes "batch_wf b"
  shows "expr_wf e \<Longrightarrow> eval_value K b e = Ok v \<Longrightarrow> agrees K ccmp b e v"
proof (induction e arbitrary: v rule: expr_wf.induct)
  case (1 n)
  then obtain col where col: "k_column_by_name K b n = Some col" "v = ValArray col"
    by (auto split: option.splits)
  then obtain i where "k_index_of K (schema b) n = Some i" "col = columns b ! i"
    using column_by_name [OF assms, of n] by auto
  then have "col \<in> set (columns b)"
    using index_of_Some [of "schema b" n i] assms by (auto simp: batch_wf_def)
  then show ?case using col batch_wf_len [OF assms] by simp
next
  case (2 s)
  then show ?case by auto
next
  case (3 op args)
  show ?case
  proof (cases "op = OpNot")
    case True
    with "3.prems"(1) obtain x where args: "args = [x]"
      by (auto simp: arity_def length_Suc_conv)
    with True "3.prems"(2) obtain p m where p: "as_bool_operand (eval_value K b x) (num_rows b) = Ok p"
      and m: "k_not K p = Ok m" "v = ValArray (BooleanArray m)"
      by (auto simp: mask_value_Ok split: sum.splits)
    have "mask_agrees b (row_bool K ccmp b x) p"
      using p by (rule as_bool_operand_agrees) (use 3 args in auto)
    then show ?thesis using m True args not_eq [of p]
      by (auto simp: mask_agrees_def row_bool_def)
  next
    case False
    with "3.prems"(1) obtain x y where args: "args = [x, y]"
      by (auto simp: arity_def length_Suc_conv numeral_2_eq_2)
    have IH: "\<And>v. eval_value K b x = Ok v \<Longrightarrow> agrees K ccmp b x v"
      "\<And>v. eval_value K b y = Ok v \<Longrightarrow> agrees K ccmp b y v" using 3 args by auto
    show ?thesis
    proof (cases "op = OpAnd \<or> op = OpOr")
      case True
      with False args "3.prems"(2) obtain p q m where
        pq: "as_bool_operand (eval_value K b x) (num_rows b) = Ok p"
          "as_bool_operand (eval_value K b y) (num_rows b) = Ok q"
        and m: "(if op = OpAnd then k_and K p q else k_or K p q) = Ok m" "v = ValArray (BooleanArray m)"
        by (auto simp: mask_value_Ok split: sum.splits if_splits)
      have "mask_agrees b (row_bool K ccmp b x) p" "mask_agrees b (row_bool K ccmp b y) q"
        using pq IH by (auto intro: as_bool_operand_agrees)
      then show ?thesis using m True args and_eq [of p q] or_eq [of p q]
        by (auto simp: mask_agrees_def row_bool_def split: if_splits)
    next
      case cmp: False
      with False args "3.prems"(2) obtain l r m where
        lr: "eval_value K b x = Ok l" "eval_value K b y = Ok r"
        and m: "eval_cmp K l r op (num_rows b) = Ok m" "v = ValArray (BooleanArray m)"
        by (auto simp: mask_value_Ok split: sum.splits)
      from eval_cmp_agrees [OF m(1) IH(1) [OF lr(1)] IH(2) [OF lr(2)]] m(2) args cmp False
      show ?thesis by (auto simp: mask_agrees_def)
    qed
  qed
qed

lemma eval_to_bool_rows:
  assumes "batch_wf b" "expr_wf e" "eval_to_bool K b e = Ok m"
  shows "m = map (row_bool K ccmp b e) [0..<num_rows b]"
  using as_bool_operand_agrees [of "eval_value K b e" b m] eval_value_agrees [OF assms(1,2)] assms(3)
  by (auto simp: eval_to_bool_def mask_agrees_map)

lemma filter_expr_rows:
  assumes "batch_wf b" "compute_filter_expr K b t = OkTuple r"
  shows "\<exists>e. expr_wf e \<and> t = encode_expr e \<and>
           r = batch_sel (filter (\<lambda>i. row_bool K ccmp b e i = Some True) [0..<num_rows b]) b"
proof -
  obtain e m where e: "decode_expr t = Ok e" and m: "eval_to_bool K b e = Ok m"
    and k: "k_filter K b m = Ok r"
    using assms(2) by (auto simp: compute_filter_expr_def batch_reply_def split: sum.splits)
  have wf: "expr_wf e" "t = encode_expr e" using decode_expr_sound [OF e] by auto
  have rows: "m = map (row_bool K ccmp b e) [0..<num_rows b]"
    by (rule eval_to_bool_rows [OF assms(1) wf(1) m])
  then have "true_positions m = filter (\<lambda>i. row_bool K ccmp b e i = Some True) [0..<num_rows b]"
    by (auto simp: true_positions_def intro!: filter_cong)
  then have "r = batch_sel (filter (\<lambda>i. row_bool K ccmp b e i = Some True) [0..<num_rows b]) b"
    using filter_eq [OF assms(1), of m] rows k by simp
  with wf show ?thesis by blast
qed

lemma no_panic_cmp:
  assumes "cmp_of_op op \<noteq> None"
  shows "no_panic (eval_cmp K l r op n)"
proof -
  have call: "no_panic (call_cmp K op p q)" for p q
    using assms by (auto simp: call_cmp_def)
  have inf: "no_panic (infer_lit_compare_type s t)" for s t
    by (auto simp: infer_lit_compare_type_def infer_timestamp_type_def is_panic_def
             split: ScalarValue.splits)
  have one: "one \<noteq> []" if "make_scalar_array s dt = Ok la" "make_scalar_array t dt = Ok ra"
    "call_cmp K op (DScalar la) (DScalar ra) = Ok one" for s t dt la ra one
    using that make_scalar_array_shape [OF that(1)] make_scalar_array_shape [OF that(2)]
    by (auto simp: call_cmp_Ok cmp_scalars)
  show ?thesis
    using call one no_panic_scalar [THEN no_panic_ErrD] inf [THEN no_panic_ErrD] call [THEN no_panic_ErrD]
    by (cases l; cases r) (auto simp: apply_cmp_dyn_def is_panic_def split: sum.splits)
qed

lemma no_panic_value: "expr_wf e \<Longrightarrow> no_panic (eval_value K b e)"
proof (induction e rule: expr_wf.induct)
  case (3 op args)
  have operand: "no_panic (as_bool_operand r n)" if "no_panic r" for r n
    using that no_panic_as_bool by (auto simp: as_bool_operand_def split: sum.splits)
  have mv: "no_panic (mask_value r)" if "no_panic r" for r
    using that by (auto simp: mask_value_def split: sum.splits)
  show ?case
  proof (cases "op = OpNot")
    case True
    with "3.prems" obtain x where args: "args = [x]" by (auto simp: arity_def length_Suc_conv)
    then show ?thesis using True operand [of "eval_value K b x" "num_rows b"] 3 mv
      by (auto split: sum.splits)
  next
    case False
    with "3.prems" obtain x y where args: "args = [x, y]"
      by (auto simp: arity_def length_Suc_conv numeral_2_eq_2)
    then have IH: "no_panic (eval_value K b x)" "no_panic (eval_value K b y)" using 3 by auto
    show ?thesis
    proof (cases "op = OpAnd \<or> op = OpOr")
      case True
      then show ?thesis
        using args operand [OF IH(1), of "num_rows b"] operand [OF IH(2), of "num_rows b"] mv
        by (auto split: sum.splits)
    next
      case cmp: False
      then have "cmp_of_op op \<noteq> None" using False by (cases op) auto
      from no_panic_cmp [OF this] show ?thesis using cmp False args IH mv
        by (auto split: sum.splits)
    qed
  qed
qed (auto simp: is_panic_def split: option.splits)

lemma filter_expr_no_panic: "compute_filter_expr K b t = ErrorTuple e \<Longrightarrow> \<not> is_panic e"
proof (cases "decode_expr t")
  case (Inl d)
  then show "compute_filter_expr K b t = ErrorTuple e \<Longrightarrow> \<not> is_panic e"
    using no_panic_decode [of t] by (auto simp: compute_filter_expr_def)
next
  case (Inr d)
  have "expr_wf d" using decode_expr_sound [OF Inr] by simp
  then have "no_panic (eval_to_bool K b d)"
    using no_panic_value [of d b] no_panic_as_bool
    by (auto simp: eval_to_bool_def as_bool_operand_def split: sum.splits)
  then show "compute_filter_expr K b t = ErrorTuple e \<Longrightarrow> \<not> is_panic e"
    using Inr by (auto simp: compute_filter_expr_def batch_reply_def is_panic_def split: sum.splits)
qed

text \<open>Projection returns the requested columns, in the requested order.\<close>

lemma project_columns:
  assumes b: "batch_wf b" and ok: "compute_project K b ns = OkTuple r"
  shows "map f_name (sfields (schema r)) = ns \<and> batch_wf r \<and> num_rows r = num_rows b \<and>
         (\<exists>is. list_all2 (\<lambda>n i. k_index_of K (schema b) n = Some i) ns is \<and>
               columns r = map ((!) (columns b)) is)"
proof -
  obtain "is" where is1: "list_all2 (\<lambda>n i. k_index_of K (schema b) n = Some i) ns is"
    and k: "k_project K b is = Ok r"
    using ok by (auto simp: compute_project_def batch_reply_def collect_eq_Ok split: sum.splits)
  have len: "length (columns b) = length (sfields (schema b))" using b by (simp add: batch_wf_def)
  have idx: "i < length (columns b)" if "i \<in> set is" for i
    using is1 that index_of_Some len by (fastforce simp: list_all2_conv_all_nth in_set_conv_nth)
  have r: "r = b\<lparr>schema := (schema b)\<lparr>sfields := map ((!) (sfields (schema b))) is\<rparr>,
                 columns := map ((!) (columns b)) is\<rparr>"
    using project_eq [OF b idx] k by auto
  have "map f_name (sfields (schema r)) = ns"
    using is1 index_of_Some by (auto simp: r list_all2_conv_all_nth intro!: nth_equalityI)
  moreover have "batch_wf r"
    using b idx len by (auto simp: r batch_wf_def list_all2_conv_all_nth list_all_iff)
  ultimately show ?thesis using r is1 by auto
qed

lemma project_error:
  "batch_wf b \<Longrightarrow> (\<exists>r. compute_project K b ns = OkTuple r) \<longleftrightarrow>
     set ns \<subseteq> f_name ` set (sfields (schema b))"
proof
  assume b: "batch_wf b"
  assume "\<exists>r. compute_project K b ns = OkTuple r"
  then obtain r where "compute_project K b ns = OkTuple r" ..
  from project_columns [OF b this] obtain "is" where
    *: "list_all2 (\<lambda>n i. k_index_of K (schema b) n = Some i) ns is" by auto
  show "set ns \<subseteq> f_name ` set (sfields (schema b))"
  proof
    fix n assume "n \<in> set ns"
    with * have "k_index_of K (schema b) n \<noteq> None"
      by (auto simp: list_all2_conv_all_nth in_set_conv_nth)
    then show "n \<in> f_name ` set (sfields (schema b))" using index_of_None by auto
  qed
next
  assume b: "batch_wf b"
  assume sub: "set ns \<subseteq> f_name ` set (sfields (schema b))"
  define g where "g n = the (k_index_of K (schema b) n)" for n
  have g: "k_index_of K (schema b) n = Some (g n)" if "n \<in> set ns" for n
    using sub that index_of_None [of "schema b" n] by (auto simp: g_def)
  then have "collect (\<lambda>n. ok_or (ColumnNotFound n) (k_index_of K (schema b) n)) ns = Ok (map g ns)"
    by (intro collect_total) auto
  moreover have "is_ok (k_project K b (map g ns))"
  proof -
    have "i < length (columns b)" if "i \<in> set (map g ns)" for i
      using that g index_of_Some b by (auto simp: batch_wf_def)
    from project_eq [OF b, of "map g ns"] this show ?thesis by (metis is_ok_simps(2))
  qed
  ultimately show "\<exists>r. compute_project K b ns = OkTuple r"
    by (auto simp: compute_project_def batch_reply_def is_ok_def split: sum.splits)
qed

text \<open>Sorting permutes whole rows and orders the key column, nulls first.\<close>

lemma sort_rows:
  assumes b: "batch_wf b" and ok: "compute_sort K b n asc = OkTuple r"
  shows "\<exists>is k. distinct is \<and> set is = {..<num_rows b} \<and> k < length (columns b) \<and>
      f_name (sfields (schema b) ! k) = n \<and> schema r = schema b \<and>
      columns r = map (array_sel is) (columns b) \<and>
      (\<forall>i j x. i < j \<longrightarrow> j < num_rows b \<longrightarrow> array_cells (columns r ! k) ! i = Some x \<longrightarrow>
         (\<exists>y. array_cells (columns r ! k) ! j = Some y \<and> ccmp (if asc then CmpLte else CmpGte) x y))"
proof -
  obtain k "is" cs where k: "k_index_of K (schema b) n = Some k"
    and s: "k_sort_to_indices K (columns b ! k) \<lparr>descending = \<not> asc, nulls_first = True\<rparr> = Ok is"
    and cs: "collect (\<lambda>c. map_err ArrowError (k_take K c is)) (columns b) = Ok cs"
    and r: "k_try_new K (schema b) cs = Ok r"
    using ok by (auto simp: compute_sort_def batch_reply_def split: option.splits sum.splits if_splits)
  have k': "k < length (columns b)" "f_name (sfields (schema b) ! k) = n"
    using index_of_Some [OF k] b by (auto simp: batch_wf_def)
  have len: "array_len c = num_rows b" if "c \<in> set (columns b)" for c
    using b that by (rule batch_wf_len)
  have perm: "distinct is" "set is = {..<num_rows b}"
    using sort_perm [OF s] len k' by auto
  then have lis: "length is = num_rows b" using distinct_card [of "is"] by simp
  have take: "k_take K c is = Ok (array_sel is c)" if "c \<in> set (columns b)" for c
    using take_eq [of "is" c] perm len [OF that] by auto
  have "collect (\<lambda>c. map_err ArrowError (k_take K c is)) (columns b) = Ok (map (array_sel is) (columns b))"
    by (intro collect_total) (simp add: take)
  with cs have cs': "cs = map (array_sel is) (columns b)" by simp
  have r': "schema r = schema b" "columns r = map (array_sel is) (columns b)"
    using try_new_wf [OF r] cs' by auto
  have cell: "array_cells (columns r ! k) ! i = array_cells (columns b ! k) ! (is ! i)"
    if "i < num_rows b" for i
  proof -
    have "array_len (columns b ! k) = num_rows b" using len k' by simp
    then show ?thesis using that k' lis perm array_sel_cells [of "is" "columns b ! k"] by (simp add: r')
  qed
  have "\<exists>y. array_cells (columns r ! k) ! j = Some y \<and> ccmp (if asc then CmpLte else CmpGte) x y"
    if "i < j" "j < num_rows b" "array_cells (columns r ! k) ! i = Some x" for i j x
    using sort_sorted [OF s that(1)] that lis cell [of i] cell [of j] by (cases asc) auto
  then show ?thesis using perm k' r' by blast
qed

end

section \<open>Properties\<close>

text \<open>
  C19: decoding accepts exactly the documented term encoding.  A term decodes to an expression
  if and only if the expression is well formed (every operator has its arity, integers are in
  range, strings are UTF-8) and the term is its encoding; so no two terms decode to the same
  expression and nothing outside the documented grammar is accepted.
\<close>

theorem decode_expr_exact: "decode_expr t = Ok e \<longleftrightarrow> expr_wf e \<and> t = encode_expr e"
  using decode_expr_encode decode_expr_sound by blast

text \<open>
  C1: \<open>compute_filter_expr\<close> keeps exactly the rows on which the expression is true.  The
  reply batch has the same schema, is well formed, and consists of the rows, in order, whose
  row-by-row meaning is true; a row whose meaning is null is dropped.
\<close>

theorem compute_filter_expr_keeps_rows:
  assumes "arrow_laws K ccmp" "batch_wf b" "compute_filter_expr K b t = OkTuple r"
  shows "\<exists>e. decode_expr t = Ok e \<and> schema r = schema b \<and> batch_wf r \<and>
           r = batch_sel (filter (\<lambda>i. row_bool K ccmp b e i = Some True) [0..<num_rows b]) b"
  using arrow_laws.filter_expr_rows [OF assms] batch_sel_wf [OF assms(2)] decode_expr_encode
  by fastforce

definition sample_term :: beam_term where
  "sample_term =
     TTuple [TAtom ''call'', TAtom ''and'',
       TList [TTuple [TAtom ''call'', TAtom ''gt'',
                TList [TTuple [TAtom ''field'', TBinary ''id''], TTuple [TAtom ''scalar'', TInt 2]]],
              TTuple [TAtom ''field'', TBinary ''flag'']]]"

lemma sample_term_decodes:
  "decode_expr sample_term =
     Ok (ECall OpAnd [ECall OpGt [EField ''id'', EScalar (SInt 2)], EField ''flag''])"
  by (simp add: sample_term_def decode_expr.simps decode_op_def decode_scalar_def check_arity_def
      utf8_valid.simps in_i64_def try_from_def)

lemma sample_filter:
  "compute_filter_expr ref_api sample_batch sample_term = OkTuple (batch_sel [0] sample_batch)"
  by (simp add: compute_filter_expr_def sample_term_decodes eval_to_bool_def as_bool_operand_def
      mask_value_def call_cmp_def sample_batch_def schema_new_def make_scalar_array_def
      make_int_scalar_def batch_reply_def true_positions_def upt_rec)

theorem compute_filter_expr_keeps_rows_witness:
  "\<exists>e. decode_expr sample_term = Ok e \<and>
     batch_sel [0] sample_batch =
       batch_sel (filter (\<lambda>i. row_bool ref_api ref_ccmp sample_batch e i = Some True)
                         [0..<num_rows sample_batch]) sample_batch"
  using compute_filter_expr_keeps_rows [OF ref.arrow_laws_axioms sample_batch_wf sample_filter]
  by blast



text \<open>
  C20: literal conversion is exact.  Whenever a literal is converted to a one-element array of a
  column's type, the slot denotes the same value: integers and dates keep their number, floats
  their value, timestamps their instant in nanoseconds.  The one exception is the integer
  \<open>i64::MAX\<close> against a \<open>Float32\<close> column.
\<close>

theorem make_scalar_array_exact:
  assumes "scalar_wf s" "make_scalar_array s dt = Ok a"
    "\<not> (s = SInt 9223372036854775807 \<and> dt = DFloat32)"
  shows "\<exists>c. array_type a = dt \<and> array_cells a = [Some c] \<and> denotes s dt c"
  using assms by (rule make_scalar_array_denotes)

theorem make_scalar_array_exact_witness:
  "\<exists>c. [Some (CInt 1000)] = [Some c] \<and>
     denotes (STimestampSeconds 1) (DTimestamp Millisecond None) c"
proof -
  have "make_scalar_array (STimestampSeconds 1) (DTimestamp Millisecond None) =
      Ok (TypedArray (DTimestamp Millisecond None) [Some (CInt 1000)])"
    by (simp add: make_scalar_array_def make_timestamp_scalar_def checked_mul_i64_def in_i64_def
        finish_timestamp_def micros_to_unit_def)
  from make_scalar_array_exact [OF _ this] show ?thesis by (auto simp: in_i64_def)
qed

text \<open>
  The \<open>Float32\<close> exactness guard lets \<open>i64::MAX\<close> through.  The cast rounds to
  \<open>2 ^ 63\<close>, and the cast back to \<open>i64\<close> saturates to \<open>i64::MAX\<close>, so the comparison of
  the two hides that the scalar used for filtering is off by one.
\<close>

theorem make_scalar_array_f32_saturates:
  "\<exists>f. make_scalar_array (SInt 9223372036854775807) DFloat32 =
         Ok (TypedArray DFloat32 [Some (CFloat f)]) \<and>
       fp_val f = 9223372036854775808 \<and> \<not> denotes (SInt 9223372036854775807) DFloat32 (CFloat f)"
  by (simp add: make_scalar_array_def make_int_scalar_def i64_max_as_f32 fp_as_i64_def
      trunc_mag_def with_sign_def fp_val_def)

lemma whole_ticks: "(d :: int) dvd v \<longleftrightarrow> (\<exists>t. t * (d * 1000) = v * 1000)"
proof -
  have "t * (d * 1000) = v * 1000 \<longleftrightarrow> v = d * t" for t
    by (auto simp: ac_simps)
  then show ?thesis by (auto simp: dvd_def)
qed

text \<open>
  C21: which timestamp literals a timestamp column accepts.  A microsecond literal is accepted
  by a column of any unit exactly when some 64-bit tick count denotes the same instant; but a
  nanosecond literal that is not a whole number of microseconds is rejected even by a
  nanosecond column, which could represent it.
\<close>

theorem timestamp_literal_acceptance:
  assumes "in_i64 v" "in_i64 w"
  shows "(is_ok (make_scalar_array (STimestampMicros v) (DTimestamp u tz)) \<longleftrightarrow>
      (\<exists>t. in_i64 t \<and> t * unit_ns u = v * 1000)) \<and>
   (is_ok (make_scalar_array (STimestampNanos w) (DTimestamp Nanosecond tz)) \<longleftrightarrow> 1000 dvd w)"
proof -
  have ts: "is_ok (make_scalar_array (STimestampMicros v) (DTimestamp u tz)) \<longleftrightarrow> is_ok (micros_to_unit v u)"
    by (auto simp: make_scalar_array_def make_timestamp_scalar_def finish_timestamp_def split: sum.splits)
  have "is_ok (micros_to_unit v u) \<longleftrightarrow> (\<exists>t. in_i64 t \<and> t * unit_ns u = v * 1000)"
  proof (cases u)
    case Second
    have "1000000 dvd v \<longleftrightarrow> (\<exists>t. in_i64 t \<and> t * 1000000000 = v * 1000)"
      using whole_ticks [of 1000000 v] assms(1) by (auto simp: in_i64_def)
    then show ?thesis by (simp add: Second micros_to_unit_def smod_eq_0_iff)
  next
    case Millisecond
    have "1000 dvd v \<longleftrightarrow> (\<exists>t. in_i64 t \<and> t * 1000000 = v * 1000)"
      using whole_ticks [of 1000 v] assms(1) by (auto simp: in_i64_def)
    then show ?thesis by (simp add: Millisecond micros_to_unit_def smod_eq_0_iff)
  qed (use assms(1) in \<open>auto simp: micros_to_unit_def ok_or_def is_ok_def split: option.splits\<close>)
  then show ?thesis using ts assms(2) sdiv_exact [of 1000 w]
    by (auto simp: make_scalar_array_def make_timestamp_scalar_def finish_timestamp_def
        micros_to_unit_def smod_eq_0_iff ok_or_def split: option.splits)
qed

theorem timestamp_literal_acceptance_witness:
  "is_ok (make_scalar_array (STimestampMicros 2000) (DTimestamp Millisecond None)) \<and>
   \<not> is_ok (make_scalar_array (STimestampNanos 1500) (DTimestamp Nanosecond None))"
proof -
  have "in_i64 2000" "in_i64 1500" by (simp_all add: in_i64_def)
  from timestamp_literal_acceptance [OF this, of Millisecond None]
  have "is_ok (make_scalar_array (STimestampMicros 2000) (DTimestamp Millisecond None)) \<longleftrightarrow>
      (\<exists>t. in_i64 t \<and> t * unit_ns Millisecond = 2000 * 1000)"
    "is_ok (make_scalar_array (STimestampNanos 1500) (DTimestamp Nanosecond None)) \<longleftrightarrow>
      (1000 :: int) dvd 1500" by blast+
  moreover have "in_i64 2 \<and> 2 * unit_ns Millisecond = 2000 * 1000" by (simp add: in_i64_def)
  ultimately show ?thesis by auto
qed

text \<open>
  C23: \<open>compute_project\<close> succeeds exactly when every requested name is a column, and then the
  reply's columns are the requested ones in the requested order, with the row count unchanged.
\<close>

theorem compute_project_correct:
  assumes "arrow_laws K ccmp" "batch_wf b"
  shows "((\<exists>r. compute_project K b ns = OkTuple r) \<longleftrightarrow> set ns \<subseteq> f_name ` set (sfields (schema b))) \<and>
    (\<forall>r. compute_project K b ns = OkTuple r \<longrightarrow>
       map f_name (sfields (schema r)) = ns \<and> batch_wf r \<and> num_rows r = num_rows b \<and>
       (\<exists>is. list_all2 (\<lambda>n i. k_index_of K (schema b) n = Some i) ns is \<and>
             columns r = map ((!) (columns b)) is))"
  using arrow_laws.project_error [OF assms] arrow_laws.project_columns [OF assms] by blast

theorem compute_project_correct_witness:
  "\<exists>r. compute_project ref_api sample_batch [''flag'', ''id''] = OkTuple r \<and>
     map f_name (sfields (schema r)) = [''flag'', ''id''] \<and> num_rows r = 3"
proof -
  have "set [''flag'', ''id''] \<subseteq> f_name ` set (sfields (schema sample_batch))"
    by (simp add: sample_batch_def schema_new_def)
  then obtain r where r: "compute_project ref_api sample_batch [''flag'', ''id''] = OkTuple r"
    using compute_project_correct [OF ref.arrow_laws_axioms sample_batch_wf] by blast
  then have "map f_name (sfields (schema r)) = [''flag'', ''id''] \<and> num_rows r = num_rows sample_batch"
    using compute_project_correct [OF ref.arrow_laws_axioms sample_batch_wf] by blast
  with r show ?thesis by (simp add: sample_batch_def)
qed

text \<open>
  C22: \<open>compute_sort\<close> permutes whole rows and orders the key column.  One permutation of the
  row numbers is applied to every column, the schema is unchanged, and in the key column a
  non-null slot is followed only by non-null slots that compare after it in the requested
  direction (so nulls come first in both directions).
\<close>

theorem compute_sort_correct:
  assumes "arrow_laws K ccmp" "batch_wf b" "compute_sort K b n asc = OkTuple r"
  shows "\<exists>is k. distinct is \<and> set is = {..<num_rows b} \<and> k < length (columns b) \<and>
      f_name (sfields (schema b) ! k) = n \<and> schema r = schema b \<and>
      columns r = map (array_sel is) (columns b) \<and>
      (\<forall>i j x. i < j \<longrightarrow> j < num_rows b \<longrightarrow> array_cells (columns r ! k) ! i = Some x \<longrightarrow>
         (\<exists>y. array_cells (columns r ! k) ! j = Some y \<and> ccmp (if asc then CmpLte else CmpGte) x y))"
  using assms by (rule arrow_laws.sort_rows)

theorem compute_sort_correct_witness:
  "\<exists>r is. compute_sort ref_api sample_batch ''id'' True = OkTuple r \<and> distinct is \<and>
     set is = {..<3::nat} \<and> columns r = map (array_sel is) (columns sample_batch)"
proof -
  have s: "compute_sort ref_api sample_batch ''id'' True =
      OkTuple (batch_sel [1, 2, 0] sample_batch)"
    by (simp add: compute_sort_def sample_batch_def schema_new_def ref_sort_def slot_le_def
        upt_rec batch_reply_def ref_try_new_def batch_wf_def batch_sel_def)
  have "num_rows sample_batch = 3" by (simp add: sample_batch_def)
  with compute_sort_correct [OF ref.arrow_laws_axioms sample_batch_wf s] s show ?thesis
    by (metis (no_types, lifting))
qed

end
