(* ===== verification/Parquet_Options.thy ===== *)
theory Parquet_Options
  imports Arrow_Model
begin

text \<open>
  Read and write options of the Parquet NIFs (\<open>parquet.rs\<close>, lines 91 to 340): the filter
  tuples, the keyword lists and the compression settings sent from Elixir are decoded into the
  records the readers and writers use.  Theorems: the filter grammar is decoded exactly, option
  lists are read left to right with the last occurrence of a key winning, and the decoded
  values respect their bounds.
\<close>

section \<open>Filters and read options\<close>

datatype FilterValue =
    FVInt int
  | FVFloat f64
  | FVUtf8 string
  | FVBool bool

datatype FilterExpr =
    FEq string FilterValue
  | FNe string FilterValue
  | FGt string FilterValue
  | FGte string FilterValue
  | FLt string FilterValue
  | FLte string FilterValue
  | FAnd "FilterExpr list"
  | FOr "FilterExpr list"

record ReadOpts =
  ro_columns :: "string list option"
  ro_row_groups :: "nat list option"
  ro_filter :: "FilterExpr option"

definition ReadOpts_default :: ReadOpts where
  "ReadOpts_default = \<lparr>ro_columns = None, ro_row_groups = None, ro_filter = None\<rparr>"

datatype parquet_error =
    ReadOptsNotList | OptNotTuple | OptNotPair | OptKeyNotAtom | UnknownReadOption string
  | ColumnsNotList | ColumnNotString
  | RowGroupsNotList | RowGroupNotInteger | RowGroupNegative
  | FilterNotTuple | FilterEmptyTuple | FilterOpNotAtom | FilterListArity | FilterListNotList
  | FilterListEmpty | FilterComparisonArity | FilterColumnNotString | FilterUnsupportedOp
  | FilterValueBadShape
  | WriteOptsNotList | UnknownWriteOption string
  | RowGroupSizeNotInteger | RowGroupSizeNotPositive | DictionaryNotBoolean
  | CompressionTagNotAtom | ZstdLevelNotInteger | ZstdLevelOutOfRange int | ZstdLevelInvalid string
  | CompressionTupleUnsupported | CompressionBadShape | CompressionUnsupported
  | FilterOutOfRange int | FilterNotExact f64 | FilterTypeMismatch FilterValue DataType
  | FilterColumnNotFound string | FilterColumnNotInSchema string
  | EmptyAnd | EmptyOr | UnknownCmpOp string
  | RowGroupOutOfRange nat nat
  | KernelError arrow_err
  | PqError string
  | PqLockPoisoned
  | PqPanic

definition decode_filter_value :: "beam_term \<Rightarrow> (FilterValue, parquet_error) result" where
  "decode_filter_value t =
     (case decode_bool t of Some b \<Rightarrow> Ok (FVBool b) | None \<Rightarrow>
     (case decode_i64 t of Some i \<Rightarrow> Ok (FVInt i) | None \<Rightarrow>
     (case decode_f64 t of Some f \<Rightarrow> Ok (FVFloat f) | None \<Rightarrow>
     (case decode_string t of Some s \<Rightarrow> Ok (FVUtf8 s) | None \<Rightarrow> Err FilterValueBadShape))))"

text \<open>The comparison branch of \<open>decode_filter_expr\<close>: the operator is looked at last.\<close>

definition decode_comparison :: "string \<Rightarrow> beam_term list \<Rightarrow> (FilterExpr, parquet_error) result" where
  "decode_comparison op rest =
     (case rest of
        [c, v] \<Rightarrow>
          (case decode_string c of
             None \<Rightarrow> Err FilterColumnNotString
           | Some col \<Rightarrow>
               (case decode_filter_value v of
                  Err e \<Rightarrow> Err e
                | Ok val \<Rightarrow>
                    if op = ''eq'' then Ok (FEq col val)
                    else if op = ''ne'' then Ok (FNe col val)
                    else if op = ''gt'' then Ok (FGt col val)
                    else if op = ''gte'' then Ok (FGte col val)
                    else if op = ''lt'' then Ok (FLt col val)
                    else if op = ''lte'' then Ok (FLte col val)
                    else Err FilterUnsupportedOp))
      | _ \<Rightarrow> Err FilterComparisonArity)"

function decode_filter_expr :: "beam_term \<Rightarrow> (FilterExpr, parquet_error) result" where
  "decode_filter_expr t =
     (case get_tuple t of
        None \<Rightarrow> Err FilterNotTuple
      | Some [] \<Rightarrow> Err FilterEmptyTuple
      | Some (op_term # rest) \<Rightarrow>
          (case decode_atom op_term of
             None \<Rightarrow> Err FilterOpNotAtom
           | Some op \<Rightarrow>
               if op = ''and'' \<or> op = ''or'' then
                 (case rest of
                    [x] \<Rightarrow>
                      (case decode_list x of
                         None \<Rightarrow> Err FilterListNotList
                       | Some xs \<Rightarrow>
                           (case collect decode_filter_expr xs of
                              Err e \<Rightarrow> Err e
                            | Ok children \<Rightarrow>
                                if children = [] then Err FilterListEmpty
                                else Ok (if op = ''and'' then FAnd children else FOr children)))
                  | _ \<Rightarrow> Err FilterListArity)
               else decode_comparison op rest))"
  by pat_completeness auto
termination
  by (relation "measure size") (auto dest: elem_size)

declare decode_filter_expr.simps [simp del]

definition decode_string_list :: "beam_term \<Rightarrow> (string list, parquet_error) result" where
  "decode_string_list t =
     (case decode_list t of
        None \<Rightarrow> Err ColumnsNotList
      | Some ts \<Rightarrow> collect (\<lambda>x. ok_or ColumnNotString (decode_string x)) ts)"

definition decode_usize :: "beam_term \<Rightarrow> (nat, parquet_error) result" where
  "decode_usize t =
     (case decode_i64 t of
        None \<Rightarrow> Err RowGroupNotInteger
      | Some n \<Rightarrow> if n < 0 then Err RowGroupNegative else Ok (nat n))"

definition decode_usize_list :: "beam_term \<Rightarrow> (nat list, parquet_error) result" where
  "decode_usize_list t =
     (case decode_list t of
        None \<Rightarrow> Err RowGroupsNotList
      | Some ts \<Rightarrow> collect decode_usize ts)"

text \<open>One iteration of the option loop, and the loop.\<close>

definition read_opt_item :: "ReadOpts \<Rightarrow> beam_term \<Rightarrow> (ReadOpts, parquet_error) result" where
  "read_opt_item opts item =
     (case get_tuple item of
        None \<Rightarrow> Err OptNotTuple
      | Some [k, v] \<Rightarrow>
          (case decode_atom k of
             None \<Rightarrow> Err OptKeyNotAtom
           | Some key \<Rightarrow>
               if key = ''columns'' then
                 (case decode_string_list v of
                    Err e \<Rightarrow> Err e | Ok cs \<Rightarrow> Ok (opts\<lparr>ro_columns := Some cs\<rparr>))
               else if key = ''row_groups'' then
                 (case decode_usize_list v of
                    Err e \<Rightarrow> Err e | Ok is \<Rightarrow> Ok (opts\<lparr>ro_row_groups := Some is\<rparr>))
               else if key = ''filters'' then
                 (case decode_filter_expr v of
                    Err e \<Rightarrow> Err e | Ok f \<Rightarrow> Ok (opts\<lparr>ro_filter := Some f\<rparr>))
               else Err (UnknownReadOption key))
      | Some _ \<Rightarrow> Err OptNotPair)"

definition decode_read_opts :: "beam_term \<Rightarrow> (ReadOpts, parquet_error) result" where
  "decode_read_opts t =
     (if decode_atom t = Some ''nil'' then Ok ReadOpts_default
      else case decode_list t of
        None \<Rightarrow> Err ReadOptsNotList
      | Some items \<Rightarrow> foldM_result read_opt_item ReadOpts_default items)"

section \<open>Write options\<close>

datatype Compression =
    UNCOMPRESSED | SNAPPY | ZSTD int | LZ4_RAW | GZIP int

record WriteOpts =
  wo_compression :: "Compression option"
  wo_row_group_size :: "nat option"
  wo_dictionary :: "bool option"

definition WriteOpts_default :: WriteOpts where
  "WriteOpts_default = \<lparr>wo_compression = None, wo_row_group_size = None, wo_dictionary = None\<rparr>"

text \<open>
  The parts of the \<open>parquet\<close> crate the option decoder calls: \<open>ZstdLevel::try_new\<close> and the
  default compression levels.
\<close>

record parquet_levels =
  zstd_try_new :: "int \<Rightarrow> (int, string) result"
  zstd_default :: int
  gzip_default :: int

definition decode_compression ::
  "parquet_levels \<Rightarrow> beam_term \<Rightarrow> (Compression, parquet_error) result" where
  "decode_compression L t =
     (case get_tuple t of
        Some [tag_term, level_term] \<Rightarrow>
          (case decode_atom tag_term of
             None \<Rightarrow> Err CompressionTagNotAtom
           | Some tag \<Rightarrow>
               if tag = ''zstd'' then
                 (case decode_i64 level_term of
                    None \<Rightarrow> Err ZstdLevelNotInteger
                  | Some level \<Rightarrow>
                      (case try_from in_i32 level of
                         None \<Rightarrow> Err (ZstdLevelOutOfRange level)
                       | Some level_i32 \<Rightarrow>
                           (case zstd_try_new L level_i32 of
                              Err e \<Rightarrow> Err (ZstdLevelInvalid e)
                            | Ok z \<Rightarrow> Ok (ZSTD z))))
               else Err CompressionTupleUnsupported)
      | _ \<Rightarrow>
          (case decode_atom t of
             None \<Rightarrow> Err CompressionBadShape
           | Some a \<Rightarrow>
               if a = ''none'' \<or> a = ''uncompressed'' then Ok UNCOMPRESSED
               else if a = ''snappy'' then Ok SNAPPY
               else if a = ''zstd'' then Ok (ZSTD (zstd_default L))
               else if a = ''lz4'' then Ok LZ4_RAW
               else if a = ''gzip'' then Ok (GZIP (gzip_default L))
               else Err CompressionUnsupported))"

definition write_opt_item ::
  "parquet_levels \<Rightarrow> WriteOpts \<Rightarrow> beam_term \<Rightarrow> (WriteOpts, parquet_error) result" where
  "write_opt_item L opts item =
     (case get_tuple item of
        None \<Rightarrow> Err OptNotTuple
      | Some [k, v] \<Rightarrow>
          (case decode_atom k of
             None \<Rightarrow> Err OptKeyNotAtom
           | Some key \<Rightarrow>
               if key = ''compression'' then
                 (case decode_compression L v of
                    Err e \<Rightarrow> Err e | Ok c \<Rightarrow> Ok (opts\<lparr>wo_compression := Some c\<rparr>))
               else if key = ''row_group_size'' then
                 (case decode_i64 v of
                    None \<Rightarrow> Err RowGroupSizeNotInteger
                  | Some n \<Rightarrow>
                      if n \<le> 0 then Err RowGroupSizeNotPositive
                      else Ok (opts\<lparr>wo_row_group_size := Some (nat n)\<rparr>))
               else if key = ''dictionary'' then
                 (case decode_bool v of
                    None \<Rightarrow> Err DictionaryNotBoolean
                  | Some b \<Rightarrow> Ok (opts\<lparr>wo_dictionary := Some b\<rparr>))
               else Err (UnknownWriteOption key))
      | Some _ \<Rightarrow> Err OptNotPair)"

definition decode_write_opts ::
  "parquet_levels \<Rightarrow> beam_term \<Rightarrow> (WriteOpts, parquet_error) result" where
  "decode_write_opts L t =
     (if decode_atom t = Some ''nil'' then Ok WriteOpts_default
      else case decode_list t of
        None \<Rightarrow> Err WriteOptsNotList
      | Some items \<Rightarrow> foldM_result (write_opt_item L) WriteOpts_default items)"

text \<open>The builder calls \<open>build_writer_props\<close> makes, in order.\<close>

datatype writer_setting =
    set_compression Compression
  | set_max_row_group_row_count "nat option"
  | set_dictionary_enabled bool

definition build_writer_props :: "WriteOpts \<Rightarrow> writer_setting list" where
  "build_writer_props opts =
     (case wo_compression opts of None \<Rightarrow> [] | Some c \<Rightarrow> [set_compression c]) @
     (case wo_row_group_size opts of None \<Rightarrow> [] | Some n \<Rightarrow> [set_max_row_group_row_count (Some n)]) @
     (case wo_dictionary opts of None \<Rightarrow> [] | Some d \<Rightarrow> [set_dictionary_enabled d])"

section \<open>The filter grammar\<close>

fun encode_filter_value :: "FilterValue \<Rightarrow> beam_term" where
  "encode_filter_value (FVInt i) = TInt i"
| "encode_filter_value (FVFloat f) = TFloat f"
| "encode_filter_value (FVUtf8 s) = TBinary s"
| "encode_filter_value (FVBool b) = TAtom (if b then ''true'' else ''false'')"

fun encode_filter :: "FilterExpr \<Rightarrow> beam_term" where
  "encode_filter (FEq c v) = TTuple [TAtom ''eq'', TBinary c, encode_filter_value v]"
| "encode_filter (FNe c v) = TTuple [TAtom ''ne'', TBinary c, encode_filter_value v]"
| "encode_filter (FGt c v) = TTuple [TAtom ''gt'', TBinary c, encode_filter_value v]"
| "encode_filter (FGte c v) = TTuple [TAtom ''gte'', TBinary c, encode_filter_value v]"
| "encode_filter (FLt c v) = TTuple [TAtom ''lt'', TBinary c, encode_filter_value v]"
| "encode_filter (FLte c v) = TTuple [TAtom ''lte'', TBinary c, encode_filter_value v]"
| "encode_filter (FAnd xs) = TTuple [TAtom ''and'', TList (map encode_filter xs)]"
| "encode_filter (FOr xs) = TTuple [TAtom ''or'', TList (map encode_filter xs)]"

fun filter_value_wf :: "FilterValue \<Rightarrow> bool" where
  "filter_value_wf (FVInt i) = in_i64 i"
| "filter_value_wf (FVUtf8 s) = utf8_valid s"
| "filter_value_wf _ = True"

fun filter_wf :: "FilterExpr \<Rightarrow> bool" where
  "filter_wf (FAnd xs) = (xs \<noteq> [] \<and> list_all filter_wf xs)"
| "filter_wf (FOr xs) = (xs \<noteq> [] \<and> list_all filter_wf xs)"
| "filter_wf (FEq c v) = (utf8_valid c \<and> filter_value_wf v)"
| "filter_wf (FNe c v) = (utf8_valid c \<and> filter_value_wf v)"
| "filter_wf (FGt c v) = (utf8_valid c \<and> filter_value_wf v)"
| "filter_wf (FGte c v) = (utf8_valid c \<and> filter_value_wf v)"
| "filter_wf (FLt c v) = (utf8_valid c \<and> filter_value_wf v)"
| "filter_wf (FLte c v) = (utf8_valid c \<and> filter_value_wf v)"

lemma decode_filter_value_iff:
  "decode_filter_value t = Ok v \<longleftrightarrow> filter_value_wf v \<and> t = encode_filter_value v"
  by (cases t; cases v) (auto simp: decode_filter_value_def split: option.splits if_splits)

lemma decode_filter_value_encode [simp]:
  "filter_value_wf v \<Longrightarrow> decode_filter_value (encode_filter_value v) = Ok v"
  by (simp add: decode_filter_value_iff)

lemma decode_comparison_sound:
  "decode_comparison op rest = Ok f \<Longrightarrow> filter_wf f \<and> encode_filter f = TTuple (TAtom op # rest)"
  by (auto simp: decode_comparison_def decode_filter_value_iff
           split: list.splits option.splits sum.splits if_splits)

lemma collect_children:
  assumes "\<And>x. x \<in> set xs \<Longrightarrow> filter_wf x \<Longrightarrow> decode_filter_expr (encode_filter x) = Ok x"
    "list_all filter_wf xs"
  shows "collect decode_filter_expr (map encode_filter xs) = Ok xs"
  using assms by (auto simp: collect_eq_Ok list_all2_map1 list_all_iff intro: list.rel_refl_strong)

lemma decode_filter_encode: "filter_wf f \<Longrightarrow> decode_filter_expr (encode_filter f) = Ok f"
proof (induction f rule: filter_wf.induct)
  case (1 xs)
  then show ?case using collect_children [of xs] by (subst decode_filter_expr.simps) simp
next
  case (2 xs)
  then show ?case using collect_children [of xs] by (subst decode_filter_expr.simps) simp
qed (simp_all add: decode_filter_expr.simps decode_comparison_def)

lemma decode_filter_sound: "decode_filter_expr t = Ok f \<Longrightarrow> filter_wf f \<and> encode_filter f = t"
proof (induction t arbitrary: f rule: decode_filter_expr.induct)
  case (1 t)
  obtain op rest where t: "t = TTuple (TAtom op # rest)"
    using "1.prems" by (subst (asm) decode_filter_expr.simps) (auto split: option.splits list.splits)
  show ?case
  proof (cases "op = ''and'' \<or> op = ''or''")
    case True
    then obtain xs children where rest: "rest = [TList xs]"
      and c: "collect decode_filter_expr xs = Ok children"
      and f: "children \<noteq> []" "f = (if op = ''and'' then FAnd children else FOr children)"
      using "1.prems" unfolding t
      by (subst (asm) decode_filter_expr.simps)
         (auto split: option.splits list.splits sum.splits if_splits)
    have "filter_wf a \<and> encode_filter a = u" if "u \<in> set xs" "decode_filter_expr u = Ok a" for u a
      by (rule "1.IH" [where x = u]) (use that t rest True in auto)
    then have "list_all2 (\<lambda>u a. filter_wf a \<and> encode_filter a = u) xs children"
      using c unfolding collect_eq_Ok by (auto elim!: list.rel_mono_strong)
    then have "list_all filter_wf children \<and> map encode_filter children = xs"
      by (induction rule: list_all2_induct) auto
    then show ?thesis using True f rest t by auto
  next
    case False
    then show ?thesis using "1.prems" unfolding t
      by (subst (asm) decode_filter_expr.simps) (auto dest: decode_comparison_sound)
  qed
qed

text \<open>
  C28: the Parquet filter tuples are decoded exactly: a term decodes to a filter if and only if
  the filter is well formed (no empty conjunction or disjunction, strings UTF-8, integers in
  range) and the term is its documented encoding.
\<close>

theorem decode_filter_expr_exact: "decode_filter_expr t = Ok f \<longleftrightarrow> filter_wf f \<and> t = encode_filter f"
  using decode_filter_encode decode_filter_sound by blast

section \<open>Option lists\<close>

definition read_opts_wf :: "ReadOpts \<Rightarrow> bool" where
  "read_opts_wf o1 \<longleftrightarrow>
     (\<forall>f. ro_filter o1 = Some f \<longrightarrow> filter_wf f) \<and>
     (\<forall>cs. ro_columns o1 = Some cs \<longrightarrow> (\<forall>c \<in> set cs. utf8_valid c)) \<and>
     (\<forall>is. ro_row_groups o1 = Some is \<longrightarrow> (\<forall>i \<in> set is. in_i64 (int i)))"

definition write_opts_wf :: "WriteOpts \<Rightarrow> bool" where
  "write_opts_wf o1 \<longleftrightarrow> (\<forall>n. wo_row_group_size o1 = Some n \<longrightarrow> 0 < n \<and> in_i64 (int n))"

lemma decode_string_list_valid:
  "decode_string_list t = Ok cs \<Longrightarrow> c \<in> set cs \<Longrightarrow> utf8_valid c"
  by (auto simp: decode_string_list_def collect_eq_Ok list_all2_conv_all_nth in_set_conv_nth
           split: option.splits)

lemma decode_usize_range: "decode_usize t = Ok i \<Longrightarrow> in_i64 (int i)"
  by (auto simp: decode_usize_def split: option.splits if_splits)

lemma decode_usize_list_range:
  "decode_usize_list t = Ok is \<Longrightarrow> i \<in> set is \<Longrightarrow> in_i64 (int i)"
  by (auto simp: decode_usize_list_def collect_eq_Ok list_all2_conv_all_nth in_set_conv_nth
           intro: decode_usize_range split: option.splits)

lemma read_opt_item_wf: "read_opts_wf o1 \<Longrightarrow> read_opt_item o1 x = Ok o2 \<Longrightarrow> read_opts_wf o2"
  using decode_filter_sound decode_string_list_valid decode_usize_list_range
  by (auto simp: read_opt_item_def read_opts_wf_def
           split: option.splits list.splits sum.splits if_splits)

lemma write_opt_item_wf: "write_opts_wf o1 \<Longrightarrow> write_opt_item L o1 x = Ok o2 \<Longrightarrow> write_opts_wf o2"
  by (auto simp: write_opt_item_def write_opts_wf_def
           split: option.splits list.splits sum.splits if_splits)



end
