(* ===== verification/Parquet_Filter.thy ===== *)
theory Parquet_Filter
  imports Parquet_Options
begin

text \<open>
  Filter evaluation of the Parquet reader (\<open>parquet.rs\<close>, lines 342 to 508): the literal of a
  comparison becomes a one-element array of the column's type, a filter is evaluated to a boolean
  mask over a batch, the columns a filter names are collected, and its literals are checked
  against the schema before anything is read.  The lemmas relate the mask to the row-by-row
  meaning of the filter and show that a filter that passes the check is evaluated without error.
\<close>

section \<open>Literals and masks\<close>

definition make_scalar :: "FilterValue \<Rightarrow> DataType \<Rightarrow> (Arr, parquet_error) result" where
  "make_scalar value dt =
     (case (value, dt) of
        (FVInt v, DInt64) \<Rightarrow> Ok (TypedArray DInt64 [Some (CInt v)])
      | (FVInt v, DInt32) \<Rightarrow>
          (case try_from in_i32 v of
             None \<Rightarrow> Err (FilterOutOfRange v)
           | Some i \<Rightarrow> Ok (TypedArray DInt32 [Some (CInt i)]))
      | (FVFloat v, DFloat64) \<Rightarrow> Ok (TypedArray DFloat64 [Some (CFloat v)])
      | (FVFloat v, DFloat32) \<Rightarrow>
          if \<not> fp_eq (f32_as_f64 (f64_as_f32 v)) v then Err (FilterNotExact v)
          else Ok (TypedArray DFloat32 [Some (CFloat (f64_as_f32 v))])
      | (FVUtf8 s, DUtf8) \<Rightarrow> Ok (TypedArray DUtf8 [Some (CStr s)])
      | (FVBool b, DBoolean) \<Rightarrow> Ok (BooleanArray [Some b])
      | (FVInt v, DFloat64) \<Rightarrow> Ok (TypedArray DFloat64 [Some (CFloat (i64_as_f64 v))])
      | _ \<Rightarrow> Err (FilterTypeMismatch value dt))"

text \<open>\<open>eval_cmp\<close>: the operator is a string and an unknown one is an error.\<close>

definition pq_eval_cmp ::
  "arrow_api \<Rightarrow> Arr \<Rightarrow> FilterValue \<Rightarrow> string \<Rightarrow> (bool option list, parquet_error) result" where
  "pq_eval_cmp K array value op =
     (case make_scalar value (array_type array) of
        Err e \<Rightarrow> Err e
      | Ok scalar \<Rightarrow>
          if op = ''eq'' then map_err KernelError (k_cmp K CmpEq (DArray array) (DScalar scalar))
          else if op = ''ne'' then map_err KernelError (k_cmp K CmpNe (DArray array) (DScalar scalar))
          else if op = ''gt'' then map_err KernelError (k_cmp K CmpGt (DArray array) (DScalar scalar))
          else if op = ''gte'' then map_err KernelError (k_cmp K CmpGte (DArray array) (DScalar scalar))
          else if op = ''lt'' then map_err KernelError (k_cmp K CmpLt (DArray array) (DScalar scalar))
          else if op = ''lte'' then map_err KernelError (k_cmp K CmpLte (DArray array) (DScalar scalar))
          else Err (UnknownCmpOp op))"

text \<open>The six comparison arms of \<open>eval_filter_on_batch\<close> differ in the operator only.\<close>

definition cmp_arm ::
  "arrow_api \<Rightarrow> RecordBatch \<Rightarrow> string \<Rightarrow> FilterValue \<Rightarrow> string \<Rightarrow> (bool option list, parquet_error) result"
where
  "cmp_arm K b col v op =
     (case k_column_by_name K b col of
        None \<Rightarrow> Err (FilterColumnNotFound col)
      | Some arr \<Rightarrow> pq_eval_cmp K arr v op)"

text \<open>One iteration of the \<open>and\<close> and \<open>or\<close> loops: the accumulator starts as \<open>None\<close>.\<close>

definition accumulate ::
  "(bool option list \<Rightarrow> bool option list \<Rightarrow> (bool option list, arrow_err) result) \<Rightarrow>
   bool option list option \<Rightarrow> (bool option list, parquet_error) result \<Rightarrow>
   (bool option list option, parquet_error) result" where
  "accumulate k acc child =
     (case child of
        Err e \<Rightarrow> Err e
      | Ok msk \<Rightarrow>
          (case acc of
             None \<Rightarrow> Ok (Some msk)
           | Some prev \<Rightarrow> (case k prev msk of Err e \<Rightarrow> Err (KernelError e) | Ok m \<Rightarrow> Ok (Some m))))"

definition finish_loop ::
  "parquet_error \<Rightarrow> (bool option list option, parquet_error) result \<Rightarrow> (bool option list, parquet_error) result"
where
  "finish_loop e r = (case r of Err d \<Rightarrow> Err d | Ok acc \<Rightarrow> ok_or e acc)"

fun eval_filter_on_batch ::
  "arrow_api \<Rightarrow> RecordBatch \<Rightarrow> FilterExpr \<Rightarrow> (bool option list, parquet_error) result" where
  "eval_filter_on_batch K b (FEq col v) = cmp_arm K b col v ''eq''"
| "eval_filter_on_batch K b (FNe col v) = cmp_arm K b col v ''ne''"
| "eval_filter_on_batch K b (FGt col v) = cmp_arm K b col v ''gt''"
| "eval_filter_on_batch K b (FGte col v) = cmp_arm K b col v ''gte''"
| "eval_filter_on_batch K b (FLt col v) = cmp_arm K b col v ''lt''"
| "eval_filter_on_batch K b (FLte col v) = cmp_arm K b col v ''lte''"
| "eval_filter_on_batch K b (FAnd children) =
     finish_loop EmptyAnd
       (foldM_result (\<lambda>acc child. accumulate (k_and K) acc (eval_filter_on_batch K b child)) None children)"
| "eval_filter_on_batch K b (FOr children) =
     finish_loop EmptyOr
       (foldM_result (\<lambda>acc child. accumulate (k_or K) acc (eval_filter_on_batch K b child)) None children)"

section \<open>Columns and types\<close>

definition push_new :: "string \<Rightarrow> string list \<Rightarrow> string list" where
  "push_new c out = (if c \<in> set out then out else out @ [c])"

fun collect_filter_columns :: "FilterExpr \<Rightarrow> string list \<Rightarrow> string list" where
  "collect_filter_columns (FEq c v) out = push_new c out"
| "collect_filter_columns (FNe c v) out = push_new c out"
| "collect_filter_columns (FGt c v) out = push_new c out"
| "collect_filter_columns (FGte c v) out = push_new c out"
| "collect_filter_columns (FLt c v) out = push_new c out"
| "collect_filter_columns (FLte c v) out = push_new c out"
| "collect_filter_columns (FAnd xs) out = fold collect_filter_columns xs out"
| "collect_filter_columns (FOr xs) out = fold collect_filter_columns xs out"

definition validate_leaf ::
  "arrow_api \<Rightarrow> Schema \<Rightarrow> string \<Rightarrow> FilterValue \<Rightarrow> (unit, parquet_error) result" where
  "validate_leaf K s col v =
     (case k_field_with_name K s col of
        None \<Rightarrow> Err (FilterColumnNotInSchema col)
      | Some field \<Rightarrow> (case make_scalar v (f_type field) of Err e \<Rightarrow> Err e | Ok _ \<Rightarrow> Ok ()))"

fun validate_filter_types ::
  "arrow_api \<Rightarrow> Schema \<Rightarrow> FilterExpr \<Rightarrow> (unit, parquet_error) result" where
  "validate_filter_types K s (FAnd xs) = try_each (validate_filter_types K s) xs"
| "validate_filter_types K s (FOr xs) = try_each (validate_filter_types K s) xs"
| "validate_filter_types K s (FEq col v) = validate_leaf K s col v"
| "validate_filter_types K s (FNe col v) = validate_leaf K s col v"
| "validate_filter_types K s (FGt col v) = validate_leaf K s col v"
| "validate_filter_types K s (FGte col v) = validate_leaf K s col v"
| "validate_filter_types K s (FLt col v) = validate_leaf K s col v"
| "validate_filter_types K s (FLte col v) = validate_leaf K s col v"

section \<open>The meaning of a filter on one row\<close>

text \<open>
  The specification of a filter: a comparison looks at one slot of its column and is null where
  the slot is; a conjunction or disjunction is null as soon as one operand is (the kernels are
  the strict ones).
\<close>

definition cmp_meaning ::
  "arrow_api \<Rightarrow> (cmp_op \<Rightarrow> cell \<Rightarrow> cell \<Rightarrow> bool) \<Rightarrow> RecordBatch \<Rightarrow> cmp_op \<Rightarrow> string \<Rightarrow> FilterValue \<Rightarrow>
   nat \<Rightarrow> bool option" where
  "cmp_meaning K ccmp b op col v i =
     (case k_column_by_name K b col of
        None \<Rightarrow> None
      | Some a \<Rightarrow>
          (case make_scalar v (array_type a) of
             Err _ \<Rightarrow> None
           | Ok s \<Rightarrow> lift2 (ccmp op) (array_cells a ! i) (array_cells s ! 0)))"

fun row_filter ::
  "arrow_api \<Rightarrow> (cmp_op \<Rightarrow> cell \<Rightarrow> cell \<Rightarrow> bool) \<Rightarrow> RecordBatch \<Rightarrow> FilterExpr \<Rightarrow> nat \<Rightarrow> bool option" where
  "row_filter K ccmp b (FEq c v) i = cmp_meaning K ccmp b CmpEq c v i"
| "row_filter K ccmp b (FNe c v) i = cmp_meaning K ccmp b CmpNe c v i"
| "row_filter K ccmp b (FGt c v) i = cmp_meaning K ccmp b CmpGt c v i"
| "row_filter K ccmp b (FGte c v) i = cmp_meaning K ccmp b CmpGte c v i"
| "row_filter K ccmp b (FLt c v) i = cmp_meaning K ccmp b CmpLt c v i"
| "row_filter K ccmp b (FLte c v) i = cmp_meaning K ccmp b CmpLte c v i"
| "row_filter K ccmp b (FAnd xs) i =
     (if \<exists>x \<in> set xs. row_filter K ccmp b x i = None then None
      else Some (\<forall>x \<in> set xs. row_filter K ccmp b x i = Some True))"
| "row_filter K ccmp b (FOr xs) i =
     (if \<exists>x \<in> set xs. row_filter K ccmp b x i = None then None
      else Some (\<exists>x \<in> set xs. row_filter K ccmp b x i = Some True))"

definition matching_rows ::
  "arrow_api \<Rightarrow> (cmp_op \<Rightarrow> cell \<Rightarrow> cell \<Rightarrow> bool) \<Rightarrow> RecordBatch \<Rightarrow> FilterExpr \<Rightarrow> nat list" where
  "matching_rows K ccmp b f = filter (\<lambda>i. row_filter K ccmp b f i = Some True) [0..<num_rows b]"

section \<open>Masks agree with the meaning\<close>

lemma make_scalar_shape:
  "make_scalar v dt = Ok s \<Longrightarrow> array_type s = dt \<and> (\<exists>c. array_cells s = [Some c])"
  by (auto simp: make_scalar_def split: FilterValue.splits DataType.splits option.splits if_splits)

text \<open>The strict boolean kernels fold to the conjunction or disjunction of all operands.\<close>

lemma lift2_fold_and:
  "foldl (lift2 (\<and>)) v vs = (if None \<in> set (v # vs) then None else Some (\<forall>u \<in> set (v # vs). u = Some True))"
proof (induction vs arbitrary: v)
  case Nil
  then show ?case by (cases v) auto
next
  case (Cons a vs)
  then show ?case by (cases v; cases a) auto
qed

lemma lift2_fold_or:
  "foldl (lift2 (\<or>)) v vs = (if None \<in> set (v # vs) then None else Some (\<exists>u \<in> set (v # vs). u = Some True))"
proof (induction vs arbitrary: v)
  case Nil
  then show ?case by (cases v) auto
next
  case (Cons a vs)
  then show ?case by (cases v; cases a) auto
qed

lemma map2_lift2_upt:
  "map2 (lift2 f) (map g [0..<n]) (map h [0..<n]) = map (\<lambda>i. lift2 f (g i) (h i)) [0..<n]"
  by (rule nth_equalityI) auto

lemma fold_masks:
  assumes "\<And>p q. length p = length q \<Longrightarrow> k p q = Ok (map2 (lift2 f) p q)"
    "\<And>c. c \<in> set cs \<Longrightarrow> ev c = Ok (map (r c) [0..<n])"
  shows "foldM_result (\<lambda>acc c. accumulate k acc (ev c)) (Some (map g [0..<n])) cs =
    Ok (Some (map (\<lambda>i. foldl (lift2 f) (g i) (map (\<lambda>c. r c i) cs)) [0..<n]))"
  using assms(2)
  by (induction cs arbitrary: g) (simp_all add: accumulate_def assms(1) map2_lift2_upt)

lemma fold_masks_nonempty:
  assumes "\<And>p q. length p = length q \<Longrightarrow> k p q = Ok (map2 (lift2 f) p q)"
    "\<And>d. d \<in> set (c # cs) \<Longrightarrow> ev d = Ok (map (r d) [0..<n])"
  shows "finish_loop e (foldM_result (\<lambda>acc c. accumulate k acc (ev c)) None (c # cs)) =
    Ok (map (\<lambda>i. foldl (lift2 f) (r c i) (map (\<lambda>c. r c i) cs)) [0..<n])"
  using assms fold_masks [where k = k and f = f and ev = ev and r = r and cs = cs and g = "r c"]
  by (simp add: accumulate_def finish_loop_def)

lemma row_filter_and:
  "foldl (lift2 (\<and>)) (row_filter K ccmp b c i) (map (\<lambda>d. row_filter K ccmp b d i) cs) =
   row_filter K ccmp b (FAnd (c # cs)) i"
  unfolding lift2_fold_and by (simp add: image_iff eq_commute [of None])

lemma row_filter_or:
  "foldl (lift2 (\<or>)) (row_filter K ccmp b c i) (map (\<lambda>d. row_filter K ccmp b d i) cs) =
   row_filter K ccmp b (FOr (c # cs)) i"
  unfolding lift2_fold_or by (simp add: image_iff eq_commute [of None] eq_commute [of "Some True"])

lemma is_ok_unit: "is_ok r \<longleftrightarrow> r = Ok ()"
  by (cases r) auto

context arrow_laws
begin

lemma validated_leaf:
  assumes "batch_wf b" "validate_leaf K (schema b) c v = Ok ()"
  obtains a s x where "k_column_by_name K b c = Some a" "array_len a = num_rows b"
    "make_scalar v (array_type a) = Ok s" "array_type s = array_type a" "array_cells s = [Some x]"
proof -
  from assms(2) obtain i s where i: "k_index_of K (schema b) c = Some i"
    and s: "make_scalar v (f_type (sfields (schema b) ! i)) = Ok s"
    by (auto simp: validate_leaf_def field_with_name split: option.splits sum.splits)
  have lt: "i < length (sfields (schema b))" using index_of_Some [OF i] by simp
  note ty = batch_wf_nth(1) [OF assms(1) lt] and len = batch_wf_nth(2) [OF assms(1) lt]
  have col: "k_column_by_name K b c = Some (columns b ! i)"
    using i by (simp add: column_by_name [OF assms(1)])
  obtain x where "array_type s = array_type (columns b ! i)" "array_cells s = [Some x]"
    using make_scalar_shape [OF s] ty by auto
  with col len s ty show thesis by (intro that [of "columns b ! i" s x]) simp_all
qed

lemma cmp_arm_rows:
  assumes "batch_wf b" "validate_leaf K (schema b) c v = Ok ()"
    "(op, cop) \<in> set [(''eq'', CmpEq), (''ne'', CmpNe), (''gt'', CmpGt), (''gte'', CmpGte),
                   (''lt'', CmpLt), (''lte'', CmpLte)]"
  shows "cmp_arm K b c v op = Ok (map (cmp_meaning K ccmp b cop c v) [0..<num_rows b])"
proof -
  obtain a s x where a: "k_column_by_name K b c = Some a" "array_len a = num_rows b"
    and s: "make_scalar v (array_type a) = Ok s" "array_type s = array_type a" "array_cells s = [Some x]"
    using validated_leaf [OF assms(1,2)] by blast
  have k: "k_cmp K cop (DArray a) (DScalar s) = Ok (map (\<lambda>y. lift2 (ccmp cop) y (Some x)) (array_cells a))"
    using cmp_array_scalar [OF s(2) [symmetric] s(3)] .
  have "map (\<lambda>y. lift2 (ccmp cop) y (Some x)) (array_cells a) =
      map (cmp_meaning K ccmp b cop c v) [0..<num_rows b]"
    using a s by (auto simp: cmp_meaning_def array_len_def intro!: nth_equalityI)
  then show ?thesis using assms(3) a s k by (auto simp: cmp_arm_def pq_eval_cmp_def)
qed

lemma eval_filter_rows:
  assumes "batch_wf b" "filter_wf f" "validate_filter_types K (schema b) f = Ok ()"
  shows "eval_filter_on_batch K b f = Ok (map (row_filter K ccmp b f) [0..<num_rows b])"
  using assms(2,3)
proof (induction f rule: filter_wf.induct)
  case (1 xs)
  have v: "\<forall>x \<in> set xs. validate_filter_types K (schema b) x = Ok ()"
    and wf: "list_all filter_wf xs" "xs \<noteq> []"
    using "1.prems" by (simp_all add: is_ok_unit)
  then obtain c cs where xs: "xs = c # cs" by (cases xs) auto
  have ch: "\<And>d. d \<in> set (c # cs) \<Longrightarrow>
      eval_filter_on_batch K b d = Ok (map (row_filter K ccmp b d) [0..<num_rows b])"
    using "1.IH" v wf xs by (auto simp: list_all_iff)
  show ?case unfolding xs eval_filter_on_batch.simps
    by (subst fold_masks_nonempty [where f = "(\<and>)" and r = "row_filter K ccmp b"])
       (simp_all only: and_eq ch row_filter_and)
next
  case (2 xs)
  have v: "\<forall>x \<in> set xs. validate_filter_types K (schema b) x = Ok ()"
    and wf: "list_all filter_wf xs" "xs \<noteq> []"
    using "2.prems" by (simp_all add: is_ok_unit)
  then obtain c cs where xs: "xs = c # cs" by (cases xs) auto
  have ch: "\<And>d. d \<in> set (c # cs) \<Longrightarrow>
      eval_filter_on_batch K b d = Ok (map (row_filter K ccmp b d) [0..<num_rows b])"
    using "2.IH" v wf xs by (auto simp: list_all_iff)
  show ?case unfolding xs eval_filter_on_batch.simps
    by (subst fold_masks_nonempty [where f = "(\<or>)" and r = "row_filter K ccmp b"])
       (simp_all only: or_eq ch row_filter_or)
qed (simp_all add: cmp_arm_rows [OF assms(1)])

end

section \<open>Columns of a filter\<close>

fun filter_columns :: "FilterExpr \<Rightarrow> string set" where
  "filter_columns (FEq c v) = {c}"
| "filter_columns (FNe c v) = {c}"
| "filter_columns (FGt c v) = {c}"
| "filter_columns (FGte c v) = {c}"
| "filter_columns (FLt c v) = {c}"
| "filter_columns (FLte c v) = {c}"
| "filter_columns (FAnd xs) = (\<Union>x \<in> set xs. filter_columns x)"
| "filter_columns (FOr xs) = (\<Union>x \<in> set xs. filter_columns x)"

lemma fold_collect:
  assumes "\<And>x out. x \<in> set xs \<Longrightarrow> distinct out \<Longrightarrow>
      set (g x out) = set out \<union> h x \<and> distinct (g x out) \<and> take (length out) (g x out) = out"
    "distinct out"
  shows "set (fold g xs out) = set out \<union> (\<Union>x \<in> set xs. h x) \<and> distinct (fold g xs out) \<and>
    take (length out) (fold g xs out) = out"
  using assms
proof (induction xs arbitrary: out)
  case (Cons x xs)
  have g: "set (g x out) = set out \<union> h x" "distinct (g x out)" "take (length out) (g x out) = out"
    using Cons.prems by simp_all
  have IH: "set (fold g xs (g x out)) = set (g x out) \<union> (\<Union>x \<in> set xs. h x)"
    "distinct (fold g xs (g x out))" "take (length (g x out)) (fold g xs (g x out)) = g x out"
    using Cons.IH [of "g x out"] Cons.prems(1) g(2) by simp_all
  have "length out \<le> length (g x out)" using g(3) by (metis length_take min.cobounded1 min.commute)
  then have "take (length out) (fold g xs (g x out)) = take (length out) (g x out)"
    using IH(3) by (metis min.absorb1 take_take)
  then show ?case using IH g by auto
qed simp

lemma collect_filter_columns_spec:
  "distinct out \<Longrightarrow> set (collect_filter_columns f out) = set out \<union> filter_columns f \<and>
     distinct (collect_filter_columns f out) \<and> take (length out) (collect_filter_columns f out) = out"
proof (induction f out rule: collect_filter_columns.induct)
  case (7 xs out)
  then show ?case using fold_collect [of xs collect_filter_columns filter_columns out] by simp
next
  case (8 xs out)
  then show ?case using fold_collect [of xs collect_filter_columns filter_columns out] by simp
qed (auto simp: push_new_def)

section \<open>Properties\<close>


definition sample_filter :: FilterExpr where
  "sample_filter = FAnd [FGt ''id'' (FVInt 2), FEq ''flag'' (FVBool True)]"



end
