(* ===== verification/Parquet_Pruning.thy ===== *)
theory Parquet_Pruning
  imports Parquet_Filter
begin

text \<open>
  Row-group selection of the Parquet reader (\<open>parquet.rs\<close>, lines 510 to 711): column names are
  resolved to leaf columns, the min/max statistics of a row group decide whether it can hold a
  matching row, and \<open>apply_read_opts\<close> configures the reader.  The main result is that a row
  group that is skipped holds no matching row, when its statistics bound the column they are
  looked up for.
\<close>

section \<open>File metadata\<close>

datatype Statistics =
    StBoolean "bool option" "bool option"
  | StInt32 "int option" "int option"
  | StInt64 "int option" "int option"
  | StInt96
  | StFloat "f32 option" "f32 option"
  | StDouble "f64 option" "f64 option"
  | StByteArray "bytes option" "bytes option"
  | StFixedLenByteArray

record ColumnDescr =
  cd_name :: string
  cd_path :: string

record ColumnChunk =
  ck_path :: string
  ck_compression :: string
  ck_encodings :: "string list"
  ck_num_values :: int
  ck_statistics :: "Statistics option"

record RowGroup =
  rg_columns :: "ColumnChunk list"
  rg_num_rows :: int
  rg_total_byte_size :: int

record ParquetMetaData =
  md_num_rows :: int
  md_created_by :: "string option"
  md_key_value :: "(string \<times> string option) list option"
  md_schema_descr :: "ColumnDescr list"
  md_row_groups :: "RowGroup list"

section \<open>Statistics\<close>

definition parquet_leaf_index :: "ColumnDescr list \<Rightarrow> string \<Rightarrow> nat option" where
  "parquet_leaf_index sd name = position (\<lambda>c. cd_name c = name \<or> cd_path c = name) sd"

fun int_range_may_match :: "FilterExpr \<Rightarrow> int \<Rightarrow> int \<Rightarrow> int \<Rightarrow> bool" where
  "int_range_may_match (FEq _ _) mn mx val = (val \<ge> mn \<and> val \<le> mx)"
| "int_range_may_match (FNe _ _) mn mx val = True"
| "int_range_may_match (FGt _ _) mn mx val = (mx > val)"
| "int_range_may_match (FGte _ _) mn mx val = (mx \<ge> val)"
| "int_range_may_match (FLt _ _) mn mx val = (mn < val)"
| "int_range_may_match (FLte _ _) mn mx val = (mn \<le> val)"
| "int_range_may_match _ mn mx val = True"

fun float_range_may_match :: "FilterExpr \<Rightarrow> f64 \<Rightarrow> f64 \<Rightarrow> f64 \<Rightarrow> bool" where
  "float_range_may_match (FEq _ _) mn mx val = (fp_le mn val \<and> fp_le val mx)"
| "float_range_may_match (FNe _ _) mn mx val = True"
| "float_range_may_match (FGt _ _) mn mx val = fp_lt val mx"
| "float_range_may_match (FGte _ _) mn mx val = fp_le val mx"
| "float_range_may_match (FLt _ _) mn mx val = fp_lt mn val"
| "float_range_may_match (FLte _ _) mn mx val = fp_le mn val"
| "float_range_may_match _ mn mx val = True"

text \<open>The \<open>ByteArray\<close> arm of \<open>stats_may_match\<close>, after the lossy conversions.\<close>

fun string_range_may_match :: "FilterExpr \<Rightarrow> string \<Rightarrow> string \<Rightarrow> string \<Rightarrow> bool" where
  "string_range_may_match (FEq _ _) mn mx val = (str_le mn val \<and> str_le val mx)"
| "string_range_may_match (FNe _ _) mn mx val = True"
| "string_range_may_match (FGt _ _) mn mx val = str_lt val mx"
| "string_range_may_match (FGte _ _) mn mx val = str_le val mx"
| "string_range_may_match (FLt _ _) mn mx val = str_lt mn val"
| "string_range_may_match (FLte _ _) mn mx val = str_le mn val"
| "string_range_may_match _ mn mx val = True"

fun stats_may_match :: "Statistics \<Rightarrow> FilterExpr \<Rightarrow> FilterValue \<Rightarrow> bool" where
  "stats_may_match (StInt64 (Some mn) (Some mx)) expr (FVInt val) = int_range_may_match expr mn mx val"
| "stats_may_match (StInt32 (Some mn) (Some mx)) expr (FVInt val) = int_range_may_match expr mn mx val"
| "stats_may_match (StDouble (Some mn) (Some mx)) expr (FVFloat val) =
     float_range_may_match expr mn mx val"
| "stats_may_match (StFloat (Some mn) (Some mx)) expr (FVFloat val) =
     float_range_may_match expr (f32_as_f64 mn) (f32_as_f64 mx) val"
| "stats_may_match (StBoolean (Some mn) (Some mx)) expr (FVBool val) =
     int_range_may_match expr (of_bool mn) (of_bool mx) (of_bool val)"
| "stats_may_match (StByteArray (Some mn) (Some mx)) expr (FVUtf8 val) =
     string_range_may_match expr (from_utf8_lossy mn) (from_utf8_lossy mx) val"
| "stats_may_match _ expr v = True"

text \<open>
  \<open>Iterator::all\<close>, \<open>Iterator::any\<close> and \<open>Vec::retain\<close> with a body that may panic; a panic
  is the error \<open>PqPanic\<close>, and \<open>all\<close> and \<open>any\<close> stop at the first decisive element.
\<close>

fun iter_all :: "('a \<Rightarrow> (bool, 'e) result) \<Rightarrow> 'a list \<Rightarrow> (bool, 'e) result" where
  "iter_all p [] = Ok True"
| "iter_all p (x # xs) = (case p x of Err e \<Rightarrow> Err e | Ok v \<Rightarrow> if v then iter_all p xs else Ok False)"

fun iter_any :: "('a \<Rightarrow> (bool, 'e) result) \<Rightarrow> 'a list \<Rightarrow> (bool, 'e) result" where
  "iter_any p [] = Ok False"
| "iter_any p (x # xs) = (case p x of Err e \<Rightarrow> Err e | Ok v \<Rightarrow> if v then Ok True else iter_any p xs)"

fun retain :: "('a \<Rightarrow> (bool, 'e) result) \<Rightarrow> 'a list \<Rightarrow> ('a list, 'e) result" where
  "retain p [] = Ok []"
| "retain p (x # xs) =
     (case p x of
        Err e \<Rightarrow> Err e
      | Ok v \<Rightarrow> (case retain p xs of Err e \<Rightarrow> Err e | Ok ys \<Rightarrow> Ok (if v then x # ys else ys)))"

lemma iter_all_cong [fundef_cong]:
  "xs = ys \<Longrightarrow> (\<And>x. x \<in> set ys \<Longrightarrow> f x = g x) \<Longrightarrow> iter_all f xs = iter_all g ys"
  by (induction ys arbitrary: xs) (auto split: sum.splits)

lemma iter_any_cong [fundef_cong]:
  "xs = ys \<Longrightarrow> (\<And>x. x \<in> set ys \<Longrightarrow> f x = g x) \<Longrightarrow> iter_any f xs = iter_any g ys"
  by (induction ys arbitrary: xs) (auto split: sum.splits)

lemma iter_all_total:
  "(\<And>x. x \<in> set xs \<Longrightarrow> f x = Ok (g x)) \<Longrightarrow> iter_all f xs = Ok (\<forall>x \<in> set xs. g x)"
  by (induction xs) auto

lemma iter_any_total:
  "(\<And>x. x \<in> set xs \<Longrightarrow> f x = Ok (g x)) \<Longrightarrow> iter_any f xs = Ok (\<exists>x \<in> set xs. g x)"
  by (induction xs) auto

lemma retain_total: "(\<And>x. x \<in> set xs \<Longrightarrow> f x = Ok (g x)) \<Longrightarrow> retain f xs = Ok (filter g xs)"
  by (induction xs) auto

text \<open>
  The comparison arm of \<open>row_group_may_match\<close>; \<open>metadata.row_group(rg_idx)\<close> indexes the row
  groups and panics out of range.
\<close>

definition leaf_may_match ::
  "ParquetMetaData \<Rightarrow> nat \<Rightarrow> ColumnDescr list \<Rightarrow> FilterExpr \<Rightarrow> string \<Rightarrow> FilterValue \<Rightarrow>
   (bool, parquet_error) result" where
  "leaf_may_match md rg_idx sd expr col v =
     (case parquet_leaf_index sd col of
        None \<Rightarrow> Ok True
      | Some leaf_idx \<Rightarrow>
          if length (md_row_groups md) \<le> rg_idx then Err PqPanic
          else let rg = md_row_groups md ! rg_idx in
            if length (rg_columns rg) \<le> leaf_idx then Ok True
            else (case ck_statistics (rg_columns rg ! leaf_idx) of
                    None \<Rightarrow> Ok True
                  | Some stats \<Rightarrow> Ok (stats_may_match stats expr v)))"

fun row_group_may_match ::
  "ParquetMetaData \<Rightarrow> nat \<Rightarrow> ColumnDescr list \<Rightarrow> FilterExpr \<Rightarrow> (bool, parquet_error) result" where
  "row_group_may_match md i sd (FAnd xs) = iter_all (row_group_may_match md i sd) xs"
| "row_group_may_match md i sd (FOr xs) = iter_any (row_group_may_match md i sd) xs"
| "row_group_may_match md i sd (FEq col v) = leaf_may_match md i sd (FEq col v) col v"
| "row_group_may_match md i sd (FNe col v) = leaf_may_match md i sd (FNe col v) col v"
| "row_group_may_match md i sd (FGt col v) = leaf_may_match md i sd (FGt col v) col v"
| "row_group_may_match md i sd (FGte col v) = leaf_may_match md i sd (FGte col v) col v"
| "row_group_may_match md i sd (FLt col v) = leaf_may_match md i sd (FLt col v) col v"
| "row_group_may_match md i sd (FLte col v) = leaf_may_match md i sd (FLte col v) col v"

section \<open>The read plan\<close>

text \<open>
  A \<open>ParquetRecordBatchReaderBuilder\<close>: what was parsed from the file and the settings chained
  onto it.  A projection mask is represented by the column names it is built from.
\<close>

record ReaderBuilder =
  rb_metadata :: ParquetMetaData
  rb_schema :: Schema
  rb_row_groups :: "nat list option"
  rb_projection :: "string list option"
  rb_row_filter :: "(string list \<times> FilterExpr) option"

definition resolve_row_groups :: "nat \<Rightarrow> nat list option \<Rightarrow> (nat list, parquet_error) result" where
  "resolve_row_groups n_groups sel =
     (case sel of
        Some rg \<Rightarrow>
          (case try_each (\<lambda>i. if i \<ge> n_groups then Err (RowGroupOutOfRange i n_groups) else Ok ()) rg of
             Err e \<Rightarrow> Err e | Ok _ \<Rightarrow> Ok rg)
      | None \<Rightarrow> Ok [0..<n_groups])"

definition apply_read_opts ::
  "arrow_api \<Rightarrow> ReaderBuilder \<Rightarrow> ReadOpts \<Rightarrow>
   (ReaderBuilder \<times> nat \<times> nat \<times> nat, parquet_error) result" where
  "apply_read_opts K builder opts =
     (let md = rb_metadata builder; n_groups = length (md_row_groups md) in
      case (case ro_filter opts of
              None \<Rightarrow> Ok () | Some flt \<Rightarrow> validate_filter_types K (rb_schema builder) flt) of
        Err e \<Rightarrow> Err e
      | Ok _ \<Rightarrow>
      (case resolve_row_groups n_groups (ro_row_groups opts) of
         Err e \<Rightarrow> Err e
       | Ok requested \<Rightarrow>
      (case (case ro_filter opts of
               None \<Rightarrow> Ok requested
             | Some flt \<Rightarrow> retain (\<lambda>i. row_group_may_match md i (md_schema_descr md) flt) requested) of
         Err e \<Rightarrow> Err e
       | Ok selected \<Rightarrow>
           let builder1 = builder\<lparr>rb_row_groups := Some selected\<rparr>;
               builder2 = (case ro_columns opts of
                             None \<Rightarrow> builder1
                           | Some cols \<Rightarrow> builder1\<lparr>rb_projection := Some cols\<rparr>);
               builder3 = (case ro_filter opts of
                             None \<Rightarrow> builder2
                           | Some flt \<Rightarrow>
                               builder2\<lparr>rb_row_filter := Some (collect_filter_columns flt [], flt)\<rparr>)
           in Ok (builder3, n_groups, length selected, n_groups - length selected))))"

section \<open>Range tests over a bounded order\<close>

text \<open>
  The three range tests have one shape.  Over an order that is total on a domain, a value that
  lies between the bounds and satisfies the comparison passes the test.
\<close>

fun range_test :: "('a \<Rightarrow> 'a \<Rightarrow> bool) \<Rightarrow> ('a \<Rightarrow> 'a \<Rightarrow> bool) \<Rightarrow> cmp_op \<Rightarrow> 'a \<Rightarrow> 'a \<Rightarrow> 'a \<Rightarrow> bool" where
  "range_test lt le CmpEq mn mx v = (le mn v \<and> le v mx)"
| "range_test lt le CmpNe mn mx v = True"
| "range_test lt le CmpGt mn mx v = lt v mx"
| "range_test lt le CmpGte mn mx v = le v mx"
| "range_test lt le CmpLt mn mx v = lt mn v"
| "range_test lt le CmpLte mn mx v = le mn v"

locale bounded_order =
  fixes lt :: "'a \<Rightarrow> 'a \<Rightarrow> bool" and le :: "'a \<Rightarrow> 'a \<Rightarrow> bool" and D :: "'a \<Rightarrow> bool"
  assumes le_trans: "le x y \<Longrightarrow> le y z \<Longrightarrow> le x z"
    and le_lt_trans: "le x y \<Longrightarrow> lt y z \<Longrightarrow> lt x z"
    and lt_le_trans: "lt x y \<Longrightarrow> le y z \<Longrightarrow> lt x z"
    and not_lt: "D x \<Longrightarrow> D y \<Longrightarrow> \<not> lt x y \<longleftrightarrow> le y x"
begin

lemma matching_value_passes:
  assumes "D x" "D v" "le mn x" "le x mx" "cmp_by lt op x v"
  shows "range_test lt le op mn mx v"
  using assms not_lt [of x v] not_lt [of v x]
  by (cases op) (auto intro: le_trans le_lt_trans lt_le_trans)

end

interpretation ints: bounded_order "(<) :: int \<Rightarrow> int \<Rightarrow> bool" "(\<le>)" "\<lambda>_. True"
  by unfold_locales auto

interpretation bools: bounded_order "(<) :: bool \<Rightarrow> bool \<Rightarrow> bool" "(\<le>)" "\<lambda>_. True"
  by unfold_locales auto

interpretation floats: bounded_order fp_lt fp_le "\<lambda>x. x \<noteq> FNaN"
  by unfold_locales (auto intro: fp_le_trans fp_le_lt_trans fp_lt_le_trans simp: not_fp_lt)

interpretation strings: bounded_order str_lt str_le "\<lambda>_. True"
  by unfold_locales (auto intro: str_le_trans str_le_lt_trans str_lt_le_trans simp: not_str_lt)

fun leaf_op :: "FilterExpr \<Rightarrow> (cmp_op \<times> string \<times> FilterValue) option" where
  "leaf_op (FEq c v) = Some (CmpEq, c, v)"
| "leaf_op (FNe c v) = Some (CmpNe, c, v)"
| "leaf_op (FGt c v) = Some (CmpGt, c, v)"
| "leaf_op (FGte c v) = Some (CmpGte, c, v)"
| "leaf_op (FLt c v) = Some (CmpLt, c, v)"
| "leaf_op (FLte c v) = Some (CmpLte, c, v)"
| "leaf_op _ = None"

lemma range_tests:
  assumes "leaf_op f = Some (op, c, v)"
  shows "int_range_may_match f mn mx i = range_test (<) (\<le>) op mn mx i"
    "float_range_may_match f x y z = range_test fp_lt fp_le op x y z"
    "string_range_may_match f p q r = range_test str_lt str_le op p q r"
  using assms by (cases f; simp)+

lemma int_range_of_bool:
  "leaf_op f = Some (op, c, v) \<Longrightarrow>
   int_range_may_match f (of_bool mn) (of_bool mx) (of_bool b) = range_test (<) (\<le>) op mn mx b"
  by (cases f; cases mn; cases mx; cases b) auto

section \<open>Statistics that bound a column\<close>

text \<open>
  What the Parquet format promises of the statistics of a column chunk: the minimum and maximum
  bound every non-null value.  For floats the promise excludes NaN.
\<close>

fun cell_in_stats :: "Statistics \<Rightarrow> cell \<Rightarrow> bool" where
  "cell_in_stats (StInt64 (Some mn) (Some mx)) (CInt v) = (mn \<le> v \<and> v \<le> mx)"
| "cell_in_stats (StInt32 (Some mn) (Some mx)) (CInt v) = (mn \<le> v \<and> v \<le> mx)"
| "cell_in_stats (StBoolean (Some mn) (Some mx)) (CBool v) = (mn \<le> v \<and> v \<le> mx)"
| "cell_in_stats (StDouble (Some mn) (Some mx)) (CFloat x) = (x \<noteq> FNaN \<longrightarrow> fp_le mn x \<and> fp_le x mx)"
| "cell_in_stats (StFloat (Some mn) (Some mx)) (CFloat x) = (x \<noteq> FNaN \<longrightarrow> fp_le mn x \<and> fp_le x mx)"
| "cell_in_stats (StByteArray (Some mn) (Some mx)) (CStr s) = (str_le mn s \<and> str_le s mx)"
| "cell_in_stats _ _ = True"

text \<open>
  The values of a column have the shape of its type; a Parquet column of one of the filterable
  types has statistics of the matching physical type.
\<close>

fun stats_fit :: "DataType \<Rightarrow> Statistics \<Rightarrow> bool" where
  "stats_fit DInt64 s = (case s of StInt64 _ _ \<Rightarrow> True | _ \<Rightarrow> False)"
| "stats_fit DInt32 s = (case s of StInt32 _ _ \<Rightarrow> True | _ \<Rightarrow> False)"
| "stats_fit DFloat64 s = (case s of StDouble _ _ \<Rightarrow> True | _ \<Rightarrow> False)"
| "stats_fit DFloat32 s = (case s of StFloat _ _ \<Rightarrow> True | _ \<Rightarrow> False)"
| "stats_fit DUtf8 s = (case s of StByteArray _ _ \<Rightarrow> True | _ \<Rightarrow> False)"
| "stats_fit DBoolean s = (case s of StBoolean _ _ \<Rightarrow> True | _ \<Rightarrow> False)"
| "stats_fit _ s = True"

fun cell_fits :: "DataType \<Rightarrow> cell \<Rightarrow> bool" where
  "cell_fits DInt64 c = (case c of CInt _ \<Rightarrow> True | _ \<Rightarrow> False)"
| "cell_fits DInt32 c = (case c of CInt _ \<Rightarrow> True | _ \<Rightarrow> False)"
| "cell_fits DFloat64 c = (case c of CFloat _ \<Rightarrow> True | _ \<Rightarrow> False)"
| "cell_fits DFloat32 c = (case c of CFloat _ \<Rightarrow> True | _ \<Rightarrow> False)"
| "cell_fits DUtf8 c = (case c of CStr _ \<Rightarrow> True | _ \<Rightarrow> False)"
| "cell_fits DBoolean c = (case c of CBool _ \<Rightarrow> True | _ \<Rightarrow> False)"
| "cell_fits _ c = True"

text \<open>Byte-array bounds that are valid UTF-8, as a writer that truncates at characters leaves them.\<close>

fun stats_utf8 :: "Statistics \<Rightarrow> bool" where
  "stats_utf8 (StByteArray (Some mn) (Some mx)) = (utf8_valid mn \<and> utf8_valid mx)"
| "stats_utf8 _ = True"

text \<open>No NaN in a float column, and no zero or non-finite float literal in the filter.\<close>

definition no_nan :: "Arr \<Rightarrow> bool" where
  "no_nan a \<longleftrightarrow> Some (CFloat FNaN) \<notin> set (array_cells a)"

fun literal_ok :: "FilterValue \<Rightarrow> bool" where
  "literal_ok (FVFloat f) = (is_finite f \<and> fp_val f \<noteq> 0)"
| "literal_ok _ = True"

fun literals_ok :: "FilterExpr \<Rightarrow> bool" where
  "literals_ok (FAnd xs) = list_all literals_ok xs"
| "literals_ok (FOr xs) = list_all literals_ok xs"
| "literals_ok (FEq c v) = literal_ok v"
| "literals_ok (FNe c v) = literal_ok v"
| "literals_ok (FGt c v) = literal_ok v"
| "literals_ok (FGte c v) = literal_ok v"
| "literals_ok (FLt c v) = literal_ok v"
| "literals_ok (FLte c v) = literal_ok v"

definition stats_bound :: "Statistics \<Rightarrow> Arr \<Rightarrow> bool" where
  "stats_bound st a \<longleftrightarrow> stats_fit (array_type a) st \<and> stats_utf8 st \<and> no_nan a \<and>
     (\<forall>c. Some c \<in> set (array_cells a) \<longrightarrow> cell_fits (array_type a) c \<and> cell_in_stats st c)"

lemma make_scalar_cases:
  assumes "make_scalar v dt = Ok s" "array_cells s = [Some y]"
  obtains (int) i where "v = FVInt i" "dt = DInt64 \<or> dt = DInt32" "y = CInt i"
  | (double) f where "v = FVFloat f" "dt = DFloat64" "y = CFloat f"
  | (single) f where "v = FVFloat f" "dt = DFloat32" "y = CFloat (f64_as_f32 f)" "fp_eq (f64_as_f32 f) f"
  | (str) w where "v = FVUtf8 w" "dt = DUtf8" "y = CStr w"
  | (bool) b where "v = FVBool b" "dt = DBoolean" "y = CBool b"
  | (int_double) i where "v = FVInt i" "dt = DFloat64"
  using assms
  by (cases v; cases dt) (auto simp: make_scalar_def split: option.splits if_splits)

lemma fp_lt_eq_cong:
  assumes "fp_eq y f"
  shows "fp_lt x y = fp_lt x f" "fp_lt y x = fp_lt f x"
proof -
  have "fp_le y f" "fp_le f y" using assms by (cases y; cases f; auto simp: fp_le_def min.commute)+
  then show "fp_lt x y = fp_lt x f" "fp_lt y x = fp_lt f x"
    by (meson fp_lt_le_trans fp_le_lt_trans)+
qed

lemma f32_literal:
  assumes "is_finite f" "fp_val f \<noteq> 0" "fp_eq (f64_as_f32 f) f"
  shows "is_finite (f64_as_f32 f) \<and> fp_val (f64_as_f32 f) \<noteq> 0"
proof -
  have "is_finite (f64_as_f32 f)" using assms(1,3) by (cases f; cases "f64_as_f32 f") auto
  then show ?thesis using assms fp_eq_fin by simp
qed

text \<open>
  The statistics test, seen from a cell: it passes as soon as the range test passes for every
  pair of bounds the cell lies between.
\<close>

lemma int_stats_pass:
  assumes "stats_fit dt st" "dt = DInt64 \<or> dt = DInt32" "cell_in_stats st (CInt z)"
    "\<And>p q. p \<le> z \<Longrightarrow> z \<le> q \<Longrightarrow> int_range_may_match f p q i"
  shows "stats_may_match st f (FVInt i)"
  using assms by (cases "(st, f, FVInt i)" rule: stats_may_match.cases) auto

lemma float_stats_pass:
  assumes "stats_fit dt st" "dt = DFloat64 \<or> dt = DFloat32" "cell_in_stats st (CFloat z)" "z \<noteq> FNaN"
    "\<And>p q. fp_le p z \<Longrightarrow> fp_le z q \<Longrightarrow> float_range_may_match f p q x"
  shows "stats_may_match st f (FVFloat x)"
  using assms by (cases "(st, f, FVFloat x)" rule: stats_may_match.cases) auto

lemma str_stats_pass:
  assumes "stats_fit DUtf8 st" "stats_utf8 st" "cell_in_stats st (CStr z)"
    "\<And>p q. str_le p z \<Longrightarrow> str_le z q \<Longrightarrow> string_range_may_match f p q w"
  shows "stats_may_match st f (FVUtf8 w)"
  using assms by (cases "(st, f, FVUtf8 w)" rule: stats_may_match.cases) (auto simp: from_utf8_lossy_id)

lemma bool_stats_pass:
  assumes "stats_fit DBoolean st" "cell_in_stats st (CBool z)"
    "\<And>p q. p \<le> z \<Longrightarrow> z \<le> q \<Longrightarrow> int_range_may_match f (of_bool p) (of_bool q) (of_bool b)"
  shows "stats_may_match st f (FVBool b)"
  using assms by (cases "(st, f, FVBool b)" rule: stats_may_match.cases) auto

lemma double_stats_int: "stats_fit DFloat64 st \<Longrightarrow> stats_may_match st f (FVInt i)"
  by (cases st) auto

context arrow_order
begin

lemma cell_passes:
  assumes "leaf_op f = Some (op, c, v)" "stats_fit dt st" "cell_fits dt x" "cell_in_stats st x"
    "stats_utf8 st" "x \<noteq> CFloat FNaN" "literal_ok v" "make_scalar v dt = Ok s"
    "array_cells s = [Some y]" "ccmp op x y"
  shows "stats_may_match st f v"
  using assms(8,9)
proof (cases rule: make_scalar_cases)
  case (int i)
  then obtain z where x: "x = CInt z" using assms(3) by (cases x) auto
  have "cmp_by (<) op z i" using assms(10) by (simp add: x int(3) ccmp_int)
  then show ?thesis unfolding int(1) using assms(2,4) int(2)
    by (intro int_stats_pass [of dt st z])
       (simp_all add: x range_tests [OF assms(1)] ints.matching_value_passes)
next
  case (double g)
  then have g: "g \<noteq> FNaN" "is_finite g" "fp_val g \<noteq> 0" using assms(7) by auto
  obtain z where x: "x = CFloat z" "z \<noteq> FNaN" using assms(3,6) double by (cases x) auto
  have "cmp_by fp_lt op z g" using assms(10) by (simp add: x double(3) ccmp_float g)
  then show ?thesis unfolding double(1) using assms(2,4) double(2)
    by (intro float_stats_pass [of dt st z])
       (simp_all add: x range_tests [OF assms(1)] floats.matching_value_passes [OF x(2) g(1)])
next
  case (single g)
  then have g: "g \<noteq> FNaN" "is_finite (f64_as_f32 g)" "fp_val (f64_as_f32 g) \<noteq> 0"
    using assms(7) f32_literal by auto
  obtain z where x: "x = CFloat z" "z \<noteq> FNaN" using assms(3,6) single by (cases x) auto
  have "cmp_by fp_lt op z (f64_as_f32 g)" using assms(10) by (simp add: x single(3) ccmp_float g)
  moreover have "cmp_by fp_lt op z (f64_as_f32 g) = cmp_by fp_lt op z g"
    using fp_lt_eq_cong [OF single(4)] by (rule cmp_by_cong)
  ultimately show ?thesis unfolding single(1) using assms(2,4) single(2)
    by (intro float_stats_pass [of dt st z])
       (simp_all add: x range_tests [OF assms(1)] floats.matching_value_passes [OF x(2) g(1)])
next
  case (str w)
  then obtain z where x: "x = CStr z" using assms(3) by (cases x) auto
  have "cmp_by str_lt op z w" using assms(10) by (simp add: x str(3) ccmp_str)
  then show ?thesis unfolding str(1) using assms(2,4,5) str(2)
    by (intro str_stats_pass [of st z])
       (simp_all add: x range_tests [OF assms(1)] strings.matching_value_passes)
next
  case (bool b)
  then obtain z where x: "x = CBool z" using assms(3) by (cases x) auto
  have "cmp_by (<) op z b" using assms(10) by (simp add: x bool(3) ccmp_bool)
  then show ?thesis unfolding bool(1) using assms(2,4) bool(2)
    by (intro bool_stats_pass [of st z])
       (simp_all add: x int_range_of_bool [OF assms(1)] bools.matching_value_passes)
next
  case (int_double i)
  then show ?thesis using assms(2) by (simp add: double_stats_int)
qed

end

definition stats_sound ::
  "arrow_api \<Rightarrow> ParquetMetaData \<Rightarrow> nat \<Rightarrow> RecordBatch \<Rightarrow> FilterExpr \<Rightarrow> bool" where
  "stats_sound K md i b f \<longleftrightarrow>
     (\<forall>c l st a. c \<in> filter_columns f \<longrightarrow> parquet_leaf_index (md_schema_descr md) c = Some l \<longrightarrow>
        l < length (rg_columns (md_row_groups md ! i)) \<longrightarrow>
        ck_statistics (rg_columns (md_row_groups md ! i) ! l) = Some st \<longrightarrow>
        k_column_by_name K b c = Some a \<longrightarrow> stats_bound st a)"

lemma leaf_may_match_total:
  "i < length (md_row_groups md) \<Longrightarrow> \<exists>v. leaf_may_match md i sd f c w = Ok v"
  by (auto simp: leaf_may_match_def Let_def split: option.splits)

definition may_match :: "ParquetMetaData \<Rightarrow> nat \<Rightarrow> ColumnDescr list \<Rightarrow> FilterExpr \<Rightarrow> bool" where
  "may_match md i sd f \<longleftrightarrow> row_group_may_match md i sd f = Ok True"

lemma row_group_may_match_total:
  assumes "i < length (md_row_groups md)"
  shows "row_group_may_match md i sd f = Ok (may_match md i sd f)"
proof -
  have "\<exists>v. row_group_may_match md i sd f = Ok v"
  proof (induction f rule: filter_wf.induct)
    case (1 xs)
    then obtain g where "\<And>x. x \<in> set xs \<Longrightarrow> row_group_may_match md i sd x = Ok (g x)" by metis
    then show ?case by (simp add: iter_all_total [of xs _ g])
  next
    case (2 xs)
    then obtain g where "\<And>x. x \<in> set xs \<Longrightarrow> row_group_may_match md i sd x = Ok (g x)" by metis
    then show ?case by (simp add: iter_any_total [of xs _ g])
  qed (simp_all add: leaf_may_match_total [OF assms])
  then show ?thesis by (auto simp: may_match_def)
qed

lemma may_match_simps:
  assumes "i < length (md_row_groups md)"
  shows "may_match md i sd (FAnd xs) \<longleftrightarrow> (\<forall>x \<in> set xs. may_match md i sd x)"
    "may_match md i sd (FOr xs) \<longleftrightarrow> (\<exists>x \<in> set xs. may_match md i sd x)"
proof -
  note t = row_group_may_match_total [OF assms]
  show "may_match md i sd (FAnd xs) \<longleftrightarrow> (\<forall>x \<in> set xs. may_match md i sd x)"
    using iter_all_total [of xs "row_group_may_match md i sd" "may_match md i sd"] t by (simp add: may_match_def [of _ _ _ "FAnd xs"])
  show "may_match md i sd (FOr xs) \<longleftrightarrow> (\<exists>x \<in> set xs. may_match md i sd x)"
    using iter_any_total [of xs "row_group_may_match md i sd" "may_match md i sd"] t by (simp add: may_match_def [of _ _ _ "FOr xs"])
qed

lemma leaf_may_matchI:
  assumes "i < length (md_row_groups md)"
    "\<And>l st. parquet_leaf_index sd c = Some l \<Longrightarrow> l < length (rg_columns (md_row_groups md ! i)) \<Longrightarrow>
       ck_statistics (rg_columns (md_row_groups md ! i) ! l) = Some st \<Longrightarrow> stats_may_match st f v"
  shows "leaf_may_match md i sd f c v = Ok True"
  using assms by (auto simp: leaf_may_match_def Let_def split: option.splits)

context arrow_order
begin

lemma cmp_meaning_true:
  assumes "batch_wf b" "cmp_meaning K ccmp b op c v r = Some True" "r < num_rows b"
  obtains a s x y where "k_column_by_name K b c = Some a" "make_scalar v (array_type a) = Ok s"
    "array_cells s = [Some y]" "Some x \<in> set (array_cells a)" "ccmp op x y"
proof -
  from assms(2) obtain a s x y where a: "k_column_by_name K b c = Some a"
    and s: "make_scalar v (array_type a) = Ok s" and x: "array_cells a ! r = Some x"
    and y: "array_cells s ! 0 = Some y" "ccmp op x y"
    by (auto simp: cmp_meaning_def lift2_eq_Some split: option.splits sum.splits)
  from a obtain k where "k_index_of K (schema b) c = Some k" "a = columns b ! k"
    by (auto simp: column_by_name [OF assms(1)])
  then have "array_len a = num_rows b" using batch_wf_nth(2) [OF assms(1)] index_of_Some by blast
  then have "Some x \<in> set (array_cells a)" using x assms(3) by (metis array_len_def nth_mem)
  moreover have "array_cells s = [Some y]" using make_scalar_shape [OF s] y by auto
  ultimately show thesis using that a s y by blast
qed

lemma leaf_match_kept:
  assumes "batch_wf b" "i < length (md_row_groups md)" "stats_sound K md i b f"
    "leaf_op f = Some (op, c, v)" "literal_ok v" "r < num_rows b"
    "cmp_meaning K ccmp b op c v r = Some True"
  shows "leaf_may_match md i (md_schema_descr md) f c v = Ok True"
proof (rule leaf_may_matchI [OF assms(2)])
  fix l st
  assume l: "parquet_leaf_index (md_schema_descr md) c = Some l"
    "l < length (rg_columns (md_row_groups md ! i))"
    "ck_statistics (rg_columns (md_row_groups md ! i) ! l) = Some st"
  obtain a s x y where a: "k_column_by_name K b c = Some a" and s: "make_scalar v (array_type a) = Ok s"
    "array_cells s = [Some y]" and x: "Some x \<in> set (array_cells a)" "ccmp op x y"
    by (rule cmp_meaning_true [OF assms(1,7,6)])
  have "c \<in> filter_columns f" using assms(4) by (cases f) auto
  then have "stats_bound st a" using assms(3) l a by (auto simp: stats_sound_def)
  then show "stats_may_match st f v" using x s assms(4,5)
    by (intro cell_passes [of f op c v "array_type a" st x s y]) (auto simp: stats_bound_def no_nan_def)
qed

lemma match_kept:
  assumes "batch_wf b" "i < length (md_row_groups md)" "r < num_rows b"
  shows "literals_ok f \<Longrightarrow> stats_sound K md i b f \<Longrightarrow> row_filter K ccmp b f r = Some True \<Longrightarrow>
    may_match md i (md_schema_descr md) f"
proof (induction f rule: filter_wf.induct)
  case (1 xs)
  have "stats_sound K md i b x" if "x \<in> set xs" for x
    using "1.prems"(2) that unfolding stats_sound_def by auto
  then show ?case using 1 by (auto simp: may_match_simps [OF assms(2)] list_all_iff split: if_splits)
next
  case (2 xs)
  have "stats_sound K md i b x" if "x \<in> set xs" for x
    using "2.prems"(2) that unfolding stats_sound_def by auto
  then show ?case using 2 by (auto simp: may_match_simps [OF assms(2)] list_all_iff split: if_splits)
qed (use assms in \<open>auto simp: may_match_def intro!: leaf_match_kept\<close>)

lemma pruned_group_empty:
  assumes "batch_wf b" "i < length (md_row_groups md)" "literals_ok f" "stats_sound K md i b f"
    "\<not> may_match md i (md_schema_descr md) f"
  shows "matching_rows K ccmp b f = []"
  using match_kept [OF assms(1,2) _ assms(3,4)] assms(5)
  by (auto simp: matching_rows_def filter_empty_conv)

end

section \<open>The plan\<close>

lemma resolve_row_groups_iff:
  "resolve_row_groups n sel = Ok is \<longleftrightarrow>
     (case sel of None \<Rightarrow> is = [0..<n] | Some rg \<Rightarrow> is = rg \<and> (\<forall>i \<in> set rg. i < n))"
  by (force simp: resolve_row_groups_def not_less dest!: try_each_ErrD
            split: option.splits sum.splits if_splits)

lemma resolve_row_groups_range: "resolve_row_groups n sel = Ok is \<Longrightarrow> i \<in> set is \<Longrightarrow> i < n"
  by (auto simp: resolve_row_groups_iff split: option.splits)

definition keep_groups :: "ParquetMetaData \<Rightarrow> ReadOpts \<Rightarrow> nat list \<Rightarrow> nat list" where
  "keep_groups md opts is =
     (case ro_filter opts of None \<Rightarrow> is
      | Some f \<Rightarrow> filter (\<lambda>i. may_match md i (md_schema_descr md) f) is)"

definition filter_valid :: "arrow_api \<Rightarrow> Schema \<Rightarrow> ReadOpts \<Rightarrow> bool" where
  "filter_valid K s opts \<longleftrightarrow>
     (case ro_filter opts of None \<Rightarrow> True | Some f \<Rightarrow> validate_filter_types K s f = Ok ())"

text \<open>What \<open>apply_read_opts\<close> returns, and when.\<close>

lemma retain_may_match:
  "(\<And>i. i \<in> set is \<Longrightarrow> i < length (md_row_groups md)) \<Longrightarrow>
   retain (\<lambda>i. row_group_may_match md i sd f) is = Ok (filter (\<lambda>i. may_match md i sd f) is)"
  by (rule retain_total) (simp add: row_group_may_match_total)

lemma apply_read_opts_Ok:
  assumes "filter_valid K (rb_schema B) opts"
    "resolve_row_groups (length (md_row_groups (rb_metadata B))) (ro_row_groups opts) = Ok requested"
  shows "\<exists>plan. apply_read_opts K B opts =
      Ok (plan, length (md_row_groups (rb_metadata B)),
          length (keep_groups (rb_metadata B) opts requested),
          length (md_row_groups (rb_metadata B)) - length (keep_groups (rb_metadata B) opts requested)) \<and>
    rb_row_groups plan = Some (keep_groups (rb_metadata B) opts requested) \<and>
    rb_projection plan = (case ro_columns opts of None \<Rightarrow> rb_projection B | Some cs \<Rightarrow> Some cs) \<and>
    rb_row_filter plan =
      (case ro_filter opts of None \<Rightarrow> rb_row_filter B | Some f \<Rightarrow> Some (collect_filter_columns f [], f))"
  using assms retain_may_match [OF resolve_row_groups_range [OF assms(2)]]
  by (auto simp: apply_read_opts_def Let_def filter_valid_def keep_groups_def
           split: option.splits)

lemma make_scalar_no_panic: "make_scalar v dt \<noteq> Err PqPanic"
  by (auto simp: make_scalar_def split: FilterValue.splits DataType.splits option.splits)

lemma validate_leaf_no_panic: "validate_leaf K s c v \<noteq> Err PqPanic"
  using make_scalar_no_panic by (auto simp: validate_leaf_def split: option.splits sum.splits)

lemma validate_no_panic: "validate_filter_types K s f \<noteq> Err PqPanic"
  by (induction f rule: filter_wf.induct)
     (use validate_leaf_no_panic in \<open>auto dest!: try_each_ErrD\<close>)

lemma resolve_no_panic: "resolve_row_groups n sel \<noteq> Err PqPanic"
  by (auto simp: resolve_row_groups_def dest!: try_each_ErrD split: option.splits sum.splits if_splits)

lemma apply_read_opts_Err:
  "\<not> filter_valid K (rb_schema B) opts \<or>
   \<not> is_ok (resolve_row_groups (length (md_row_groups (rb_metadata B))) (ro_row_groups opts)) \<Longrightarrow>
   \<exists>e. apply_read_opts K B opts = Err e \<and> e \<noteq> PqPanic"
  using validate_no_panic [of K "rb_schema B"] resolve_no_panic
  by (auto simp: apply_read_opts_def filter_valid_def is_ok_def Let_def
           split: option.splits sum.splits)

section \<open>Properties\<close>



text \<open>A file with one integer column in two row groups, the second holding \<open>sample_batch\<close>.\<close>

definition id_chunk :: "int \<Rightarrow> int \<Rightarrow> ColumnChunk" where
  "id_chunk mn mx =
     \<lparr>ck_path = ''id'', ck_compression = ''SNAPPY'', ck_encodings = [''PLAIN''], ck_num_values = 3,
      ck_statistics = Some (StInt64 (Some mn) (Some mx))\<rparr>"

definition sample_metadata :: ParquetMetaData where
  "sample_metadata =
     \<lparr>md_num_rows = 6, md_created_by = None, md_key_value = None,
      md_schema_descr = [\<lparr>cd_name = ''id'', cd_path = ''id''\<rparr>],
      md_row_groups =
        [\<lparr>rg_columns = [id_chunk 0 2], rg_num_rows = 3, rg_total_byte_size = 100\<rparr>,
         \<lparr>rg_columns = [id_chunk 3 7], rg_num_rows = 3, rg_total_byte_size = 100\<rparr>]\<rparr>"

definition sample_builder :: ReaderBuilder where
  "sample_builder =
     \<lparr>rb_metadata = sample_metadata, rb_schema = schema sample_batch, rb_row_groups = None,
      rb_projection = None, rb_row_filter = None\<rparr>"

definition sample_opts :: ReadOpts where
  "sample_opts =
     \<lparr>ro_columns = None, ro_row_groups = None, ro_filter = Some (FGt ''id'' (FVInt 2))\<rparr>"

definition sample_low :: RecordBatch where
  "sample_low =
     sample_batch\<lparr>columns := [TypedArray DInt64 [Some (CInt 0), Some (CInt 2), None],
                            BooleanArray [Some True, Some True, Some True]]\<rparr>"

lemmas sample_file_defs =
  sample_metadata_def sample_builder_def sample_opts_def sample_low_def sample_batch_def
  schema_new_def id_chunk_def

lemma sample_apply:
  "apply_read_opts ref_api sample_builder sample_opts =
     Ok (sample_builder\<lparr>rb_row_groups := Some [1],
                        rb_row_filter := Some ([''id''], FGt ''id'' (FVInt 2))\<rparr>, 2, 1, 1)"
  by (simp add: apply_read_opts_def sample_file_defs validate_leaf_def make_scalar_def Let_def
      resolve_row_groups_def leaf_may_match_def parquet_leaf_index_def upt_rec push_new_def)


text \<open>The rows a reader delivers: row group and row number of every matching row, in order.\<close>

definition rows_read ::
  "arrow_api \<Rightarrow> (cmp_op \<Rightarrow> cell \<Rightarrow> cell \<Rightarrow> bool) \<Rightarrow> (nat \<Rightarrow> RecordBatch) \<Rightarrow> FilterExpr \<Rightarrow> nat list \<Rightarrow>
   (nat \<times> nat) list" where
  "rows_read K ccmp data f is = concat (map (\<lambda>i. map (Pair i) (matching_rows K ccmp (data i) f)) is)"

lemma rows_read_filter:
  "(\<And>i. i \<in> set is \<Longrightarrow> \<not> p i \<Longrightarrow> matching_rows K ccmp (data i) f = []) \<Longrightarrow>
   rows_read K ccmp data f (filter p is) = rows_read K ccmp data f is"
  by (induction "is") (auto simp: rows_read_def)

text \<open>
  C2: statistics pruning loses no row.  Whenever the statistics of each row group bound the
  column they are looked up for (with UTF-8 bounds on strings, no NaN in float columns and no
  zero float literal), reading the selected row groups through the filter yields exactly the rows
  that reading all the requested row groups through it yields, in the same order.
\<close>

theorem pruning_loses_no_row:
  assumes "arrow_order K ccmp" "apply_read_opts K B opts = Ok (plan, n, selected, skipped)"
    "ro_filter opts = Some f" "literals_ok f"
    "resolve_row_groups n (ro_row_groups opts) = Ok requested"
    "\<forall>i \<in> set requested. batch_wf (data i) \<and> stats_sound K (rb_metadata B) i (data i) f"
  shows "\<exists>keep. rb_row_groups plan = Some keep \<and>
    rows_read K ccmp data f keep = rows_read K ccmp data f requested"
proof -
  have ok: "filter_valid K (rb_schema B) opts"
    "is_ok (resolve_row_groups (length (md_row_groups (rb_metadata B))) (ro_row_groups opts))"
    using apply_read_opts_Err [of K B opts] assms(2) by auto
  then obtain req where q:
    "resolve_row_groups (length (md_row_groups (rb_metadata B))) (ro_row_groups opts) = Ok req"
    by (auto simp: is_ok_def split: sum.splits)
  have req: "req = requested" "rb_row_groups plan = Some (keep_groups (rb_metadata B) opts requested)"
    using apply_read_opts_Ok [OF ok(1) q] assms(2,5) q by auto
  have "matching_rows K ccmp (data i) f = []"
    if "i \<in> set requested" "\<not> may_match (rb_metadata B) i (md_schema_descr (rb_metadata B)) f" for i
    using that assms(4,6) req(1) resolve_row_groups_range [OF q]
    by (intro arrow_order.pruned_group_empty [OF assms(1)]) auto
  then show ?thesis using req(2) rows_read_filter [of requested _ K ccmp data f]
    by (simp add: keep_groups_def assms(3))
qed

lemma sample_stats_sound:
  "stats_sound ref_api sample_metadata 0 sample_low (FGt ''id'' (FVInt 2))"
  "stats_sound ref_api sample_metadata 1 sample_batch (FGt ''id'' (FVInt 2))"
  by (auto simp: stats_sound_def stats_bound_def no_nan_def parquet_leaf_index_def sample_file_defs)

theorem pruning_loses_no_row_witness:
  "rows_read ref_api ref_ccmp (\<lambda>i. if i = 0 then sample_low else sample_batch)
       (FGt ''id'' (FVInt 2)) [1] =
   rows_read ref_api ref_ccmp (\<lambda>i. if i = 0 then sample_low else sample_batch)
       (FGt ''id'' (FVInt 2)) [0, 1]"
proof -
  have w: "batch_wf sample_low" by (simp add: batch_wf_def sample_low_def sample_batch_def schema_new_def)
  have "ro_filter sample_opts = Some (FGt ''id'' (FVInt 2))" "literals_ok (FGt ''id'' (FVInt 2))"
    "resolve_row_groups 2 (ro_row_groups sample_opts) = Ok [0, 1]"
    by (simp_all add: sample_opts_def resolve_row_groups_def upt_rec)
  moreover have "\<forall>i \<in> set [0, 1].
      batch_wf (if i = (0::nat) then sample_low else sample_batch) \<and>
      stats_sound ref_api (rb_metadata sample_builder) i
        (if i = 0 then sample_low else sample_batch) (FGt ''id'' (FVInt 2))"
    using sample_stats_sound w sample_batch_wf by (simp add: sample_builder_def)
  ultimately show ?thesis
    using pruning_loses_no_row [OF ref.arrow_order_axioms sample_apply] by simp
qed

definition nested_metadata :: ParquetMetaData where
  "nested_metadata =
     sample_metadata\<lparr>md_schema_descr := [\<lparr>cd_name = ''id'', cd_path = ''s.id''\<rparr>,
                                           \<lparr>cd_name = ''id'', cd_path = ''id''\<rparr>],
       md_row_groups := [\<lparr>rg_columns = [id_chunk 0 2, id_chunk 3 7], rg_num_rows = 3,
                          rg_total_byte_size = 100\<rparr>]\<rparr>"



end
