(* ===== verification/Batch_Stream.thy ===== *)
theory Batch_Stream
  imports Arrow_Model
begin

text \<open>
  What the four kinds of result streams have in common.  A stream resource is polled by NIFs that
  reply \<open>{:ok, batch}\<close>, \<open>{:error, msg}\<close> or \<open>:done\<close>; the locale \<open>record_stream\<close> states the
  contract of such a poll function against the list of items that are still pending, and its
  lemmas say what a client that keeps polling sees.  Streams over a third-party iterator are
  covered by \<open>fused_iter\<close>, the contract of an iterator that is exhausted once and for all.
  Mutexes are modelled by their content and their poison flag.
\<close>

section \<open>Mutexes\<close>

record 'a Mutex =
  poisoned :: bool
  inner :: 'a

definition mutex_new :: "'a \<Rightarrow> 'a Mutex" where
  "mutex_new a = \<lparr>poisoned = False, inner = a\<rparr>"

definition lock :: "'a Mutex \<Rightarrow> ('a, unit) result" where
  "lock m = (if poisoned m then Err () else Ok (inner m))"

lemma mutex_new_simps [simp]: "poisoned (mutex_new a) = False" "inner (mutex_new a) = a"
  by (simp_all add: mutex_new_def)

lemma lock_simps [simp]: "lock m = Ok a \<longleftrightarrow> \<not> poisoned m \<and> a = inner m" "lock m = Err u \<longleftrightarrow> poisoned m"
  by (auto simp: lock_def)

section \<open>Polling\<close>

fun reply_of :: "('b, 'e) result \<Rightarrow> ('b, 'e) nif_term" where
  "reply_of (Ok b) = OkTuple b"
| "reply_of (Err e) = ErrorTuple e"

fun poll :: "('s \<Rightarrow> 'r \<times> 's) \<Rightarrow> nat \<Rightarrow> 's \<Rightarrow> 'r list \<times> 's" where
  "poll step 0 s = ([], s)"
| "poll step (Suc n) s =
     (fst (step s) # fst (poll step n (snd (step s))), snd (poll step n (snd (step s))))"

locale record_stream =
  fixes step :: "'s \<Rightarrow> ('b, 'e) nif_term \<times> 's"
    and pending :: "'s \<Rightarrow> ('b, 'e) result list"
    and live :: "'s \<Rightarrow> bool"
  assumes step_live: "live s \<Longrightarrow> live (snd (step s))"
    and step_done: "live s \<Longrightarrow> pending s = [] \<Longrightarrow> fst (step s) = AtomDone \<and> pending (snd (step s)) = []"
    and step_item:
      "live s \<Longrightarrow> pending s = x # xs \<Longrightarrow> fst (step s) = reply_of x \<and> pending (snd (step s)) = xs"
begin

lemma poll_live: "live s \<Longrightarrow> live (snd (poll step n s))"
  using step_live by (induction n arbitrary: s) auto

text \<open>Every pending item is delivered exactly once and in order; then \<open>:done\<close>, for ever.\<close>

lemma poll_replies:
  "live s \<Longrightarrow> fst (poll step n s) =
     map reply_of (take n (pending s)) @ replicate (n - length (pending s)) AtomDone"
proof (induction n arbitrary: s)
  case (Suc n)
  have live: "live (snd (step s))" using step_live [OF Suc.prems] .
  show ?case using Suc.IH [OF live] step_done [OF Suc.prems] step_item [OF Suc.prems]
    by (cases "pending s") auto
qed simp

lemma poll_pending: "live s \<Longrightarrow> pending (snd (poll step n s)) = drop n (pending s)"
proof (induction n arbitrary: s)
  case (Suc n)
  have live: "live (snd (step s))" using step_live [OF Suc.prems] .
  show ?case using Suc.IH [OF live] step_done [OF Suc.prems] step_item [OF Suc.prems]
    by (cases "pending s") auto
qed simp

text \<open>Polling once more than there are batches drains a stream without errors.\<close>

lemma poll_drain:
  assumes "live s" "pending s = map Ok bs"
  shows "fst (poll step (length bs + 1) s) = map OkTuple bs @ [AtomDone]"
  using poll_replies [OF assms(1), of "length bs + 1"] assms(2) by (simp add: comp_def)

end

section \<open>Iterators\<close>

text \<open>
  A boxed iterator of the Arrow crates.  \<open>content\<close> is what it has still to yield; once exhausted
  it stays so.
\<close>

locale fused_iter =
  fixes nxt :: "'it \<Rightarrow> ('b, 'e) result option \<times> 'it"
    and content :: "'it \<Rightarrow> ('b, 'e) result list"
  assumes next_none: "content it = [] \<Longrightarrow> fst (nxt it) = None \<and> content (snd (nxt it)) = []"
    and next_some: "content it = x # xs \<Longrightarrow> fst (nxt it) = Some x \<and> content (snd (nxt it)) = xs"

text \<open>\<open>vec::IntoIter\<close>: the iterator over a list.\<close>

fun list_next :: "'a list \<Rightarrow> 'a option \<times> 'a list" where
  "list_next [] = (None, [])"
| "list_next (x # xs) = (Some x, xs)"

interpretation list_iter: fused_iter list_next "\<lambda>xs. xs"
  by unfold_locales auto

end
