(* ===== verification/Parquet_Stream.thy ===== *)
theory Parquet_Stream
  imports Parquet_Pruning Batch_Stream
begin

text \<open>
  The Parquet NIFs (\<open>parquet.rs\<close>, lines 76 to 89 and 713 to 1035): opening a reader, polling it,
  its statistics, the two writers, and the encoding of file metadata.  Files, the reader the crate
  builds from a configured builder, and the crate's writer are parameters.
\<close>

section \<open>Readers\<close>

record 'it ExArrowParquetStream =
  ps_schema :: Schema
  ps_reader :: "'it Mutex"
  row_groups_total :: nat
  row_groups_selected :: nat
  row_groups_skipped :: nat

text \<open>The \<open>parquet\<close> crate and the file system, as the readers and writers use them.\<close>

record ('f, 'it) parquet_in =
  pi_open :: "string \<Rightarrow> ('f, string) result"
  pi_try_new_file :: "'f \<Rightarrow> (ReaderBuilder, string) result"
  pi_try_new_bytes :: "bytes \<Rightarrow> (ReaderBuilder, string) result"
  pi_build :: "ReaderBuilder \<Rightarrow> (Schema \<times> 'it, string) result"
  pi_metadata_file :: "'f \<Rightarrow> (ParquetMetaData, string) result"
  pi_metadata_bytes :: "bytes \<Rightarrow> (ParquetMetaData, string) result"

definition build_stream ::
  "arrow_api \<Rightarrow> ('f, 'it) parquet_in \<Rightarrow> ReaderBuilder \<Rightarrow> ReadOpts \<Rightarrow>
   ('it ExArrowParquetStream, parquet_error) nif_term" where
  "build_stream K I builder opts =
     (case apply_read_opts K builder opts of
        Err e \<Rightarrow> err_encode e
      | Ok (builder', n_total, selected, skipped) \<Rightarrow>
          (case pi_build I builder' of
             Err e \<Rightarrow> err_encode (PqError e)
           | Ok (sch, reader) \<Rightarrow>
               ok_encode \<lparr>ps_schema = sch, ps_reader = mutex_new reader, row_groups_total = n_total,
                          row_groups_selected = selected, row_groups_skipped = skipped\<rparr>))"

definition parquet_reader_from_file ::
  "arrow_api \<Rightarrow> ('f, 'it) parquet_in \<Rightarrow> string \<Rightarrow> beam_term \<Rightarrow>
   ('it ExArrowParquetStream, parquet_error) nif_term" where
  "parquet_reader_from_file K I path opts =
     (case decode_read_opts opts of
        Err e \<Rightarrow> err_encode e
      | Ok read_opts \<Rightarrow>
          (case pi_open I path of
             Err e \<Rightarrow> err_encode (PqError e)
           | Ok file \<Rightarrow>
               (case pi_try_new_file I file of
                  Err e \<Rightarrow> err_encode (PqError e)
                | Ok builder \<Rightarrow> build_stream K I builder read_opts)))"

definition parquet_reader_from_binary ::
  "arrow_api \<Rightarrow> ('f, 'it) parquet_in \<Rightarrow> bytes \<Rightarrow> beam_term \<Rightarrow>
   ('it ExArrowParquetStream, parquet_error) nif_term" where
  "parquet_reader_from_binary K I binary opts =
     (case decode_read_opts opts of
        Err e \<Rightarrow> err_encode e
      | Ok read_opts \<Rightarrow>
          (case pi_try_new_bytes I binary of
             Err e \<Rightarrow> err_encode (PqError e)
           | Ok builder \<Rightarrow> build_stream K I builder read_opts))"

section \<open>Stream accessors\<close>

definition parquet_stream_schema ::
  "'it ExArrowParquetStream \<Rightarrow> (Schema, parquet_error) nif_term" where
  "parquet_stream_schema s = Untagged (ps_schema s)"

text \<open>The map of read statistics; \<open>map_put\<close> on a fresh map does not fail.\<close>

definition parquet_stream_read_stats ::
  "'it ExArrowParquetStream \<Rightarrow> ((string \<times> nat) list, parquet_error) nif_term" where
  "parquet_stream_read_stats s =
     Untagged [(''row_groups_total'', row_groups_total s),
               (''row_groups_selected'', row_groups_selected s),
               (''row_groups_skipped'', row_groups_skipped s)]"

definition parquet_stream_next ::
  "('it \<Rightarrow> (RecordBatch, parquet_error) result option \<times> 'it) \<Rightarrow> 'it ExArrowParquetStream \<Rightarrow>
   (RecordBatch, parquet_error) nif_term \<times> 'it ExArrowParquetStream" where
  "parquet_stream_next nxt s =
     (case lock (ps_reader s) of
        Err _ \<Rightarrow> (err_encode PqLockPoisoned, s)
      | Ok it \<Rightarrow>
          let s' = s\<lparr>ps_reader := (ps_reader s)\<lparr>inner := snd (nxt it)\<rparr>\<rparr> in
          (case fst (nxt it) of
             None \<Rightarrow> (AtomDone, s')
           | Some (Err e) \<Rightarrow> (err_encode e, s')
           | Some (Ok batch) \<Rightarrow> (ok_encode batch, s')))"

section \<open>Writers\<close>

record ('f, 'w) parquet_out =
  po_create :: "string \<Rightarrow> ('f, string) result"
  po_try_new_file :: "'f \<Rightarrow> Schema \<Rightarrow> writer_setting list \<Rightarrow> ('w, string) result"
  po_try_new_buf :: "Schema \<Rightarrow> writer_setting list \<Rightarrow> ('w, string) result"
  po_write :: "'w \<Rightarrow> RecordBatch \<Rightarrow> ('w, string) result"
  po_close :: "'w \<Rightarrow> (bytes, string) result"
  po_alloc :: "nat \<Rightarrow> bool"

definition parquet_writer_to_file ::
  "parquet_levels \<Rightarrow> ('f, 'w) parquet_out \<Rightarrow> string \<Rightarrow> Schema \<Rightarrow> RecordBatch list \<Rightarrow> beam_term \<Rightarrow>
   (bytes, parquet_error) nif_term" where
  "parquet_writer_to_file L P path sch batches opts =
     (case decode_write_opts L opts of
        Err e \<Rightarrow> err_encode e
      | Ok write_opts \<Rightarrow>
          (case po_create P path of
             Err e \<Rightarrow> err_encode (PqError e)
           | Ok file \<Rightarrow>
               (case po_try_new_file P file sch (build_writer_props write_opts) of
                  Err e \<Rightarrow> err_encode (PqError e)
                | Ok writer \<Rightarrow>
                    (case foldM_result (po_write P) writer batches of
                       Err e \<Rightarrow> err_encode (PqError e)
                     | Ok writer' \<Rightarrow>
                         (case po_close P writer' of
                            Ok _ \<Rightarrow> AtomOk
                          | Err e \<Rightarrow> err_encode (PqError e))))))"

definition parquet_writer_to_binary ::
  "parquet_levels \<Rightarrow> ('f, 'w) parquet_out \<Rightarrow> Schema \<Rightarrow> RecordBatch list \<Rightarrow> beam_term \<Rightarrow>
   (bytes, parquet_error) nif_term" where
  "parquet_writer_to_binary L P sch batches opts =
     (case decode_write_opts L opts of
        Err e \<Rightarrow> err_encode e
      | Ok write_opts \<Rightarrow>
          (case po_try_new_buf P sch (build_writer_props write_opts) of
             Err e \<Rightarrow> err_encode (PqError e)
           | Ok writer \<Rightarrow>
               (case foldM_result (po_write P) writer batches of
                  Err e \<Rightarrow> err_encode (PqError e)
                | Ok writer' \<Rightarrow>
                    (case po_close P writer' of
                       Err e \<Rightarrow> err_encode (PqError e)
                     | Ok buf \<Rightarrow>
                         if po_alloc P (length buf) then ok_encode buf
                         else err_encode (PqError ''binary alloc'')))))"

section \<open>Metadata\<close>

text \<open>
  The nested maps \<open>encode_metadata\<close> returns, as records.  A missing bound is encoded as \<open>nil\<close>;
  the shortest decimal notation of a float (\<open>Display\<close> of \<open>f64\<close> and \<open>f32\<close>) is left as the
  parameter \<open>show_api\<close>.
\<close>

record show_api =
  sh_f64 :: "f64 \<Rightarrow> string"
  sh_f32 :: "f32 \<Rightarrow> string"

record col_map =
  cm_path :: string
  cm_compression :: string
  cm_encodings :: "string list"
  cm_num_values :: int
  cm_min :: "string option"
  cm_max :: "string option"

record rg_map =
  rm_index :: int
  rm_num_rows :: int
  rm_total_byte_size :: int
  rm_columns :: "col_map list"

record file_map =
  fm_num_rows :: int
  fm_num_row_groups :: int
  fm_created_by :: string
  fm_row_groups :: "rg_map list"
  fm_key_value_metadata :: "(string \<times> string) list"

fun stats_strings :: "show_api \<Rightarrow> Statistics option \<Rightarrow> string option \<times> string option" where
  "stats_strings S (Some (StInt64 mn mx)) = (map_option show_int mn, map_option show_int mx)"
| "stats_strings S (Some (StInt32 mn mx)) = (map_option show_int mn, map_option show_int mx)"
| "stats_strings S (Some (StDouble mn mx)) = (map_option (sh_f64 S) mn, map_option (sh_f64 S) mx)"
| "stats_strings S (Some (StFloat mn mx)) = (map_option (sh_f32 S) mn, map_option (sh_f32 S) mx)"
| "stats_strings S (Some (StByteArray mn mx)) = (map_option from_utf8_lossy mn, map_option from_utf8_lossy mx)"
| "stats_strings S (Some (StBoolean mn mx)) = (map_option show_bool mn, map_option show_bool mx)"
| "stats_strings S _ = (None, None)"

definition encode_column :: "show_api \<Rightarrow> ColumnChunk \<Rightarrow> col_map" where
  "encode_column S col =
     \<lparr>cm_path = ck_path col, cm_compression = ck_compression col, cm_encodings = ck_encodings col,
      cm_num_values = ck_num_values col,
      cm_min = fst (stats_strings S (ck_statistics col)),
      cm_max = snd (stats_strings S (ck_statistics col))\<rparr>"

definition encode_row_group :: "show_api \<Rightarrow> RowGroup list \<Rightarrow> nat \<Rightarrow> rg_map" where
  "encode_row_group S rgs i =
     \<lparr>rm_index = int i, rm_num_rows = rg_num_rows (rgs ! i),
      rm_total_byte_size = rg_total_byte_size (rgs ! i),
      rm_columns = map (encode_column S) (rg_columns (rgs ! i))\<rparr>"

definition encode_metadata :: "show_api \<Rightarrow> ParquetMetaData \<Rightarrow> (file_map, parquet_error) nif_term" where
  "encode_metadata S md =
     ok_encode
       \<lparr>fm_num_rows = md_num_rows md,
        fm_num_row_groups = int (length (md_row_groups md)),
        fm_created_by = (case md_created_by md of None \<Rightarrow> [] | Some s \<Rightarrow> s),
        fm_row_groups = map (encode_row_group S (md_row_groups md)) [0..<length (md_row_groups md)],
        fm_key_value_metadata =
          (case md_key_value md of
             None \<Rightarrow> []
           | Some kvs \<Rightarrow> map (\<lambda>(k, v). (k, case v of None \<Rightarrow> [] | Some s \<Rightarrow> s)) kvs)\<rparr>"

definition parquet_metadata_from_file ::
  "show_api \<Rightarrow> ('f, 'it) parquet_in \<Rightarrow> string \<Rightarrow> (file_map, parquet_error) nif_term" where
  "parquet_metadata_from_file S I path =
     (case pi_open I path of
        Err e \<Rightarrow> err_encode (PqError e)
      | Ok file \<Rightarrow>
          (case pi_metadata_file I file of
             Ok md \<Rightarrow> encode_metadata S md
           | Err e \<Rightarrow> err_encode (PqError e)))"

definition parquet_metadata_from_binary ::
  "show_api \<Rightarrow> ('f, 'it) parquet_in \<Rightarrow> bytes \<Rightarrow> (file_map, parquet_error) nif_term" where
  "parquet_metadata_from_binary S I binary =
     (case pi_metadata_bytes I binary of
        Ok md \<Rightarrow> encode_metadata S md
      | Err e \<Rightarrow> err_encode (PqError e))"

section \<open>Polling\<close>

definition ps_live :: "'it ExArrowParquetStream \<Rightarrow> bool" where
  "ps_live s \<longleftrightarrow> \<not> poisoned (ps_reader s)"

definition ps_pending :: "('it \<Rightarrow> (RecordBatch, parquet_error) result list) \<Rightarrow> 'it ExArrowParquetStream \<Rightarrow>
    (RecordBatch, parquet_error) result list" where
  "ps_pending content s = content (inner (ps_reader s))"

lemma parquet_stream_contract:
  assumes "fused_iter nxt content"
  shows "record_stream (parquet_stream_next nxt) (ps_pending content) ps_live"
proof unfold_locales
  fix s :: "'a ExArrowParquetStream"
  assume l: "ps_live s"
  then have lk: "lock (ps_reader s) = Ok (inner (ps_reader s))" by (simp add: ps_live_def)
  show "ps_live (snd (parquet_stream_next nxt s))"
    using l by (auto simp: parquet_stream_next_def lk ps_live_def Let_def split: option.splits sum.splits)
  show "fst (parquet_stream_next nxt s) = AtomDone \<and> ps_pending content (snd (parquet_stream_next nxt s)) = []"
    if "ps_pending content s = []"
    using fused_iter.next_none [OF assms, of "inner (ps_reader s)"] that
    by (simp add: parquet_stream_next_def lk ps_pending_def Let_def)
  fix x xs
  assume "ps_pending content s = x # xs"
  then show "fst (parquet_stream_next nxt s) = reply_of x \<and>
      ps_pending content (snd (parquet_stream_next nxt s)) = xs"
    using fused_iter.next_some [OF assms, of "inner (ps_reader s)" x xs]
    by (cases x) (simp_all add: parquet_stream_next_def lk ps_pending_def Let_def)
qed

locale parquet_iter = fused_iter nxt content
  for nxt :: "'it \<Rightarrow> (RecordBatch, parquet_error) result option \<times> 'it"
    and content :: "'it \<Rightarrow> (RecordBatch, parquet_error) result list"

sublocale parquet_iter < pq: record_stream "parquet_stream_next nxt" "ps_pending content" ps_live
  by (rule parquet_stream_contract) (rule fused_iter_axioms)

interpretation pq_list: parquet_iter list_next "\<lambda>xs. xs"
  by unfold_locales

context parquet_iter
begin

lemma opened_stream_polls:
  assumes "build_stream K I builder ro = OkTuple s"
  obtains plan tot sel skip sch it where "apply_read_opts K builder ro = Ok (plan, tot, sel, skip)"
    "pi_build I plan = Ok (sch, it)" "parquet_stream_schema s = Untagged sch"
    "parquet_stream_read_stats s = Untagged [(''row_groups_total'', tot),
        (''row_groups_selected'', sel), (''row_groups_skipped'', skip)]"
    "\<And>k. fst (poll (parquet_stream_next nxt) k s) =
        map reply_of (take k (content it)) @ replicate (k - length (content it)) AtomDone"
proof -
  from assms obtain plan tot sel skip sch it
    where 1: "apply_read_opts K builder ro = Ok (plan, tot, sel, skip)" "pi_build I plan = Ok (sch, it)"
      and s: "s = \<lparr>ps_schema = sch, ps_reader = mutex_new it, row_groups_total = tot,
                   row_groups_selected = sel, row_groups_skipped = skip\<rparr>"
    by (auto simp: build_stream_def split: sum.splits prod.splits)
  have "ps_live s" "ps_pending content s = content it" by (simp_all add: s ps_live_def ps_pending_def)
  with pq.poll_replies [of s] 1 show thesis
    by (intro that [of plan tot sel skip sch it])
       (simp_all add: s parquet_stream_schema_def parquet_stream_read_stats_def)
qed

end

text \<open>
  C30: a Parquet reader opened from a binary delivers what its plan selects.  The options are
  decoded and applied, the reported statistics are those of the plan, and polling the stream
  returns every item of the reader built from the plan once and in order, then \<open>:done\<close> for ever.
\<close>

theorem parquet_reader_delivers_plan:
  assumes "parquet_iter nxt content" "parquet_reader_from_binary K I bin opts = OkTuple s"
  shows "\<exists>ro builder plan tot sel skip sch it. decode_read_opts opts = Ok ro \<and>
    pi_try_new_bytes I bin = Ok builder \<and>
    apply_read_opts K builder ro = Ok (plan, tot, sel, skip) \<and> pi_build I plan = Ok (sch, it) \<and>
    parquet_stream_schema s = Untagged sch \<and>
    parquet_stream_read_stats s = Untagged [(''row_groups_total'', tot),
        (''row_groups_selected'', sel), (''row_groups_skipped'', skip)] \<and>
    (\<forall>k. fst (poll (parquet_stream_next nxt) k s) =
       map reply_of (take k (content it)) @ replicate (k - length (content it)) AtomDone)"
proof -
  from assms(2) obtain ro builder where 1: "decode_read_opts opts = Ok ro"
    "pi_try_new_bytes I bin = Ok builder" "build_stream K I builder ro = OkTuple s"
    by (auto simp: parquet_reader_from_binary_def split: sum.splits)
  then show ?thesis using parquet_iter.opened_stream_polls [OF assms(1) 1(3)] by metis
qed

definition sample_in :: "(unit, (RecordBatch, parquet_error) result list) parquet_in" where
  "sample_in =
     \<lparr>pi_open = (\<lambda>_. Ok ()), pi_try_new_file = (\<lambda>_. Ok sample_builder),
      pi_try_new_bytes = (\<lambda>_. Ok sample_builder),
      pi_build = (\<lambda>b. Ok (rb_schema b, [Ok sample_batch])),
      pi_metadata_file = (\<lambda>_. Ok sample_metadata), pi_metadata_bytes = (\<lambda>_. Ok sample_metadata)\<rparr>"

theorem parquet_reader_delivers_plan_witness:
  "\<exists>s. parquet_reader_from_binary ref_api sample_in [] (TList []) = OkTuple s \<and>
     (\<exists>it. fst (poll (parquet_stream_next list_next) 2 s) =
       map reply_of (take 2 it) @ replicate (2 - length it) AtomDone)"
proof -
  have "\<exists>s. parquet_reader_from_binary ref_api sample_in [] (TList []) = OkTuple s"
    by (simp add: parquet_reader_from_binary_def decode_read_opts_def ReadOpts_default_def sample_in_def
        build_stream_def apply_read_opts_def resolve_row_groups_def Let_def)
  then obtain s where s: "parquet_reader_from_binary ref_api sample_in [] (TList []) = OkTuple s" by blast
  from parquet_reader_delivers_plan [OF pq_list.parquet_iter_axioms s] s show ?thesis by blast
qed

end
