(* ===== verification/Ipc.thy ===== *)
theory Ipc
  imports Batch_Stream "HOL-Library.Countable"
begin

text \<open>
  Arrow IPC (\<open>ipc.rs\<close>, lines 32 to 425 and 838 to 865, and \<open>resources.rs\<close>): readers of the
  stream format, random access to the file format, writers, and the schema and batch accessors.
  The codec of the \<open>arrow-ipc\<close> crate and the file system are parameters; the locale
  \<open>ipc_codec\<close> states that a reader yields what a writer was given.
\<close>

section \<open>Resources\<close>

text \<open>
  A stream is backed by bytes or by a buffered file; each backing is a mutex around the crate's
  reader of that source (\<open>'b\<close> for bytes, \<open>'f\<close> for a file).
\<close>

datatype ('b, 'f) IpcStreamBacking = StreamBinary "'b Mutex" | StreamFile "'f Mutex"

record ('b, 'f) ExArrowIpcStream =
  is_reader :: "('b, 'f) IpcStreamBacking"

datatype ('b, 'f) IpcFileBacking = BackFile "'f Mutex" | BackBinary "'b Mutex"

record ('b, 'f) ExArrowIpcFile =
  if_backing :: "('b, 'f) IpcFileBacking"

datatype ipc_error =
    IpcError string | StreamLockPoisoned | FileLockPoisoned | BinaryAlloc | BatchIndexOutOfRange

text \<open>A stream reader of the crate: its schema and its iterator.\<close>

record 'r reader_api =
  rd_schema :: "'r \<Rightarrow> Schema"
  rd_next :: "'r \<Rightarrow> (RecordBatch, ipc_error) result option \<times> 'r"

text \<open>A file reader: it also knows its number of batches and can be positioned.\<close>

record 'r file_reader_api =
  fr_schema :: "'r \<Rightarrow> Schema"
  fr_num_batches :: "'r \<Rightarrow> nat"
  fr_set_index :: "'r \<Rightarrow> nat \<Rightarrow> ('r, string) result"
  fr_next :: "'r \<Rightarrow> (RecordBatch, ipc_error) result option \<times> 'r"

section \<open>Stream readers\<close>

definition ipc_reader_from_binary ::
  "(bytes \<Rightarrow> ('b, string) result) \<Rightarrow> bytes \<Rightarrow> (('b, 'f) ExArrowIpcStream, ipc_error) nif_term" where
  "ipc_reader_from_binary try_new data =
     (case try_new data of
        Ok reader \<Rightarrow> ok_encode \<lparr>is_reader = StreamBinary (mutex_new reader)\<rparr>
      | Err e \<Rightarrow> err_encode (IpcError e))"

definition ipc_reader_from_file ::
  "(string \<Rightarrow> ('file, string) result) \<Rightarrow> ('file \<Rightarrow> ('f, string) result) \<Rightarrow> string \<Rightarrow>
   (('b, 'f) ExArrowIpcStream, ipc_error) nif_term" where
  "ipc_reader_from_file open_file try_new_buffered path =
     (case open_file path of
        Err e \<Rightarrow> err_encode (IpcError e)
      | Ok file \<Rightarrow>
          (case try_new_buffered file of
             Err e \<Rightarrow> err_encode (IpcError e)
           | Ok reader \<Rightarrow> ok_encode \<lparr>is_reader = StreamFile (mutex_new reader)\<rparr>))"

definition ipc_stream_schema ::
  "'b reader_api \<Rightarrow> 'f reader_api \<Rightarrow> ('b, 'f) ExArrowIpcStream \<Rightarrow> (Schema, ipc_error) nif_term" where
  "ipc_stream_schema RB RF s =
     (case is_reader s of
        StreamBinary m \<Rightarrow>
          (case lock m of Err _ \<Rightarrow> err_encode StreamLockPoisoned | Ok g \<Rightarrow> Untagged (rd_schema RB g))
      | StreamFile m \<Rightarrow>
          (case lock m of Err _ \<Rightarrow> err_encode StreamLockPoisoned | Ok g \<Rightarrow> Untagged (rd_schema RF g)))"

definition next_reply ::
  "(RecordBatch, ipc_error) result option \<Rightarrow> (RecordBatch, ipc_error) nif_term" where
  "next_reply r =
     (case r of
        None \<Rightarrow> AtomDone
      | Some (Err e) \<Rightarrow> err_encode e
      | Some (Ok batch) \<Rightarrow> ok_encode batch)"

definition ipc_stream_next ::
  "'b reader_api \<Rightarrow> 'f reader_api \<Rightarrow> ('b, 'f) ExArrowIpcStream \<Rightarrow>
   (RecordBatch, ipc_error) nif_term \<times> ('b, 'f) ExArrowIpcStream" where
  "ipc_stream_next RB RF s =
     (case is_reader s of
        StreamBinary m \<Rightarrow>
          (case lock m of
             Err _ \<Rightarrow> (err_encode StreamLockPoisoned, s)
           | Ok g \<Rightarrow> (next_reply (fst (rd_next RB g)),
                     s\<lparr>is_reader := StreamBinary (m\<lparr>inner := snd (rd_next RB g)\<rparr>)\<rparr>))
      | StreamFile m \<Rightarrow>
          (case lock m of
             Err _ \<Rightarrow> (err_encode StreamLockPoisoned, s)
           | Ok g \<Rightarrow> (next_reply (fst (rd_next RF g)),
                     s\<lparr>is_reader := StreamFile (m\<lparr>inner := snd (rd_next RF g)\<rparr>)\<rparr>)))"

section \<open>Schemas and batches\<close>

fun data_type_to_atom :: "DataType \<Rightarrow> string" where
  "data_type_to_atom DNull = ''null''"
| "data_type_to_atom DBoolean = ''boolean''"
| "data_type_to_atom DInt8 = ''int8''"
| "data_type_to_atom DInt16 = ''int16''"
| "data_type_to_atom DInt32 = ''int32''"
| "data_type_to_atom DInt64 = ''int64''"
| "data_type_to_atom DUInt8 = ''uint8''"
| "data_type_to_atom DUInt16 = ''uint16''"
| "data_type_to_atom DUInt32 = ''uint32''"
| "data_type_to_atom DUInt64 = ''uint64''"
| "data_type_to_atom DFloat16 = ''float16''"
| "data_type_to_atom DFloat32 = ''float32''"
| "data_type_to_atom DFloat64 = ''float64''"
| "data_type_to_atom DUtf8 = ''utf8''"
| "data_type_to_atom DLargeUtf8 = ''large_utf8''"
| "data_type_to_atom DBinary = ''binary''"
| "data_type_to_atom DLargeBinary = ''large_binary''"
| "data_type_to_atom (DList _) = ''list''"
| "data_type_to_atom (DLargeList _) = ''large_list''"
| "data_type_to_atom (DStruct _) = ''struct''"
| "data_type_to_atom (DTimestamp _ _) = ''timestamp''"
| "data_type_to_atom DDate32 = ''date32''"
| "data_type_to_atom DDate64 = ''date64''"
| "data_type_to_atom (DTime32 _) = ''time32''"
| "data_type_to_atom (DTime64 _) = ''time64''"
| "data_type_to_atom (DDuration _) = ''duration''"
| "data_type_to_atom (DDecimal128 _ _) = ''decimal128''"
| "data_type_to_atom (DDecimal256 _ _) = ''decimal256''"
| "data_type_to_atom (DDictionary _ _) = ''dictionary''"
| "data_type_to_atom (DOther _) = ''unknown''"

definition schema_fields :: "Schema \<Rightarrow> (string \<times> string \<times> bool) list" where
  "schema_fields s = map (\<lambda>f. (f_name f, data_type_to_atom (f_type f), f_nullable f)) (sfields s)"

definition record_batch_schema :: "RecordBatch \<Rightarrow> Schema" where
  "record_batch_schema b = schema b"

definition record_batch_num_rows :: "RecordBatch \<Rightarrow> nat" where
  "record_batch_num_rows b = num_rows b"

section \<open>The file format\<close>

definition ipc_file_open ::
  "(string \<Rightarrow> ('file, string) result) \<Rightarrow> ('file \<Rightarrow> ('f, string) result) \<Rightarrow> string \<Rightarrow>
   (('b, 'f) ExArrowIpcFile, ipc_error) nif_term" where
  "ipc_file_open open_file try_new_buffered path =
     (case open_file path of
        Err e \<Rightarrow> err_encode (IpcError e)
      | Ok file \<Rightarrow>
          (case try_new_buffered file of
             Err e \<Rightarrow> err_encode (IpcError e)
           | Ok reader \<Rightarrow> ok_encode \<lparr>if_backing = BackFile (mutex_new reader)\<rparr>))"

definition ipc_file_open_from_binary ::
  "(bytes \<Rightarrow> ('b, string) result) \<Rightarrow> bytes \<Rightarrow> (('b, 'f) ExArrowIpcFile, ipc_error) nif_term" where
  "ipc_file_open_from_binary try_new binary =
     (case try_new binary of
        Err e \<Rightarrow> err_encode (IpcError e)
      | Ok reader \<Rightarrow> ok_encode \<lparr>if_backing = BackBinary (mutex_new reader)\<rparr>)"

definition ipc_file_schema ::
  "'b file_reader_api \<Rightarrow> 'f file_reader_api \<Rightarrow> ('b, 'f) ExArrowIpcFile \<Rightarrow> (Schema, ipc_error) nif_term" where
  "ipc_file_schema RB RF s =
     (case if_backing s of
        BackFile m \<Rightarrow>
          (case lock m of Ok g \<Rightarrow> Untagged (fr_schema RF g) | Err _ \<Rightarrow> err_encode FileLockPoisoned)
      | BackBinary m \<Rightarrow>
          (case lock m of Ok g \<Rightarrow> Untagged (fr_schema RB g) | Err _ \<Rightarrow> err_encode FileLockPoisoned))"

definition ipc_file_num_batches ::
  "'b file_reader_api \<Rightarrow> 'f file_reader_api \<Rightarrow> ('b, 'f) ExArrowIpcFile \<Rightarrow> nat" where
  "ipc_file_num_batches RB RF s =
     (case if_backing s of
        BackFile m \<Rightarrow> (case lock m of Ok g \<Rightarrow> fr_num_batches RF g | Err _ \<Rightarrow> 0)
      | BackBinary m \<Rightarrow> (case lock m of Ok g \<Rightarrow> fr_num_batches RB g | Err _ \<Rightarrow> 0))"

definition batch_reply_of ::
  "(RecordBatch, ipc_error) result option \<Rightarrow> (RecordBatch, ipc_error) nif_term" where
  "batch_reply_of r =
     (case r of
        None \<Rightarrow> err_encode BatchIndexOutOfRange
      | Some (Err e) \<Rightarrow> err_encode e
      | Some (Ok batch) \<Rightarrow> ok_encode batch)"

definition ipc_file_get_batch ::
  "'b file_reader_api \<Rightarrow> 'f file_reader_api \<Rightarrow> ('b, 'f) ExArrowIpcFile \<Rightarrow> nat \<Rightarrow>
   (RecordBatch, ipc_error) nif_term \<times> ('b, 'f) ExArrowIpcFile" where
  "ipc_file_get_batch RB RF s index =
     (case if_backing s of
        BackFile m \<Rightarrow>
          (case lock m of
             Err _ \<Rightarrow> (err_encode FileLockPoisoned, s)
           | Ok g \<Rightarrow>
               (case fr_set_index RF g index of
                  Err e \<Rightarrow> (err_encode (IpcError e), s)
                | Ok g' \<Rightarrow> (batch_reply_of (fst (fr_next RF g')),
                           s\<lparr>if_backing := BackFile (m\<lparr>inner := snd (fr_next RF g')\<rparr>)\<rparr>)))
      | BackBinary m \<Rightarrow>
          (case lock m of
             Err _ \<Rightarrow> (err_encode FileLockPoisoned, s)
           | Ok g \<Rightarrow>
               (case fr_set_index RB g index of
                  Err e \<Rightarrow> (err_encode (IpcError e), s)
                | Ok g' \<Rightarrow> (batch_reply_of (fst (fr_next RB g')),
                           s\<lparr>if_backing := BackBinary (m\<lparr>inner := snd (fr_next RB g')\<rparr>)\<rparr>))))"

section \<open>Writers\<close>

record 'w writer_api =
  wr_try_new :: "Schema \<Rightarrow> ('w, string) result"
  wr_write :: "'w \<Rightarrow> RecordBatch \<Rightarrow> ('w, string) result"
  wr_finish :: "'w \<Rightarrow> (bytes, string) result"

text \<open>The three steps every writer NIF performs: open, write the batches in order, finish.\<close>

definition write_batches :: "'w writer_api \<Rightarrow> Schema \<Rightarrow> RecordBatch list \<Rightarrow> (bytes, ipc_error) result" where
  "write_batches W sch batches =
     (case wr_try_new W sch of
        Err e \<Rightarrow> Err (IpcError e)
      | Ok writer \<Rightarrow>
          (case foldM_result (wr_write W) writer batches of
             Err e \<Rightarrow> Err (IpcError e)
           | Ok writer' \<Rightarrow> map_err IpcError (wr_finish W writer')))"

definition binary_reply :: "(nat \<Rightarrow> bool) \<Rightarrow> (bytes, ipc_error) result \<Rightarrow> (bytes, ipc_error) nif_term" where
  "binary_reply alloc r =
     (case r of
        Err e \<Rightarrow> err_encode e
      | Ok buf \<Rightarrow> if alloc (length buf) then ok_encode buf else err_encode BinaryAlloc)"

definition ipc_writer_to_binary ::
  "(nat \<Rightarrow> bool) \<Rightarrow> 'w writer_api \<Rightarrow> Schema \<Rightarrow> RecordBatch list \<Rightarrow> (bytes, ipc_error) nif_term" where
  "ipc_writer_to_binary alloc W sch batches = binary_reply alloc (write_batches W sch batches)"

text \<open>The two file writers truncate the file before anything is written; \<open>mk\<close> opens a writer on it.\<close>

definition ipc_writer_to_file ::
  "(string \<Rightarrow> ('file, string) result) \<Rightarrow> ('file \<Rightarrow> 'w writer_api) \<Rightarrow> string \<Rightarrow> Schema \<Rightarrow> RecordBatch list \<Rightarrow>
   (bytes, ipc_error) nif_term" where
  "ipc_writer_to_file create mk path sch batches =
     (case create path of
        Err e \<Rightarrow> err_encode (IpcError e)
      | Ok file \<Rightarrow>
          (case write_batches (mk file) sch batches of Err e \<Rightarrow> err_encode e | Ok _ \<Rightarrow> AtomOk))"

definition ipc_file_writer_to_file ::
  "(string \<Rightarrow> ('file, string) result) \<Rightarrow> ('file \<Rightarrow> 'w writer_api) \<Rightarrow> string \<Rightarrow> Schema \<Rightarrow> RecordBatch list \<Rightarrow>
   (bytes, ipc_error) nif_term" where
  "ipc_file_writer_to_file create mk_buffered path sch batches =
     (case create path of
        Err e \<Rightarrow> err_encode (IpcError e)
      | Ok file \<Rightarrow>
          (case write_batches (mk_buffered file) sch batches of Err e \<Rightarrow> err_encode e | Ok _ \<Rightarrow> AtomOk))"

section \<open>Fixtures\<close>

definition fixture_schema :: Schema where
  "fixture_schema = schema_new [Field ''id'' DInt64 False, Field ''name'' DUtf8 False]"

definition fixture_columns :: "Arr list" where
  "fixture_columns =
     [TypedArray DInt64 [Some (CInt 1), Some (CInt 2)],
      TypedArray DUtf8 [Some (CStr ''a''), Some (CStr ''b'')]]"

definition ipc_test_fixture_binary ::
  "arrow_api \<Rightarrow> (nat \<Rightarrow> bool) \<Rightarrow> 'w writer_api \<Rightarrow> (bytes, ipc_error) nif_term" where
  "ipc_test_fixture_binary K alloc W =
     (case k_try_new K fixture_schema fixture_columns of
        Err e \<Rightarrow> err_encode (IpcError e)
      | Ok batch \<Rightarrow> binary_reply alloc (write_batches W fixture_schema [batch]))"

definition ipc_test_fixture_file_binary ::
  "arrow_api \<Rightarrow> (nat \<Rightarrow> bool) \<Rightarrow> 'w writer_api \<Rightarrow> (bytes, ipc_error) nif_term" where
  "ipc_test_fixture_file_binary K alloc W =
     (case k_try_new K fixture_schema fixture_columns of
        Err e \<Rightarrow> err_encode (IpcError e)
      | Ok batch \<Rightarrow> binary_reply alloc (write_batches W fixture_schema [batch]))"

section \<open>Polling a stream\<close>

fun ipc_live :: "('b, 'f) IpcStreamBacking \<Rightarrow> bool" where
  "ipc_live (StreamBinary m) = (\<not> poisoned m)"
| "ipc_live (StreamFile m) = (\<not> poisoned m)"

fun ipc_items :: "('b \<Rightarrow> 'i list) \<Rightarrow> ('f \<Rightarrow> 'i list) \<Rightarrow> ('b, 'f) IpcStreamBacking \<Rightarrow> 'i list" where
  "ipc_items cb cf (StreamBinary m) = cb (inner m)"
| "ipc_items cb cf (StreamFile m) = cf (inner m)"

text \<open>The contract of the two readers behind a stream.\<close>

locale ipc_readers =
  binary: fused_iter "rd_next RB" cb + buffered: fused_iter "rd_next RF" cf
  for RB :: "'b reader_api" and cb :: "'b \<Rightarrow> (RecordBatch, ipc_error) result list"
    and RF :: "'f reader_api" and cf :: "'f \<Rightarrow> (RecordBatch, ipc_error) result list"
begin

lemma next_reply_some: "next_reply (Some x) = reply_of x"
  by (cases x) (simp_all add: next_reply_def)

lemma ipc_stream_contract:
  "record_stream (ipc_stream_next RB RF) (\<lambda>s. ipc_items cb cf (is_reader s)) (\<lambda>s. ipc_live (is_reader s))"
proof unfold_locales
  fix s :: "('b, 'f) ExArrowIpcStream"
  assume l: "ipc_live (is_reader s)"
  show "ipc_live (is_reader (snd (ipc_stream_next RB RF s)))"
    using l by (cases "is_reader s") (auto simp: ipc_stream_next_def lock_def)
  show "fst (ipc_stream_next RB RF s) = AtomDone \<and>
      ipc_items cb cf (is_reader (snd (ipc_stream_next RB RF s))) = []"
    if "ipc_items cb cf (is_reader s) = []"
    using l that binary.next_none buffered.next_none
    by (cases "is_reader s") (auto simp: ipc_stream_next_def lock_def next_reply_def)
  fix x xs
  assume "ipc_items cb cf (is_reader s) = x # xs"
  then show "fst (ipc_stream_next RB RF s) = reply_of x \<and>
      ipc_items cb cf (is_reader (snd (ipc_stream_next RB RF s))) = xs"
    using l binary.next_some buffered.next_some
    by (cases "is_reader s") (auto simp: ipc_stream_next_def lock_def next_reply_some)
qed

end

sublocale ipc_readers < ipc: record_stream "ipc_stream_next RB RF"
    "\<lambda>s. ipc_items cb cf (is_reader s)" "\<lambda>s. ipc_live (is_reader s)"
  by (rule ipc_stream_contract)

section \<open>The codec\<close>

text \<open>
  What \<open>arrow-ipc\<close> promises: a writer collects the batches it is given, and a reader of the bytes
  it finishes with yields the schema and the batches back, in order.
\<close>

locale ipc_codec = ipc_readers RB cb RF cf
  for RB :: "'b reader_api" and cb :: "'b \<Rightarrow> (RecordBatch, ipc_error) result list"
    and RF :: "'f reader_api" and cf :: "'f \<Rightarrow> (RecordBatch, ipc_error) result list" +
  fixes W :: "'w writer_api"
    and written :: "'w \<Rightarrow> Schema \<times> RecordBatch list"
    and try_new :: "bytes \<Rightarrow> ('b, string) result"
  assumes written_new: "wr_try_new W s = Ok w \<Longrightarrow> written w = (s, [])"
    and written_write: "wr_write W w b = Ok w' \<Longrightarrow> written w' = (fst (written w), snd (written w) @ [b])"
    and read_back: "wr_finish W w = Ok buf \<Longrightarrow>
      \<exists>r. try_new buf = Ok r \<and> rd_schema RB r = fst (written w) \<and> cb r = map Ok (snd (written w))"
begin

lemma written_all:
  "foldM_result (wr_write W) w bs = Ok w' \<Longrightarrow> written w' = (fst (written w), snd (written w) @ bs)"
  by (induction bs arbitrary: w) (auto split: sum.splits dest: written_write)

lemma write_then_read:
  assumes "write_batches W sch bs = Ok buf"
  obtains r where "try_new buf = Ok r" "rd_schema RB r = sch" "cb r = map Ok bs"
proof -
  from assms obtain w w' where w: "wr_try_new W sch = Ok w" "foldM_result (wr_write W) w bs = Ok w'"
    "wr_finish W w' = Ok buf"
    by (auto simp: write_batches_def split: sum.splits)
  have "written w' = (sch, bs)" using written_new [OF w(1)] written_all [OF w(2)] by simp
  with read_back [OF w(3)] that show thesis by auto
qed

text \<open>A fresh stream over such a reader has the schema and delivers the batches.\<close>

lemma stream_of_reader:
  fixes r :: 'b
  assumes "rd_schema RB r = sch" "cb r = map Ok bs"
  defines "strm \<equiv> \<lparr>is_reader = StreamBinary (mutex_new r)\<rparr> :: ('b, 'f) ExArrowIpcStream"
  shows "ipc_stream_schema RB RF strm = Untagged sch \<and>
    fst (poll (ipc_stream_next RB RF) (length bs + 1) strm) = map OkTuple bs @ [AtomDone]"
proof
  show "ipc_stream_schema RB RF strm = Untagged sch"
    using assms by (simp add: ipc_stream_schema_def lock_def)
  show "fst (poll (ipc_stream_next RB RF) (length bs + 1) strm) = map OkTuple bs @ [AtomDone]"
    by (rule ipc.poll_drain) (simp_all add: assms)
qed

lemma roundtrip:
  assumes "ipc_writer_to_binary alloc W sch bs = OkTuple buf"
  shows "\<exists>strm. ipc_reader_from_binary try_new buf = OkTuple strm \<and>
    ipc_stream_schema RB RF strm = Untagged sch \<and>
    fst (poll (ipc_stream_next RB RF) (length bs + 1) strm) = map OkTuple bs @ [AtomDone]"
proof -
  have "write_batches W sch bs = Ok buf"
    using assms by (auto simp: ipc_writer_to_binary_def binary_reply_def split: sum.splits if_splits)
  then obtain r where r: "try_new buf = Ok r" "rd_schema RB r = sch" "cb r = map Ok bs"
    by (rule write_then_read)
  then show ?thesis using stream_of_reader [OF r(2,3)] by (simp add: ipc_reader_from_binary_def)
qed

end

subsection \<open>A reference codec\<close>

text \<open>
  Schemas and batches are countable data, so an injective encoding into bytes exists; the
  reference codec uses one, and its reader is the list of batches.
\<close>

instance TimeUnit :: countable by countable_datatype

instance DataType :: countable by countable_datatype

instance Field :: countable by countable_datatype

instance fp :: countable by countable_datatype

instance cell :: countable by countable_datatype

instance Arr :: countable by countable_datatype

definition schema_key :: "Schema \<Rightarrow> nat" where
  "schema_key s = to_nat (sfields s, metadata s)"

definition batch_key :: "RecordBatch \<Rightarrow> nat" where
  "batch_key b = to_nat (schema_key (schema b), columns b, num_rows b)"

lemma schema_key_inj: "schema_key s = schema_key t \<longleftrightarrow> s = t"
  by (cases s; cases t) (simp add: schema_key_def)

lemma batch_key_inj: "batch_key b = batch_key c \<longleftrightarrow> b = c"
  by (cases b; cases c) (simp add: batch_key_def schema_key_inj)

definition ref_encode :: "Schema \<times> RecordBatch list \<Rightarrow> bytes" where
  "ref_encode w = replicate (to_nat (schema_key (fst w), map batch_key (snd w))) CHR 0x00"

lemma ref_encode_inj: "inj ref_encode"
proof (rule injI)
  fix v w
  assume "ref_encode v = ref_encode w"
  then have "length (ref_encode v) = length (ref_encode w)" by simp
  then have "schema_key (fst v) = schema_key (fst w)" "map batch_key (snd v) = map batch_key (snd w)"
    by (simp_all add: ref_encode_def)
  moreover have "inj batch_key" by (rule injI) (simp add: batch_key_inj)
  ultimately show "v = w" by (simp add: prod_eq_iff schema_key_inj inj_map_eq_map)
qed

definition ref_writer :: "(Schema \<times> RecordBatch list) writer_api" where
  "ref_writer =
     \<lparr>wr_try_new = (\<lambda>s. Ok (s, [])),
      wr_write = (\<lambda>w b. if schema b = fst w then Ok (fst w, snd w @ [b]) else Err ''schema mismatch''),
      wr_finish = (\<lambda>w. Ok (ref_encode w))\<rparr>"

definition ref_reader :: "(Schema \<times> (RecordBatch, ipc_error) result list) reader_api" where
  "ref_reader =
     \<lparr>rd_schema = fst, rd_next = (\<lambda>r. (fst (list_next (snd r)), (fst r, snd (list_next (snd r)))))\<rparr>"

definition ref_try_read :: "bytes \<Rightarrow> (Schema \<times> (RecordBatch, ipc_error) result list, string) result" where
  "ref_try_read buf =
     (if buf \<in> range ref_encode
      then Ok (fst (inv ref_encode buf), map Ok (snd (inv ref_encode buf))) else Err ''not a stream'')"

interpretation ref_codec: ipc_codec ref_reader snd ref_reader snd ref_writer "\<lambda>w. w" ref_try_read
proof unfold_locales
  fix r :: "Schema \<times> (RecordBatch, ipc_error) result list"
  show "fst (rd_next ref_reader r) = None \<and> snd (snd (rd_next ref_reader r)) = []" if "snd r = []"
    using that by (simp add: ref_reader_def)
  show "fst (rd_next ref_reader r) = Some x \<and> snd (snd (rd_next ref_reader r)) = xs" if "snd r = x # xs" for x xs
    using that by (simp add: ref_reader_def)
qed (auto simp: ref_writer_def ref_reader_def ref_try_read_def ref_encode_inj split: if_splits)



section \<open>Random access\<close>

text \<open>
  What the crate's file reader promises: it can be positioned at any of its batches, refuses other
  positions, and yields the batch it is positioned at.
\<close>

locale ipc_file_reader =
  fixes F :: "'r file_reader_api"
    and batches :: "'r \<Rightarrow> RecordBatch list"
    and position :: "'r \<Rightarrow> nat"
  assumes num_batches: "fr_num_batches F r = length (batches r)"
    and set_index_ok: "i < length (batches r) \<Longrightarrow>
      \<exists>r'. fr_set_index F r i = Ok r' \<and> batches r' = batches r \<and> position r' = i"
    and set_index_err: "length (batches r) \<le> i \<Longrightarrow> \<exists>e. fr_set_index F r i = Err e"
    and next_at: "position r < length (batches r) \<Longrightarrow>
      fst (fr_next F r) = Some (Ok (batches r ! position r)) \<and> batches (snd (fr_next F r)) = batches r"

fun backing_live :: "('b, 'f) IpcFileBacking \<Rightarrow> bool" where
  "backing_live (BackFile m) = (\<not> poisoned m)"
| "backing_live (BackBinary m) = (\<not> poisoned m)"

fun backing_batches :: "('b \<Rightarrow> 'x) \<Rightarrow> ('f \<Rightarrow> 'x) \<Rightarrow> ('b, 'f) IpcFileBacking \<Rightarrow> 'x" where
  "backing_batches bb bf (BackFile m) = bf (inner m)"
| "backing_batches bb bf (BackBinary m) = bb (inner m)"

text \<open>A sequence of accesses to one file handle.\<close>

fun get_batches ::
  "'b file_reader_api \<Rightarrow> 'f file_reader_api \<Rightarrow> ('b, 'f) ExArrowIpcFile \<Rightarrow> nat list \<Rightarrow>
   (RecordBatch, ipc_error) nif_term list" where
  "get_batches RB RF s [] = []"
| "get_batches RB RF s (i # is) =
     fst (ipc_file_get_batch RB RF s i) # get_batches RB RF (snd (ipc_file_get_batch RB RF s i)) is"

text \<open>What an access at index \<open>i\<close> must reply.\<close>

definition access_ok :: "RecordBatch list \<Rightarrow> nat \<Rightarrow> (RecordBatch, ipc_error) nif_term \<Rightarrow> bool" where
  "access_ok bs i r \<longleftrightarrow> (if i < length bs then r = OkTuple (bs ! i) else (\<exists>e. r = ErrorTuple e))"

locale ipc_file_readers =
  binary: ipc_file_reader RB bb pb + buffered: ipc_file_reader RF bf pf
  for RB :: "'b file_reader_api" and bb pb and RF :: "'f file_reader_api" and bf pf
begin

lemma get_batch_in_range:
  assumes "backing_live (if_backing s)" "i < length (backing_batches bb bf (if_backing s))"
  shows "fst (ipc_file_get_batch RB RF s i) = OkTuple (backing_batches bb bf (if_backing s) ! i)"
    "backing_live (if_backing (snd (ipc_file_get_batch RB RF s i)))"
    "backing_batches bb bf (if_backing (snd (ipc_file_get_batch RB RF s i))) =
     backing_batches bb bf (if_backing s)"
proof -
  have "fst (ipc_file_get_batch RB RF s i) = OkTuple (backing_batches bb bf (if_backing s) ! i) \<and>
    backing_live (if_backing (snd (ipc_file_get_batch RB RF s i))) \<and>
    backing_batches bb bf (if_backing (snd (ipc_file_get_batch RB RF s i))) =
     backing_batches bb bf (if_backing s)"
  proof (cases "if_backing s")
    case (BackFile m)
    then obtain r' where "fr_set_index RF (inner m) i = Ok r'" "bf r' = bf (inner m)" "pf r' = i"
      using buffered.set_index_ok assms(2) by auto
    then show ?thesis using buffered.next_at [of r'] assms BackFile
      by (simp add: ipc_file_get_batch_def lock_def batch_reply_of_def)
  next
    case (BackBinary m)
    then obtain r' where "fr_set_index RB (inner m) i = Ok r'" "bb r' = bb (inner m)" "pb r' = i"
      using binary.set_index_ok assms(2) by auto
    then show ?thesis using binary.next_at [of r'] assms BackBinary
      by (simp add: ipc_file_get_batch_def lock_def batch_reply_of_def)
  qed
  then show "fst (ipc_file_get_batch RB RF s i) = OkTuple (backing_batches bb bf (if_backing s) ! i)"
    "backing_live (if_backing (snd (ipc_file_get_batch RB RF s i)))"
    "backing_batches bb bf (if_backing (snd (ipc_file_get_batch RB RF s i))) =
     backing_batches bb bf (if_backing s)" by auto
qed

lemma get_batch_out_of_range:
  assumes "backing_live (if_backing s)" "length (backing_batches bb bf (if_backing s)) \<le> i"
  shows "\<exists>e. fst (ipc_file_get_batch RB RF s i) = ErrorTuple e"
    "snd (ipc_file_get_batch RB RF s i) = s"
  using assms binary.set_index_err buffered.set_index_err
  by (cases "if_backing s"; force simp: ipc_file_get_batch_def lock_def)+

lemma get_batches_replies:
  assumes "backing_live (if_backing s)"
  shows "list_all2 (access_ok (backing_batches bb bf (if_backing s))) is (get_batches RB RF s is)"
  using assms
proof (induction "is" arbitrary: s)
  case (Cons i ks)
  show ?case
  proof (cases "i < length (backing_batches bb bf (if_backing s))")
    case True
    note g = get_batch_in_range [OF Cons.prems True]
    show ?thesis using Cons.IH [OF g(2), unfolded g(3)] g(1) True by (simp add: access_ok_def)
  next
    case False
    note g = get_batch_out_of_range [OF Cons.prems, of i]
    show ?thesis using Cons.IH [OF Cons.prems] g False by (simp add: access_ok_def)
  qed
qed simp

lemma num_batches_eq:
  "backing_live (if_backing s) \<Longrightarrow>
   ipc_file_num_batches RB RF s = length (backing_batches bb bf (if_backing s))"
  by (cases "if_backing s")
     (simp_all add: ipc_file_num_batches_def lock_def binary.num_batches buffered.num_batches)

end

text \<open>A file reader over a list of batches and a position.\<close>

definition ref_file_reader :: "(Schema \<times> RecordBatch list \<times> nat) file_reader_api" where
  "ref_file_reader =
     \<lparr>fr_schema = fst, fr_num_batches = (\<lambda>(s, bs, i). length bs),
      fr_set_index = (\<lambda>(s, bs, i) k. if k < length bs then Ok (s, bs, k) else Err ''index out of bounds''),
      fr_next = (\<lambda>(s, bs, i). if i < length bs then (Some (Ok (bs ! i)), (s, bs, Suc i)) else (None, (s, bs, i)))\<rparr>"

interpretation ref_file: ipc_file_readers
  ref_file_reader "\<lambda>(s, bs, i). bs" "\<lambda>(s, bs, i). i" ref_file_reader "\<lambda>(s, bs, i). bs" "\<lambda>(s, bs, i). i"
  by unfold_locales (auto simp: ref_file_reader_def split: if_splits)

text \<open>
  C33: random access to an IPC file is repeatable and bounds-checked.  For any sequence of indices
  asked of one handle, each index below \<open>ipc_file_num_batches\<close> returns the batch at that position,
  whatever was asked before, and every other index returns an error.
\<close>

theorem ipc_file_random_access:
  assumes "ipc_file_readers RB bb pb RF bf pf" "backing_live (if_backing s)"
  shows "ipc_file_num_batches RB RF s = length (backing_batches bb bf (if_backing s)) \<and>
    list_all2 (access_ok (backing_batches bb bf (if_backing s))) is (get_batches RB RF s is)"
  using ipc_file_readers.get_batches_replies [OF assms] ipc_file_readers.num_batches_eq [OF assms] by simp

theorem ipc_file_random_access_witness:
  "list_all2 (access_ok [sample_batch]) [0, 5, 0]
     (get_batches ref_file_reader ref_file_reader
        \<lparr>if_backing = BackBinary (mutex_new (schema sample_batch, [sample_batch], 0)) ::
           (Schema \<times> RecordBatch list \<times> nat, Schema \<times> RecordBatch list \<times> nat) IpcFileBacking\<rparr> [0, 5, 0])"
proof -
  let ?s = "\<lparr>if_backing = BackBinary (mutex_new (schema sample_batch, [sample_batch], 0)) ::
           (Schema \<times> RecordBatch list \<times> nat, Schema \<times> RecordBatch list \<times> nat) IpcFileBacking\<rparr>"
  have l: "backing_live (if_backing ?s)" by simp
  show ?thesis
    using ipc_file_random_access [OF ref_file.ipc_file_readers_axioms l, of "[0, 5, 0]"] by simp
qed

end
