(* ===== verification/Column_Binary.thy ===== *)
theory Column_Binary
  imports Arrow_Model
begin

text \<open>
  Columns as raw bytes (\<open>ipc.rs\<close>, lines 426 to 836): building record batches from the wire
  formats of numeric, boolean, string and binary columns, extracting a numeric column as bytes,
  and concatenating batches.  \<open>usize\<close> arithmetic wraps at 64 bits, as release builds compile it;
  slices and vectors are at most \<open>isize::MAX\<close> bytes.  The in-memory representation of a native
  value and the validation of \<open>ArrayData\<close> are parameters.
\<close>

section \<open>Machine arithmetic\<close>

definition usize_add :: "nat \<Rightarrow> nat \<Rightarrow> nat" where
  "usize_add a b = (a + b) mod 18446744073709551616"

definition usize_mul :: "nat \<Rightarrow> nat \<Rightarrow> nat" where
  "usize_mul a b = (a * b) mod 18446744073709551616"

definition isize_max :: nat where
  "isize_max = 9223372036854775807"

lemma usize_add_small: "a + b < 18446744073709551616 \<Longrightarrow> usize_add a b = a + b"
  by (simp add: usize_add_def)

text \<open>\<open>u32::from_le_bytes\<close> on the four bytes at an offset.\<close>

definition u32_from_le_bytes :: "bytes \<Rightarrow> nat" where
  "u32_from_le_bytes bs = foldr (\<lambda>b acc. of_char b + 256 * acc) bs 0"

definition u32_to_le_bytes :: "nat \<Rightarrow> bytes" where
  "u32_to_le_bytes n =
     [char_of (n mod 256), char_of (n div 256 mod 256), char_of (n div 65536 mod 256),
      char_of (n div 16777216 mod 256)]"

datatype column_error =
    TruncatedPrefix nat nat nat
  | TruncatedElement nat nat nat
  | TrailingBytes nat nat
  | LengthMismatch nat nat nat
  | BoolLengthMismatch nat nat
  | InvalidUtf8
  | UnknownDtype string
  | ListLengthsDiffer | NoColumns
  | ColColumnNotFound string
  | DowncastFailed | ColumnBinaryAlloc
  | UnsupportedNxType DataType
  | EmptyConcat
  | ColArrow string
  | ColPanic

section \<open>Length-prefixed records\<close>

text \<open>
  The loop of \<open>decode_varlen_records\<close>: \<open>k\<close> records remain, \<open>i\<close> is the element number.  Every
  slice access out of range is \<open>ColPanic\<close>.
\<close>

fun varlen_loop :: "bytes \<Rightarrow> nat \<Rightarrow> nat \<Rightarrow> nat \<Rightarrow> bytes list \<Rightarrow> (bytes list \<times> nat, column_error) result" where
  "varlen_loop bs 0 i offset elems = Ok (elems, offset)"
| "varlen_loop bs (Suc k) i offset elems =
     (if length bs < usize_add offset 4 then Err (TruncatedPrefix i offset (length bs))
      else if length bs < offset + 4 then Err ColPanic
      else
        let len = u32_from_le_bytes (take 4 (drop offset bs));
            offset1 = usize_add offset 4
        in if length bs < usize_add offset1 len then Err (TruncatedElement i len (length bs - offset1))
           else if length bs < offset1 + len then Err ColPanic
           else varlen_loop bs k (i + 1) (usize_add offset1 len) (elems @ [take len (drop offset1 bs)]))"

text \<open>\<open>Vec::with_capacity(length)\<close> of 16-byte slice references panics beyond \<open>isize::MAX\<close> bytes.\<close>

definition decode_varlen_records :: "bytes \<Rightarrow> nat \<Rightarrow> (bytes list, column_error) result" where
  "decode_varlen_records bs length1 =
     (if isize_max < length1 * 16 then Err ColPanic
      else
        case varlen_loop bs length1 0 0 [] of
          Err e \<Rightarrow> Err e
        | Ok (elems, offset) \<Rightarrow>
            if offset \<noteq> length bs then Err (TrailingBytes (length bs - offset) length1) else Ok elems)"

section \<open>Column arrays\<close>

text \<open>
  The memory of native values and the array constructors: \<open>ArrayData::builder(..).build()\<close>
  validates the buffer against the length; the byte-array constructors of the 32-bit offset types
  panic when the offsets overflow.
\<close>

record column_api =
  mem_read :: "DataType \<Rightarrow> bytes \<Rightarrow> cell"
  mem_write :: "DataType \<Rightarrow> cell \<Rightarrow> bytes"
  data_build :: "DataType \<Rightarrow> nat \<Rightarrow> bytes \<Rightarrow> (Arr, string) result"
  offsets_fit :: "DataType \<Rightarrow> bytes list \<Rightarrow> bool"
  values_bytes :: "Arr \<Rightarrow> bytes"
  binary_alloc :: "nat \<Rightarrow> bool"

definition build_fixed_col ::
  "column_api \<Rightarrow> bytes \<Rightarrow> nat \<Rightarrow> nat \<Rightarrow> DataType \<Rightarrow> (DataType \<times> Arr, column_error) result" where
  "build_fixed_col C bs length1 elem_size dt =
     (if length bs \<noteq> usize_mul length1 elem_size
      then Err (LengthMismatch (usize_mul length1 elem_size) length1 elem_size)
      else (case data_build C dt length1 bs of Err e \<Rightarrow> Err (ColArrow e) | Ok a \<Rightarrow> Ok (dt, a)))"

text \<open>The fixed-width dtypes with the size of their native type.\<close>

definition fixed_dtype :: "string \<Rightarrow> (nat \<times> DataType) option" where
  "fixed_dtype d =
     (if d = ''s8'' then Some (1, DInt8)
      else if d = ''s16'' then Some (2, DInt16)
      else if d = ''s32'' then Some (4, DInt32)
      else if d = ''s64'' then Some (8, DInt64)
      else if d = ''u8'' then Some (1, DUInt8)
      else if d = ''u16'' then Some (2, DUInt16)
      else if d = ''u32'' then Some (4, DUInt32)
      else if d = ''u64'' then Some (8, DUInt64)
      else if d = ''f32'' then Some (4, DFloat32)
      else if d = ''f64'' then Some (8, DFloat64)
      else if d = ''date32'' then Some (4, DDate32)
      else if d = ''date64'' then Some (8, DDate64)
      else if d = ''timestamp_seconds'' then Some (8, DTimestamp Second None)
      else if d = ''timestamp_millis'' then Some (8, DTimestamp Millisecond None)
      else if d = ''timestamp_micros'' then Some (8, DTimestamp Microsecond None)
      else if d = ''timestamp_nanos'' then Some (8, DTimestamp Nanosecond None)
      else if d = ''duration_seconds'' then Some (8, DDuration Second)
      else if d = ''duration_millis'' then Some (8, DDuration Millisecond)
      else if d = ''duration_micros'' then Some (8, DDuration Microsecond)
      else if d = ''duration_nanos'' then Some (8, DDuration Nanosecond)
      else None)"

definition build_str_col ::
  "column_api \<Rightarrow> bytes \<Rightarrow> nat \<Rightarrow> DataType \<Rightarrow> (DataType \<times> Arr, column_error) result" where
  "build_str_col C bs length1 dt =
     (case decode_varlen_records bs length1 of
        Err e \<Rightarrow> Err e
      | Ok elems \<Rightarrow>
          (case collect (\<lambda>e. if utf8_valid e then Ok e else Err InvalidUtf8) elems of
             Err e \<Rightarrow> Err e
           | Ok strs \<Rightarrow>
               if offsets_fit C dt strs then Ok (dt, TypedArray dt (map (Some \<circ> CStr) strs))
               else Err ColPanic))"

definition build_bin_col ::
  "column_api \<Rightarrow> bytes \<Rightarrow> nat \<Rightarrow> DataType \<Rightarrow> (DataType \<times> Arr, column_error) result" where
  "build_bin_col C bs length1 dt =
     (case decode_varlen_records bs length1 of
        Err e \<Rightarrow> Err e
      | Ok elems \<Rightarrow>
          if offsets_fit C dt elems then Ok (dt, TypedArray dt (map (Some \<circ> CBin) elems))
          else Err ColPanic)"

definition build_column_array ::
  "column_api \<Rightarrow> bytes \<Rightarrow> string \<Rightarrow> nat \<Rightarrow> (DataType \<times> Arr, column_error) result" where
  "build_column_array C bs dtype_str length1 =
     (case fixed_dtype dtype_str of
        Some (elem_size, dt) \<Rightarrow> build_fixed_col C bs length1 elem_size dt
      | None \<Rightarrow>
          if dtype_str = ''bool'' then
            if length bs \<noteq> length1 then Err (BoolLengthMismatch length1 (length bs))
            else Ok (DBoolean, BooleanArray (map (\<lambda>b. Some (b \<noteq> CHR 0x00)) bs))
          else if dtype_str = ''utf8'' then build_str_col C bs length1 DUtf8
          else if dtype_str = ''large_utf8'' then build_str_col C bs length1 DLargeUtf8
          else if dtype_str = ''binary'' then build_bin_col C bs length1 DBinary
          else if dtype_str = ''large_binary'' then build_bin_col C bs length1 DLargeBinary
          else Err (UnknownDtype dtype_str))"

section \<open>The NIFs\<close>

definition new_batch_reply :: "(RecordBatch, arrow_err) result \<Rightarrow> (RecordBatch, column_error) nif_term" where
  "new_batch_reply r = (case r of Ok b \<Rightarrow> ok_encode b | Err e \<Rightarrow> err_encode (ColArrow e))"

definition record_batch_from_column_binary ::
  "arrow_api \<Rightarrow> column_api \<Rightarrow> string \<Rightarrow> bytes \<Rightarrow> string \<Rightarrow> nat \<Rightarrow> (RecordBatch, column_error) nif_term" where
  "record_batch_from_column_binary K C col_name binary dtype_str length1 =
     (case build_column_array C binary dtype_str length1 of
        Err e \<Rightarrow> err_encode e
      | Ok (data_type, array) \<Rightarrow>
          new_batch_reply (k_try_new K (schema_new [Field col_name data_type False]) [array]))"

definition record_batch_from_column_binaries ::
  "arrow_api \<Rightarrow> column_api \<Rightarrow> string list \<Rightarrow> bytes list \<Rightarrow> string list \<Rightarrow> nat \<Rightarrow>
   (RecordBatch, column_error) nif_term" where
  "record_batch_from_column_binaries K C names binaries dtypes length1 =
     (if length names \<noteq> length binaries \<or> length names \<noteq> length dtypes then err_encode ListLengthsDiffer
      else if names = [] then err_encode NoColumns
      else
        (case collect (\<lambda>((name, binary), dtype_str).
                 case build_column_array C binary dtype_str length1 of
                   Err e \<Rightarrow> Err e
                 | Ok (data_type, array) \<Rightarrow> Ok (Field name data_type False, array))
               (zip (zip names binaries) dtypes) of
           Err e \<Rightarrow> err_encode e
         | Ok cols \<Rightarrow> new_batch_reply (k_try_new K (schema_new (map fst cols)) (map snd cols))))"

definition record_batch_concat :: "arrow_api \<Rightarrow> RecordBatch list \<Rightarrow> (RecordBatch, column_error) nif_term" where
  "record_batch_concat K batches =
     (case batches of
        [] \<Rightarrow> err_encode EmptyConcat
      | first # _ \<Rightarrow> new_batch_reply (k_concat_batches K (schema first) batches))"

text \<open>The numeric types Nx understands, with their native size and type string.\<close>

definition nx_type :: "DataType \<Rightarrow> (nat \<times> string) option" where
  "nx_type dt =
     (case dt of
        DInt8 \<Rightarrow> Some (1, ''s8'') | DInt16 \<Rightarrow> Some (2, ''s16'')
      | DInt32 \<Rightarrow> Some (4, ''s32'') | DInt64 \<Rightarrow> Some (8, ''s64'')
      | DUInt8 \<Rightarrow> Some (1, ''u8'') | DUInt16 \<Rightarrow> Some (2, ''u16'')
      | DUInt32 \<Rightarrow> Some (4, ''u32'') | DUInt64 \<Rightarrow> Some (8, ''u64'')
      | DFloat32 \<Rightarrow> Some (4, ''f32'') | DFloat64 \<Rightarrow> Some (8, ''f64'')
      | _ \<Rightarrow> None)"

text \<open>
  The macro \<open>primitive_buffer!\<close>.  The values buffer of a primitive array starts at its first slot
  (\<open>offset()\<close> is 0), so the slice is its first \<open>len\<close> values.
\<close>

definition primitive_buffer ::
  "column_api \<Rightarrow> Arr \<Rightarrow> nat \<Rightarrow> string \<Rightarrow> (bytes \<times> string \<times> nat, column_error) nif_term" where
  "primitive_buffer C array byte_size dtype_str =
     (case array of
        BooleanArray _ \<Rightarrow> err_encode DowncastFailed
      | TypedArray _ _ \<Rightarrow>
          let len = array_len array; vals = values_bytes C array in
          if length vals < len * byte_size then err_encode ColPanic
          else if binary_alloc C (len * byte_size)
            then ok_encode (take (len * byte_size) vals, dtype_str, len)
            else err_encode ColumnBinaryAlloc)"

definition extract_primitive_buffer ::
  "column_api \<Rightarrow> Arr \<Rightarrow> (bytes \<times> string \<times> nat, column_error) nif_term" where
  "extract_primitive_buffer C array =
     (case nx_type (array_type array) of
        Some (byte_size, dtype_str) \<Rightarrow> primitive_buffer C array byte_size dtype_str
      | None \<Rightarrow>
          if array_type array = DBoolean then
            (case downcast_boolean array of
               None \<Rightarrow> err_encode DowncastFailed
             | Some bits \<Rightarrow>
                 if binary_alloc C (length bits)
                 then ok_encode (map (\<lambda>b. if b = Some True then CHR 0x01 else CHR 0x00) bits, ''bool'', length bits)
                 else err_encode ColumnBinaryAlloc)
          else err_encode (UnsupportedNxType (array_type array)))"

definition record_batch_column_buffer ::
  "arrow_api \<Rightarrow> column_api \<Rightarrow> RecordBatch \<Rightarrow> string \<Rightarrow> (bytes \<times> string \<times> nat, column_error) nif_term" where
  "record_batch_column_buffer K C b col_name =
     (case k_index_of K (schema b) col_name of
        None \<Rightarrow> err_encode (ColColumnNotFound col_name)
      | Some col_idx \<Rightarrow>
          if length (columns b) \<le> col_idx then err_encode ColPanic
          else extract_primitive_buffer C (columns b ! col_idx))"

section \<open>The record format\<close>

definition encode_record :: "bytes \<Rightarrow> bytes" where
  "encode_record e = u32_to_le_bytes (length e) @ e"

definition encode_records :: "bytes list \<Rightarrow> bytes" where
  "encode_records es = concat (map encode_record es)"

lemma u32_to_le_length [simp]: "length (u32_to_le_bytes n) = 4"
  by (simp add: u32_to_le_bytes_def)

lemma u32_le_roundtrip:
  assumes "n < 4294967296"
  shows "u32_from_le_bytes (u32_to_le_bytes n) = n"
proof -
  define a b c where "a = n div 256" and "b = a div 256" and "c = b div 256"
  have d: "n div 65536 = b" "n div 16777216 = c"
    by (simp_all add: a_def b_def c_def div_mult2_eq [symmetric])
  have "c < 256" using assms d(2) by (simp add: less_mult_imp_div_less flip: d(2))
  moreover have "n = 256 * a + n mod 256" "a = 256 * b + a mod 256" "b = 256 * c + b mod 256"
    by (simp_all add: a_def b_def c_def)
  ultimately show ?thesis by (simp add: u32_from_le_bytes_def u32_to_le_bytes_def d flip: a_def)
qed

lemma of_char_bound: "(of_char c :: nat) \<le> 255"
  using nat_of_char_less_256 [of c] by linarith

lemma four_digits:
  assumes "a \<le> 255" "b \<le> 255" "c \<le> 255" "d \<le> (255 :: nat)"
  shows "a + 256 * (b + 256 * (c + 256 * d)) < 4294967296"
proof -
  have "c + 256 * d \<le> 65535" using assms by simp
  moreover from this have "b + 256 * (c + 256 * d) \<le> 16777215" using assms(2) by simp
  ultimately show ?thesis using assms(1) by simp
qed

lemma u32_from_le_4:
  "u32_from_le_bytes [p, q, r, t] = of_char p + 256 * (of_char q + 256 * (of_char r + 256 * of_char t))"
  by (simp add: u32_from_le_bytes_def)

lemma four_bytes: "length bs = 4 \<Longrightarrow> \<exists>p q r t. bs = [p, q, r, t]"
  by (auto simp: length_Suc_conv numeral_eq_Suc)

lemma u32_from_le_bound:
  assumes "length bs = 4"
  shows "u32_from_le_bytes bs < 4294967296"
proof -
  obtain p q r t where bs: "bs = [p, q, r, t]" using four_bytes [OF assms] by blast
  show ?thesis unfolding bs u32_from_le_4 by (intro four_digits of_char_bound)
qed

lemma byte_step:
  "(of_char c + 256 * x) mod 256 = (of_char c :: nat)" "(of_char c + 256 * x) div 256 = (x :: nat)"
  using of_char_bound [of c] by simp_all

lemma u32_le_inverse:
  assumes "length bs = 4"
  shows "u32_to_le_bytes (u32_from_le_bytes bs) = bs"
proof -
  obtain p q r t where bs: "bs = [p, q, r, t]" using four_bytes [OF assms] by blast
  let ?n = "of_char p + 256 * (of_char q + 256 * (of_char r + 256 * of_char t)) :: nat"
  have "?n div 65536 = ?n div 256 div 256" "?n div 16777216 = ?n div 256 div 256 div 256"
    by (simp_all only: div_mult2_eq [symmetric]) simp_all
  then have d: "?n div 65536 = of_char r + 256 * of_char t" "?n div 16777216 = of_char t"
    by (simp_all only: byte_step)
  show ?thesis unfolding bs u32_from_le_4 u32_to_le_bytes_def d byte_step
    using of_char_bound [of t] by (simp add: byte_step)
qed

section \<open>Decoding is exact\<close>

definition records_ok :: "bytes list \<Rightarrow> bool" where
  "records_ok es \<longleftrightarrow> (\<forall>e \<in> set es. length e < 4294967296)"

lemma encode_record_simps [simp]: "length (encode_record e) = 4 + length e"
  by (simp add: encode_record_def)

lemma encode_records_simps [simp]:
  "encode_records [] = []" "encode_records (e # es) = encode_record e @ encode_records es"
  by (simp_all add: encode_records_def)

text \<open>Below \<open>isize::MAX\<close> the offset arithmetic does not wrap, and the loop is a plain parser.\<close>

lemma varlen_loop_step:
  assumes "length bs \<le> isize_max" "offset \<le> length bs"
  shows "varlen_loop bs (Suc k) i offset elems =
     (if length bs < offset + 4 then Err (TruncatedPrefix i offset (length bs))
      else let len = u32_from_le_bytes (take 4 (drop offset bs)) in
        if length bs < offset + 4 + len then Err (TruncatedElement i len (length bs - (offset + 4)))
        else varlen_loop bs k (i + 1) (offset + 4 + len) (elems @ [take len (drop (offset + 4) bs)]))"
proof -
  have 4: "usize_add offset 4 = offset + 4"
    using assms by (simp add: usize_add_small isize_max_def)
  have "usize_add (offset + 4) len = offset + 4 + len"
    if "\<not> length bs < offset + 4" "len = u32_from_le_bytes (take 4 (drop offset bs))" for len
  proof -
    have "len < 4294967296" unfolding that(2) by (rule u32_from_le_bound) (use that(1) in simp)
    then show ?thesis using assms by (simp add: usize_add_small isize_max_def)
  qed
  then show ?thesis by (simp add: 4 Let_def)
qed

declare varlen_loop.simps(2) [simp del]

lemma varlen_loop_sound:
  assumes "length bs \<le> isize_max" "offset \<le> length bs" "varlen_loop bs k i offset elems = Ok (out, end)"
  shows "\<exists>es. out = elems @ es \<and> length es = k \<and> records_ok es \<and> end \<le> length bs \<and>
    drop offset bs = encode_records es @ drop end bs"
  using assms(2,3)
proof (induction k arbitrary: i offset elems)
  case 0
  then show ?case by (auto simp: records_ok_def)
next
  case (Suc k)
  define len where "len = u32_from_le_bytes (take 4 (drop offset bs))"
  have step: "offset + 4 + len \<le> length bs"
    "varlen_loop bs k (i + 1) (offset + 4 + len) (elems @ [take len (drop (offset + 4) bs)]) = Ok (out, end)"
    using Suc.prems(2) unfolding varlen_loop_step [OF assms(1) Suc.prems(1)]
    by (auto simp: len_def Let_def not_less split: if_splits)
  let ?e = "take len (drop (offset + 4) bs)"
  obtain es where es: "out = (elems @ [?e]) @ es" "length es = k" "records_ok es" "end \<le> length bs"
    "drop (offset + 4 + len) bs = encode_records es @ drop end bs"
    using Suc.IH [OF step] by blast
  have "len < 4294967296" unfolding len_def by (rule u32_from_le_bound) (use step(1) in simp)
  moreover have le: "length ?e = len" using step(1) by simp
  moreover have "drop offset bs = encode_record ?e @ drop (offset + 4 + len) bs"
  proof -
    have "u32_to_le_bytes len = take 4 (drop offset bs)"
      unfolding len_def by (rule u32_le_inverse) (use step(1) in simp)
    moreover have "take 4 (drop offset bs) @ drop (offset + 4) bs = drop offset bs"
      using append_take_drop_id [of 4 "drop offset bs"] by (simp add: add.commute)
    moreover have "?e @ drop (offset + 4 + len) bs = drop (offset + 4) bs"
      using append_take_drop_id [of len "drop (offset + 4) bs"] by (simp add: add.commute)
    ultimately show ?thesis unfolding encode_record_def le by (metis append.assoc)
  qed
  ultimately show ?case using es by (intro exI [of _ "?e # es"]) (auto simp: records_ok_def)
qed

lemma varlen_loop_complete:
  assumes "length bs \<le> isize_max" "offset \<le> length bs" "records_ok es"
    "drop offset bs = encode_records es @ rest"
  shows "varlen_loop bs (length es) i offset elems = Ok (elems @ es, offset + length (encode_records es))"
  using assms(2-4)
proof (induction es arbitrary: i offset elems)
  case (Cons e es)
  have len: "length e < 4294967296" "records_ok es" using Cons.prems(2) by (simp_all add: records_ok_def)
  have d: "drop offset bs = u32_to_le_bytes (length e) @ e @ encode_records es @ rest"
    using Cons.prems(3) by (simp add: encode_record_def)
  have "length (drop offset bs) = 4 + length e + length (encode_records es) + length rest"
    unfolding d by simp
  then have bound: "offset + 4 + length e \<le> length bs"
    using Cons.prems(1) unfolding length_drop by linarith
  have "take 4 (drop offset bs) = u32_to_le_bytes (length e)" by (simp add: d)
  then have u: "u32_from_le_bytes (take 4 (drop offset bs)) = length e" using u32_le_roundtrip len(1) by simp
  have d4: "drop (offset + 4) bs = e @ encode_records es @ rest"
    using arg_cong [OF d, of "drop 4"] by (simp add: add.commute)
  have d5: "drop (offset + 4 + length e) bs = encode_records es @ rest"
    using arg_cong [OF d4, of "drop (length e)"] by (simp add: add.commute add.left_commute)
  have "varlen_loop bs (length (e # es)) i offset elems =
      varlen_loop bs (length es) (i + 1) (offset + 4 + length e) (elems @ [e])"
    using bound unfolding list.size by (simp add: varlen_loop_step [OF assms(1) Cons.prems(1)] u Let_def d4)
  also have "\<dots> = Ok ((elems @ [e]) @ es, offset + 4 + length e + length (encode_records es))"
    by (rule Cons.IH [OF bound len(2) d5])
  finally show ?case by (simp add: add.assoc)
qed simp

lemma varlen_loop_no_panic:
  assumes "length bs \<le> isize_max" "offset \<le> length bs"
  shows "varlen_loop bs k i offset elems \<noteq> Err ColPanic"
  using assms(2)
proof (induction k arbitrary: i offset elems)
  case (Suc k)
  then show ?case unfolding varlen_loop_step [OF assms(1) Suc.prems] by (simp add: Let_def)
qed simp

section \<open>Memory and validation laws\<close>

definition chunks :: "nat \<Rightarrow> nat \<Rightarrow> bytes \<Rightarrow> bytes list" where
  "chunks sz n bs = map (\<lambda>i. take sz (drop (i * sz) bs)) [0..<n]"

lemma chunks_count [simp]: "length (chunks sz n bs) = n"
  by (simp add: chunks_def)

lemma chunks_length: "length bs = n * sz \<Longrightarrow> c \<in> set (chunks sz n bs) \<Longrightarrow> length c = sz"
proof -
  assume l: "length bs = n * sz" and c: "c \<in> set (chunks sz n bs)"
  from c obtain i where i: "i < n" "c = take sz (drop (i * sz) bs)" by (auto simp: chunks_def)
  then have "i * sz + sz \<le> n * sz" using mult_le_mono1 [of "Suc i" n sz] by simp
  then show "length c = sz" using i l by simp
qed

lemma chunks_concat: "length bs = n * sz \<Longrightarrow> concat (chunks sz n bs) = bs"
proof (induction n arbitrary: bs)
  case (Suc n)
  have "chunks sz (Suc n) bs = take sz bs # chunks sz n (drop sz bs)"
    unfolding chunks_def
    by (simp add: upt_conv_Cons map_Suc_upt [symmetric] add.commute [of sz] del: upt_Suc)
  then show ?case using Suc.IH [of "drop sz bs"] Suc.prems by simp
qed (simp add: chunks_def)

locale column_laws =
  fixes C :: column_api
  assumes build_exact: "fixed_dtype d = Some (sz, dt) \<Longrightarrow> length bs = n * sz \<Longrightarrow>
      data_build C dt n bs = Ok (TypedArray dt (map (\<lambda>c. Some (mem_read C dt c)) (chunks sz n bs)))"
    and build_short: "fixed_dtype d = Some (sz, dt) \<Longrightarrow> length bs < n * sz \<Longrightarrow>
      \<exists>e. data_build C dt n bs = Err e"
    and write_read: "fixed_dtype d = Some (sz, dt) \<Longrightarrow> length bs = sz \<Longrightarrow>
      mem_write C dt (mem_read C dt bs) = bs"
    and values_written: "values_bytes C (TypedArray dt (map Some cs)) = concat (map (mem_write C dt) cs)"
begin

lemma fixed_col_iff:
  assumes "fixed_dtype d = Some (sz, dt)" "length bs \<le> isize_max"
  shows "is_ok (build_column_array C bs d n) \<longleftrightarrow> length bs = n * sz"
proof (cases "n * sz < 18446744073709551616")
  case True
  then show ?thesis using assms(1) build_exact [OF assms(1), of bs n]
    by (auto simp: build_column_array_def build_fixed_col_def usize_mul_def is_ok_def split: sum.splits)
next
  case False
  then have lt: "length bs < n * sz" using assms(2) by (simp add: isize_max_def)
  then obtain e where "data_build C dt n bs = Err e" using build_short [OF assms(1)] by blast
  then show ?thesis using assms(1) lt
    by (simp add: build_column_array_def build_fixed_col_def)
qed

lemma fixed_col_values:
  assumes "fixed_dtype d = Some (sz, dt)" "length bs \<le> isize_max" "length bs = n * sz"
  shows "build_column_array C bs d n = Ok (dt, TypedArray dt (map (\<lambda>c. Some (mem_read C dt c)) (chunks sz n bs)))"
  using build_exact [OF assms(1,3)] assms
  by (simp add: build_column_array_def build_fixed_col_def usize_mul_def isize_max_def)

lemma column_values_back:
  assumes "fixed_dtype d = Some (sz, dt)" "length bs = n * sz"
  shows "values_bytes C (TypedArray dt (map (\<lambda>c. Some (mem_read C dt c)) (chunks sz n bs))) = bs"
proof -
  have "map (mem_write C dt) (map (mem_read C dt) (chunks sz n bs)) = chunks sz n bs"
    using chunks_length [OF assms(2)] write_read [OF assms(1)] by (auto intro: map_idI)
  then show ?thesis
    using values_written [of dt "map (mem_read C dt) (chunks sz n bs)"] chunks_concat [OF assms(2)]
    by (simp add: comp_def)
qed

end

text \<open>A memory in which a native value is its bytes.\<close>

fun fixed_width :: "DataType \<Rightarrow> nat option" where
  "fixed_width DInt8 = Some 1" | "fixed_width DUInt8 = Some 1"
| "fixed_width DInt16 = Some 2" | "fixed_width DUInt16 = Some 2"
| "fixed_width DInt32 = Some 4" | "fixed_width DUInt32 = Some 4"
| "fixed_width DFloat32 = Some 4" | "fixed_width DDate32 = Some 4"
| "fixed_width DInt64 = Some 8" | "fixed_width DUInt64 = Some 8"
| "fixed_width DFloat64 = Some 8" | "fixed_width DDate64 = Some 8"
| "fixed_width (DTimestamp _ _) = Some 8" | "fixed_width (DDuration _) = Some 8"
| "fixed_width _ = None"

lemma fixed_dtype_width: "fixed_dtype d = Some (sz, dt) \<Longrightarrow> fixed_width dt = Some sz"
  by (auto simp: fixed_dtype_def split: if_splits)

definition ref_columns :: column_api where
  "ref_columns =
     \<lparr>mem_read = (\<lambda>dt bs. CBin bs), mem_write = (\<lambda>dt c. case c of CBin bs \<Rightarrow> bs | _ \<Rightarrow> []),
      data_build = (\<lambda>dt n bs.
        case fixed_width dt of
          None \<Rightarrow> Err ''unsupported''
        | Some sz \<Rightarrow>
            if length bs < n * sz then Err ''buffer too small''
            else Ok (TypedArray dt (map (\<lambda>c. Some (CBin c)) (chunks sz n bs)))),
      offsets_fit = (\<lambda>_ _. True),
      values_bytes = (\<lambda>a. concat (map (\<lambda>c. case c of Some (CBin bs) \<Rightarrow> bs | _ \<Rightarrow> []) (array_cells a))),
      binary_alloc = (\<lambda>_. True)\<rparr>"

interpretation ref_mem: column_laws ref_columns
  by unfold_locales (auto simp: ref_columns_def comp_def dest!: fixed_dtype_width)

section \<open>Properties\<close>

text \<open>
  C9: the length-prefixed record format is decoded exactly.  For any input a process can hold,
  \<open>decode_varlen_records\<close> succeeds with given elements if and only if the bytes are their
  encoding, each with a 32-bit length; trailing or missing bytes are errors and no offset
  arithmetic wraps or indexes out of range.
\<close>

theorem decode_varlen_records_exact:
  assumes "length bs \<le> isize_max" "n * 16 \<le> isize_max"
  shows "(decode_varlen_records bs n = Ok es \<longleftrightarrow> length es = n \<and> records_ok es \<and> bs = encode_records es) \<and>
    decode_varlen_records bs n \<noteq> Err ColPanic"
proof (intro conjI iffI)
  assume "decode_varlen_records bs n = Ok es"
  then have "varlen_loop bs n 0 0 [] = Ok (es, length bs)"
    using assms(2) by (auto simp: decode_varlen_records_def split: sum.splits prod.splits if_splits)
  then show "length es = n" "records_ok es" "bs = encode_records es"
    using varlen_loop_sound [OF assms(1), of 0 n 0 "[]" es "length bs"] by auto
next
  assume "length es = n \<and> records_ok es \<and> bs = encode_records es"
  then show "decode_varlen_records bs n = Ok es"
    using varlen_loop_complete [OF assms(1), of 0 es "[]" 0 "[]"] assms(2)
    by (auto simp: decode_varlen_records_def)
next
  show "decode_varlen_records bs n \<noteq> Err ColPanic"
    using assms varlen_loop_no_panic [OF assms(1), of 0 n 0 "[]"]
    by (auto simp: decode_varlen_records_def split: sum.splits if_splits)
qed

theorem decode_varlen_records_exact_witness:
  "decode_varlen_records (encode_records [''ab'', []]) 2 = Ok [''ab'', []]"
  using decode_varlen_records_exact [of "encode_records [''ab'', []]" 2 "[''ab'', []]"]
  by (simp add: isize_max_def records_ok_def)

text \<open>
  C34: a fixed-width column is built exactly when the byte count is the row count times the
  element size.  The product is computed with wrap-around, but a row count so large that it wraps
  is refused by the array validation, so no array ever claims more rows than its bytes hold.
\<close>

theorem fixed_column_built_iff:
  assumes "column_laws C" "fixed_dtype d = Some (sz, dt)" "length bs \<le> isize_max"
  shows "is_ok (build_column_array C bs d n) \<longleftrightarrow> length bs = n * sz"
  using assms by (rule column_laws.fixed_col_iff)

theorem fixed_column_built_iff_witness:
  "\<not> is_ok (build_column_array ref_columns [] ''s64'' 2305843009213693952) \<and>
   usize_mul 2305843009213693952 8 = length ([] :: bytes)"
proof -
  have "fixed_dtype ''s64'' = Some (8, DInt64)" by (simp add: fixed_dtype_def)
  from fixed_column_built_iff [OF ref_mem.column_laws_axioms this, of "[]" 2305843009213693952]
  show ?thesis by (simp add: usize_mul_def)
qed



text \<open>
  A huge row count for a variable-length column panics instead of returning an error: the
  vector is allocated for the declared number of rows before any byte is looked at.
\<close>

theorem varlen_row_count_panics:
  "record_batch_from_column_binary K C name [] ''utf8'' 576460752303423488 = ErrorTuple ColPanic"
  by (simp add: record_batch_from_column_binary_def build_column_array_def fixed_dtype_def
      build_str_col_def decode_varlen_records_def isize_max_def)

end
