(* ===== verification/Adbc.thy ===== *)
theory Adbc
  imports Batch_Stream
begin

text \<open>
  The ADBC client (\<open>adbc.rs\<close>): decoding of the driver options, opening databases, connections
  and statements through the driver manager, and the result stream that hands out collected
  batches.  The driver manager is the parameter \<open>adbc_api\<close>.  A statement or connection handle is
  a mutex around the driver's object.  The result stream is polled in three critical sections, so
  besides its sequential model there is a step relation for concurrent callers.
\<close>

section \<open>Driver options\<close>

datatype DriverSpec =
    SpecPath string "string option" "string option" "string option"
  | SpecName string "string option"

datatype adbc_error =
    OptsNotList | AOptNotTuple | AOptKeyNotAtom
  | DriverPathNotString | DriverNameNotString | UriNotString | PathNotString | EntrypointNotString
  | NoDriver
  | DriverError string
  | ConnectionLock | StatementLock | StreamLock | StreamIndexLock
  | TableNameNotString | DepthNotString | BadDepth string
  | BatchIndexPanic

record driver_opts =
  do_driver_path :: "string option"
  do_driver_name :: "string option"
  do_uri :: "string option"
  do_db_path :: "string option"
  do_entrypoint :: "string option"

definition driver_opts_empty :: driver_opts where
  "driver_opts_empty =
     \<lparr>do_driver_path = None, do_driver_name = None, do_uri = None, do_db_path = None, do_entrypoint = None\<rparr>"

text \<open>One iteration of the option loop; a tuple that is not a pair is skipped, and so is an unknown key.\<close>

definition driver_opt_item :: "driver_opts \<Rightarrow> beam_term \<Rightarrow> (driver_opts, adbc_error) result" where
  "driver_opt_item d item =
     (case get_tuple item of
        None \<Rightarrow> Err AOptNotTuple
      | Some [k, v] \<Rightarrow>
          (case decode_atom k of
             None \<Rightarrow> Err AOptKeyNotAtom
           | Some key \<Rightarrow>
               if key = ''driver_path'' then
                 (case decode_string v of None \<Rightarrow> Err DriverPathNotString
                  | Some s \<Rightarrow> Ok (d\<lparr>do_driver_path := Some s\<rparr>))
               else if key = ''driver_name'' then
                 (case decode_string v of None \<Rightarrow> Err DriverNameNotString
                  | Some s \<Rightarrow> Ok (d\<lparr>do_driver_name := Some s\<rparr>))
               else if key = ''uri'' then
                 (case decode_string v of None \<Rightarrow> Err UriNotString
                  | Some s \<Rightarrow> Ok (d\<lparr>do_uri := Some s\<rparr>))
               else if key = ''path'' then
                 (case decode_string v of None \<Rightarrow> Err PathNotString
                  | Some s \<Rightarrow> Ok (d\<lparr>do_db_path := Some s\<rparr>))
               else if key = ''entrypoint'' then
                 (case decode_string v of None \<Rightarrow> Err EntrypointNotString
                  | Some s \<Rightarrow> Ok (d\<lparr>do_entrypoint := Some s\<rparr>))
               else Ok d)
      | Some _ \<Rightarrow> Ok d)"

definition driver_spec_of :: "driver_opts \<Rightarrow> (DriverSpec, adbc_error) result" where
  "driver_spec_of d =
     (case do_driver_path d of
        Some p \<Rightarrow> Ok (SpecPath p (do_uri d) (do_db_path d) (do_entrypoint d))
      | None \<Rightarrow>
          (case do_driver_name d of
             Some n \<Rightarrow> Ok (SpecName n (do_uri d))
           | None \<Rightarrow> Err NoDriver))"

definition decode_driver_spec :: "beam_term \<Rightarrow> (DriverSpec, adbc_error) result" where
  "decode_driver_spec t =
     (case decode_string t of
        Some path \<Rightarrow> Ok (SpecPath path None None None)
      | None \<Rightarrow>
          (case decode_list t of
             None \<Rightarrow> Err OptsNotList
           | Some items \<Rightarrow>
               (case foldM_result driver_opt_item driver_opts_empty items of
                  Err e \<Rightarrow> Err e
                | Ok d \<Rightarrow> driver_spec_of d)))"

section \<open>The driver manager as a parameter\<close>

datatype OptionDatabase = OptUri | OptOther string

datatype ObjectDepth = DepthAll | DepthCatalogs | DepthSchemas | DepthTables | DepthColumns

text \<open>A reader: its schema and the items its iterator yields.\<close>

type_synonym adbc_reader = "Schema \<times> (RecordBatch, string) result list"

record ('drv, 'db, 'conn, 'stmt) adbc_api =
  load_dynamic_from_filename :: "string \<Rightarrow> bytes option \<Rightarrow> ('drv, string) result"
  load_dynamic_from_name :: "string \<Rightarrow> ('drv, string) result"
  new_database :: "'drv \<Rightarrow> ('db, string) result \<times> 'drv"
  new_database_with_opts :: "'drv \<Rightarrow> (OptionDatabase \<times> string) list \<Rightarrow> ('db, string) result \<times> 'drv"
  new_connection :: "'db \<Rightarrow> ('conn, string) result"
  new_statement :: "'conn \<Rightarrow> ('stmt, string) result \<times> 'conn"
  set_sql_query :: "'stmt \<Rightarrow> string \<Rightarrow> (unit, string) result \<times> 'stmt"
  st_execute :: "'stmt \<Rightarrow> (adbc_reader, string) result \<times> 'stmt"
  st_bind :: "'stmt \<Rightarrow> RecordBatch \<Rightarrow> (unit, string) result \<times> 'stmt"
  get_table_types :: "'conn \<Rightarrow> (adbc_reader, string) result"
  get_table_schema :: "'conn \<Rightarrow> string option \<Rightarrow> string option \<Rightarrow> string \<Rightarrow> (Schema, string) result"
  get_objects ::
    "'conn \<Rightarrow> ObjectDepth \<Rightarrow> string option \<Rightarrow> string option \<Rightarrow> string option \<Rightarrow>
     string list option \<Rightarrow> string option \<Rightarrow> (adbc_reader, string) result"

section \<open>Databases, connections and statements\<close>

record ('drv, 'db) AdbcDatabase =
  ad_driver :: 'drv
  ad_database :: 'db

definition database_opts :: "string option \<Rightarrow> string option \<Rightarrow> (OptionDatabase \<times> string) list" where
  "database_opts uri db_path =
     (case uri of None \<Rightarrow> [] | Some u \<Rightarrow> [(OptUri, u)]) @
     (case db_path of None \<Rightarrow> [] | Some p \<Rightarrow> [(OptOther ''path'', p)])"

definition database_reply ::
  "('db, string) result \<times> 'drv \<Rightarrow> (('drv, 'db) AdbcDatabase, adbc_error) nif_term" where
  "database_reply r =
     (case r of
        (Err e, d) \<Rightarrow> err_encode (DriverError e)
      | (Ok db, d) \<Rightarrow> ok_encode \<lparr>ad_driver = d, ad_database = db\<rparr>)"

definition adbc_database_open ::
  "('drv, 'db, 'conn, 'stmt) adbc_api \<Rightarrow> beam_term \<Rightarrow> (('drv, 'db) AdbcDatabase, adbc_error) nif_term"
where
  "adbc_database_open A t =
     (case decode_driver_spec t of
        Err e \<Rightarrow> err_encode e
      | Ok (SpecPath path uri db_path entrypoint) \<Rightarrow>
          (case load_dynamic_from_filename A path entrypoint of
             Err e \<Rightarrow> err_encode (DriverError e)
           | Ok d \<Rightarrow>
               let db_opts = database_opts uri db_path in
               if db_opts = [] then database_reply (new_database A d)
               else database_reply (new_database_with_opts A d db_opts))
      | Ok (SpecName name uri) \<Rightarrow>
          (case load_dynamic_from_name A name of
             Err e \<Rightarrow> err_encode (DriverError e)
           | Ok d \<Rightarrow>
               (case uri of
                  Some u \<Rightarrow> database_reply (new_database_with_opts A d [(OptUri, u)])
                | None \<Rightarrow> database_reply (new_database A d))))"

type_synonym 'conn AdbcConnection = "'conn Mutex"
type_synonym 'stmt AdbcStatement = "'stmt Mutex"

definition adbc_connection_open ::
  "('drv, 'db, 'conn, 'stmt) adbc_api \<Rightarrow> ('drv, 'db) AdbcDatabase \<Rightarrow>
   ('conn AdbcConnection, adbc_error) nif_term" where
  "adbc_connection_open A db =
     (case new_connection A (ad_database db) of
        Err e \<Rightarrow> err_encode (DriverError e)
      | Ok c \<Rightarrow> ok_encode (mutex_new c))"

definition adbc_statement_new ::
  "('drv, 'db, 'conn, 'stmt) adbc_api \<Rightarrow> 'conn AdbcConnection \<Rightarrow>
   ('stmt AdbcStatement, adbc_error) nif_term \<times> 'conn AdbcConnection" where
  "adbc_statement_new A c =
     (case lock c of
        Err _ \<Rightarrow> (err_encode ConnectionLock, c)
      | Ok conn \<Rightarrow>
          (case new_statement A conn of
             (Err e, conn') \<Rightarrow> (err_encode (DriverError e), c\<lparr>inner := conn'\<rparr>)
           | (Ok st, conn') \<Rightarrow> (ok_encode (mutex_new st), c\<lparr>inner := conn'\<rparr>)))"

definition adbc_statement_set_sql ::
  "('drv, 'db, 'conn, 'stmt) adbc_api \<Rightarrow> 'stmt AdbcStatement \<Rightarrow> string \<Rightarrow>
   (unit, adbc_error) nif_term \<times> 'stmt AdbcStatement" where
  "adbc_statement_set_sql A s sql =
     (case lock s of
        Err _ \<Rightarrow> (err_encode StatementLock, s)
      | Ok st \<Rightarrow>
          (case set_sql_query A st sql of
             (Ok _, st') \<Rightarrow> (AtomOk, s\<lparr>inner := st'\<rparr>)
           | (Err e, st') \<Rightarrow> (err_encode (DriverError e), s\<lparr>inner := st'\<rparr>)))"

definition adbc_statement_bind ::
  "('drv, 'db, 'conn, 'stmt) adbc_api \<Rightarrow> 'stmt AdbcStatement \<Rightarrow> RecordBatch \<Rightarrow>
   (unit, adbc_error) nif_term \<times> 'stmt AdbcStatement" where
  "adbc_statement_bind A s b =
     (case lock s of
        Err _ \<Rightarrow> (err_encode StatementLock, s)
      | Ok st \<Rightarrow>
          (case st_bind A st b of
             (Ok _, st') \<Rightarrow> (AtomOk, s\<lparr>inner := st'\<rparr>)
           | (Err e, st') \<Rightarrow> (err_encode (DriverError e), s\<lparr>inner := st'\<rparr>)))"

section \<open>The result stream\<close>

record AdbcResultStream =
  rs_schema :: Schema
  rs_batches :: "RecordBatch list Mutex"
  rs_index :: "nat Mutex"

definition stream_of_reader :: "adbc_reader \<Rightarrow> (AdbcResultStream, adbc_error) nif_term" where
  "stream_of_reader r =
     (case collect (\<lambda>item. item) (snd r) of
        Err e \<Rightarrow> err_encode (DriverError e)
      | Ok batches \<Rightarrow>
          ok_encode \<lparr>rs_schema = fst r, rs_batches = mutex_new batches, rs_index = mutex_new 0\<rparr>)"

definition adbc_statement_execute ::
  "('drv, 'db, 'conn, 'stmt) adbc_api \<Rightarrow> 'stmt AdbcStatement \<Rightarrow>
   (AdbcResultStream, adbc_error) nif_term \<times> 'stmt AdbcStatement" where
  "adbc_statement_execute A s =
     (case lock s of
        Err _ \<Rightarrow> (err_encode StatementLock, s)
      | Ok st \<Rightarrow>
          (case st_execute A st of
             (Err e, st') \<Rightarrow> (err_encode (DriverError e), s\<lparr>inner := st'\<rparr>)
           | (Ok reader, st') \<Rightarrow> (stream_of_reader reader, s\<lparr>inner := st'\<rparr>)))"

definition adbc_stream_schema :: "AdbcResultStream \<Rightarrow> (Schema, adbc_error) nif_term" where
  "adbc_stream_schema s = Untagged (rs_schema s)"

definition adbc_stream_next ::
  "AdbcResultStream \<Rightarrow> (RecordBatch, adbc_error) nif_term \<times> AdbcResultStream" where
  "adbc_stream_next s =
     (case lock (rs_batches s) of
        Err _ \<Rightarrow> (err_encode StreamLock, s)
      | Ok bs \<Rightarrow>
          let len = length bs in
          (case lock (rs_index s) of
             Err _ \<Rightarrow> (err_encode StreamIndexLock, s)
           | Ok i \<Rightarrow>
               if len \<le> i then (AtomDone, s)
               else
                 let s1 = s\<lparr>rs_index := (rs_index s)\<lparr>inner := i + 1\<rparr>\<rparr> in
                 (case lock (rs_batches s1) of
                    Err _ \<Rightarrow> (err_encode StreamLock, s1)
                  | Ok bs1 \<Rightarrow>
                      if length bs1 \<le> i
                      then (err_encode BatchIndexPanic, s1\<lparr>rs_batches := (rs_batches s1)\<lparr>poisoned := True\<rparr>\<rparr>)
                      else (ok_encode (bs1 ! i), s1))))"

section \<open>Connection metadata\<close>

definition adbc_connection_get_table_types ::
  "('drv, 'db, 'conn, 'stmt) adbc_api \<Rightarrow> 'conn AdbcConnection \<Rightarrow> (AdbcResultStream, adbc_error) nif_term"
where
  "adbc_connection_get_table_types A c =
     (case lock c of
        Err _ \<Rightarrow> err_encode ConnectionLock
      | Ok conn \<Rightarrow>
          (case get_table_types A conn of
             Ok reader \<Rightarrow> stream_of_reader reader
           | Err e \<Rightarrow> err_encode (DriverError e)))"

definition decode_optional_string :: "beam_term \<Rightarrow> string option" where
  "decode_optional_string t = decode_string t"

definition adbc_connection_get_table_schema ::
  "('drv, 'db, 'conn, 'stmt) adbc_api \<Rightarrow> 'conn AdbcConnection \<Rightarrow> beam_term \<Rightarrow> beam_term \<Rightarrow> beam_term \<Rightarrow>
   (Schema, adbc_error) nif_term" where
  "adbc_connection_get_table_schema A c catalog db_schema table_name =
     (case decode_string table_name of
        None \<Rightarrow> err_encode TableNameNotString
      | Some name \<Rightarrow>
          (case lock c of
             Err _ \<Rightarrow> err_encode ConnectionLock
           | Ok conn \<Rightarrow>
               (case get_table_schema A conn (decode_optional_string catalog)
                       (decode_optional_string db_schema) name of
                  Ok s \<Rightarrow> Untagged s
                | Err e \<Rightarrow> err_encode (DriverError e))))"

definition decode_object_depth :: "string \<Rightarrow> (ObjectDepth, adbc_error) result" where
  "decode_object_depth s =
     (if s = ''all'' then Ok DepthAll
      else if s = ''catalogs'' then Ok DepthCatalogs
      else if s = ''schemas'' then Ok DepthSchemas
      else if s = ''tables'' then Ok DepthTables
      else if s = ''columns'' then Ok DepthColumns
      else Err (BadDepth s))"

definition adbc_connection_get_objects ::
  "('drv, 'db, 'conn, 'stmt) adbc_api \<Rightarrow> 'conn AdbcConnection \<Rightarrow> beam_term \<Rightarrow> beam_term \<Rightarrow> beam_term \<Rightarrow>
   beam_term \<Rightarrow> beam_term \<Rightarrow> (AdbcResultStream, adbc_error) nif_term" where
  "adbc_connection_get_objects A c depth catalog db_schema table_name column_name =
     (case decode_string depth of
        None \<Rightarrow> err_encode DepthNotString
      | Some depth_str \<Rightarrow>
          (case decode_object_depth depth_str of
             Err e \<Rightarrow> err_encode e
           | Ok depth_val \<Rightarrow>
               (case lock c of
                  Err _ \<Rightarrow> err_encode ConnectionLock
                | Ok conn \<Rightarrow>
                    (case get_objects A conn depth_val (decode_optional_string catalog)
                            (decode_optional_string db_schema) (decode_optional_string table_name)
                            None (decode_optional_string column_name) of
                       Ok reader \<Rightarrow> stream_of_reader reader
                     | Err e \<Rightarrow> err_encode (DriverError e)))))"

section \<open>Polling a result stream\<close>

definition stream_live :: "AdbcResultStream \<Rightarrow> bool" where
  "stream_live s \<longleftrightarrow> \<not> poisoned (rs_batches s) \<and> \<not> poisoned (rs_index s)"

definition stream_pending :: "AdbcResultStream \<Rightarrow> (RecordBatch, adbc_error) result list" where
  "stream_pending s = map Ok (drop (inner (rs_index s)) (inner (rs_batches s)))"

lemma adbc_stream_next_live:
  assumes "stream_live s"
  shows "adbc_stream_next s =
    (if length (inner (rs_batches s)) \<le> inner (rs_index s) then (AtomDone, s)
     else (OkTuple (inner (rs_batches s) ! inner (rs_index s)),
           s\<lparr>rs_index := (rs_index s)\<lparr>inner := inner (rs_index s) + 1\<rparr>\<rparr>))"
  using assms by (simp add: adbc_stream_next_def stream_live_def lock_def Let_def)

interpretation adbc: record_stream adbc_stream_next stream_pending stream_live
proof unfold_locales
  fix s assume "stream_live s"
  then show "stream_live (snd (adbc_stream_next s))"
    using adbc_stream_next_live [of s] by (auto simp: stream_live_def)
next
  fix s assume "stream_live s" "stream_pending s = []"
  then show "fst (adbc_stream_next s) = AtomDone \<and> stream_pending (snd (adbc_stream_next s)) = []"
    using adbc_stream_next_live [of s] by (auto simp: stream_pending_def)
next
  fix s x xs assume l: "stream_live s" and p: "stream_pending s = x # xs"
  then have "inner (rs_index s) < length (inner (rs_batches s))"
    by (auto simp: stream_pending_def not_le [symmetric])
  then have "stream_pending s =
      Ok (inner (rs_batches s) ! inner (rs_index s)) #
      map Ok (drop (inner (rs_index s) + 1) (inner (rs_batches s)))"
    by (simp add: stream_pending_def Cons_nth_drop_Suc [symmetric])
  then show "fst (adbc_stream_next s) = reply_of x \<and> stream_pending (snd (adbc_stream_next s)) = xs"
    using p adbc_stream_next_live [OF l] by (auto simp: stream_pending_def)
qed

lemma stream_of_reader_Ok:
  assumes "stream_of_reader r = OkTuple strm"
  obtains bs where "snd r = map Ok bs" "stream_live strm" "stream_pending strm = map Ok bs"
    "rs_schema strm = fst r"
proof -
  from assms obtain bs where bs: "collect (\<lambda>item. item) (snd r) = Ok bs"
    and strm: "strm = \<lparr>rs_schema = fst r, rs_batches = mutex_new bs, rs_index = mutex_new 0\<rparr>"
    by (auto simp: stream_of_reader_def split: sum.splits)
  have "snd r = map Ok bs"
    using bs by (auto simp: collect_eq_Ok list_all2_conv_all_nth intro: nth_equalityI)
  then show thesis using that strm by (simp add: stream_live_def stream_pending_def)
qed

text \<open>
  C32: executing a statement and polling its stream delivers every batch the driver's reader
  yields, once and in order, and then \<open>:done\<close> for ever; the reported schema is the reader's.
\<close>

theorem adbc_execute_delivers:
  assumes "adbc_statement_execute A s = (OkTuple strm, s')"
  shows "\<exists>sch bs. fst (st_execute A (inner s)) = Ok (sch, map Ok bs) \<and>
    adbc_stream_schema strm = Untagged sch \<and>
    (\<forall>n. fst (poll adbc_stream_next n strm) =
       map OkTuple (take n bs) @ replicate (n - length bs) AtomDone)"
proof -
  from assms obtain r where x: "fst (st_execute A (inner s)) = Ok r" and r: "stream_of_reader r = OkTuple strm"
    by (auto simp: adbc_statement_execute_def split: sum.splits prod.splits)
  obtain bs where bs: "snd r = map Ok bs" "stream_live strm" "stream_pending strm = map Ok bs"
    "rs_schema strm = fst r" by (rule stream_of_reader_Ok [OF r])
  have "fst (poll adbc_stream_next n strm) = map OkTuple (take n bs) @ replicate (n - length bs) AtomDone" for n
    using adbc.poll_replies [OF bs(2), of n] by (simp add: bs(3) take_map comp_def)
  then show ?thesis using x bs
    by (intro exI [of _ "fst r"] exI [of _ bs]) (auto simp: adbc_stream_schema_def simp flip: bs(1))
qed

text \<open>A driver whose statements always return two batches.\<close>

definition sample_driver :: "(unit, unit, unit, unit) adbc_api" where
  "sample_driver =
     \<lparr>load_dynamic_from_filename = (\<lambda>_ _. Ok ()), load_dynamic_from_name = (\<lambda>_. Ok ()),
      new_database = (\<lambda>d. (Ok (), d)), new_database_with_opts = (\<lambda>d _. (Ok (), d)),
      new_connection = (\<lambda>_. Ok ()), new_statement = (\<lambda>c. (Ok (), c)),
      set_sql_query = (\<lambda>s _. (Ok (), s)),
      st_execute = (\<lambda>s. (Ok (schema sample_batch, [Ok sample_batch, Ok (batch_sel [0] sample_batch)]), s)),
      st_bind = (\<lambda>s _. (Ok (), s)), get_table_types = (\<lambda>_. Err ''unsupported''),
      get_table_schema = (\<lambda>_ _ _ _. Err ''unsupported''),
      get_objects = (\<lambda>_ _ _ _ _ _ _. Err ''unsupported'')\<rparr>"

theorem adbc_execute_delivers_witness:
  "\<exists>bs. ([Ok sample_batch, Ok (batch_sel [0] sample_batch)] :: (RecordBatch, string) result list) = map Ok bs \<and>
     fst (poll adbc_stream_next 3
       \<lparr>rs_schema = schema sample_batch,
        rs_batches = mutex_new [sample_batch, batch_sel [0] sample_batch], rs_index = mutex_new 0\<rparr>) =
     map OkTuple (take 3 bs) @ replicate (3 - length bs) AtomDone"
proof -
  let ?strm = "\<lparr>rs_schema = schema sample_batch,
        rs_batches = mutex_new [sample_batch, batch_sel [0] sample_batch], rs_index = mutex_new 0\<rparr>"
  have e: "adbc_statement_execute sample_driver (mutex_new ()) = (OkTuple ?strm, mutex_new ())"
    by (simp add: adbc_statement_execute_def lock_def sample_driver_def stream_of_reader_def mutex_new_def)
  from adbc_execute_delivers [OF e] obtain sch bs
    where "fst (st_execute sample_driver (inner (mutex_new ()))) = Ok (sch, map Ok bs)"
      and "fst (poll adbc_stream_next 3 ?strm) = map OkTuple (take 3 bs) @ replicate (3 - length bs) AtomDone"
    by blast
  then show ?thesis by (intro exI [of _ bs]) (simp add: sample_driver_def)
qed

section \<open>Concurrent callers\<close>

text \<open>
  \<open>adbc_stream_next\<close> takes the batch lock, the index lock and the batch lock again, and
  releases each before the next, so calls of several BEAM processes interleave between these
  critical sections.  A caller is before a call, knows the number of batches, or has claimed an
  index.  The trace records what the calls return, latest first.
\<close>

datatype call_pc = Idle | HaveLen nat | HaveIndex nat

datatype call_event = Delivered nat RecordBatch | SawDone | LockFailed adbc_error | Panicked

record 'p callers =
  cl_stream :: AdbcResultStream
  cl_pc :: "'p \<Rightarrow> call_pc"
  cl_trace :: "('p \<times> call_event) list"

definition finish_call :: "'p \<Rightarrow> call_event \<Rightarrow> 'p callers \<Rightarrow> 'p callers" where
  "finish_call p ev c = c\<lparr>cl_pc := (cl_pc c)(p := Idle), cl_trace := (p, ev) # cl_trace c\<rparr>"

inductive call_step :: "'p callers \<Rightarrow> 'p callers \<Rightarrow> bool" where
  read_len: "cl_pc c p = Idle \<Longrightarrow> lock (rs_batches (cl_stream c)) = Ok bs \<Longrightarrow>
    call_step c (c\<lparr>cl_pc := (cl_pc c)(p := HaveLen (length bs))\<rparr>)"
| len_locked: "cl_pc c p = Idle \<Longrightarrow> lock (rs_batches (cl_stream c)) = Err () \<Longrightarrow>
    call_step c (finish_call p (LockFailed StreamLock) c)"
| see_done: "cl_pc c p = HaveLen len \<Longrightarrow> lock (rs_index (cl_stream c)) = Ok i \<Longrightarrow> len \<le> i \<Longrightarrow>
    call_step c (finish_call p SawDone c)"
| claim: "cl_pc c p = HaveLen len \<Longrightarrow> lock (rs_index (cl_stream c)) = Ok i \<Longrightarrow> i < len \<Longrightarrow>
    call_step c (c\<lparr>cl_stream := (cl_stream c)\<lparr>rs_index := (rs_index (cl_stream c))\<lparr>inner := i + 1\<rparr>\<rparr>,
                   cl_pc := (cl_pc c)(p := HaveIndex i)\<rparr>)"
| index_locked: "cl_pc c p = HaveLen len \<Longrightarrow> lock (rs_index (cl_stream c)) = Err () \<Longrightarrow>
    call_step c (finish_call p (LockFailed StreamIndexLock) c)"
| fetch: "cl_pc c p = HaveIndex i \<Longrightarrow> lock (rs_batches (cl_stream c)) = Ok bs \<Longrightarrow> i < length bs \<Longrightarrow>
    call_step c (finish_call p (Delivered i (bs ! i)) c)"
| fetch_panic: "cl_pc c p = HaveIndex i \<Longrightarrow> lock (rs_batches (cl_stream c)) = Ok bs \<Longrightarrow> length bs \<le> i \<Longrightarrow>
    call_step c (finish_call p Panicked
      (c\<lparr>cl_stream := (cl_stream c)\<lparr>rs_batches := (rs_batches (cl_stream c))\<lparr>poisoned := True\<rparr>\<rparr>\<rparr>))"
| fetch_locked: "cl_pc c p = HaveIndex i \<Longrightarrow> lock (rs_batches (cl_stream c)) = Err () \<Longrightarrow>
    call_step c (finish_call p (LockFailed StreamLock) c)"

text \<open>Reachable from a fresh stream over \<open>bs\<close> with nobody calling.\<close>

inductive reachable :: "Schema \<Rightarrow> RecordBatch list \<Rightarrow> 'p callers \<Rightarrow> bool" for sch bs where
  start: "reachable sch bs
    \<lparr>cl_stream = \<lparr>rs_schema = sch, rs_batches = mutex_new bs, rs_index = mutex_new 0\<rparr>,
     cl_pc = (\<lambda>_. Idle), cl_trace = []\<rparr>"
| move: "reachable sch bs c \<Longrightarrow> call_step c c' \<Longrightarrow> reachable sch bs c'"

definition delivered :: "('p \<times> call_event) list \<Rightarrow> nat list" where
  "delivered tr = [i. (p, Delivered i b) \<leftarrow> tr]"

definition event_ok :: "RecordBatch list \<Rightarrow> call_event \<Rightarrow> bool" where
  "event_ok bs ev =
     (case ev of Delivered i b \<Rightarrow> i < length bs \<and> b = bs ! i | SawDone \<Rightarrow> True | _ \<Rightarrow> False)"

definition in_flight :: "('p \<Rightarrow> call_pc) \<Rightarrow> nat set" where
  "in_flight pc = {i. \<exists>p. pc p = HaveIndex i}"

definition single_claim :: "('p \<Rightarrow> call_pc) \<Rightarrow> bool" where
  "single_claim pc \<longleftrightarrow> (\<forall>p q i. pc p = HaveIndex i \<longrightarrow> pc q = HaveIndex i \<longrightarrow> p = q)"

lemma in_flight_other:
  "(\<forall>i. pc p \<noteq> HaveIndex i) \<Longrightarrow> (\<forall>i. v \<noteq> HaveIndex i) \<Longrightarrow> in_flight (pc(p := v)) = in_flight pc"
  by (auto simp: in_flight_def)

lemma in_flight_claim:
  "(\<forall>i. pc p \<noteq> HaveIndex i) \<Longrightarrow> in_flight (pc(p := HaveIndex j)) = insert j (in_flight pc)"
  by (auto simp: in_flight_def)

lemma in_flight_drop:
  "single_claim pc \<Longrightarrow> pc p = HaveIndex j \<Longrightarrow> in_flight (pc(p := Idle)) = in_flight pc - {j}"
  by (auto simp: in_flight_def single_claim_def) (metis call_pc.inject(2) fun_upd_other)

lemma single_claim_upd:
  "single_claim pc \<Longrightarrow> (\<forall>i. v = HaveIndex i \<longrightarrow> i \<notin> in_flight pc) \<Longrightarrow> single_claim (pc(p := v))"
  by (auto simp: single_claim_def in_flight_def)

definition lens_ok :: "nat \<Rightarrow> ('p \<Rightarrow> call_pc) \<Rightarrow> bool" where
  "lens_ok n pc \<longleftrightarrow> (\<forall>p k. pc p = HaveLen k \<longrightarrow> k = n)"

lemma lens_okD: "lens_ok n pc \<Longrightarrow> pc p = HaveLen k \<Longrightarrow> k = n"
  by (simp add: lens_ok_def)

lemma lens_ok_upd: "lens_ok n pc \<Longrightarrow> (\<forall>k. v = HaveLen k \<longrightarrow> k = n) \<Longrightarrow> lens_ok n (pc(p := v))"
  by (simp add: lens_ok_def)

definition callers_inv :: "RecordBatch list \<Rightarrow> 'p callers \<Rightarrow> bool" where
  "callers_inv bs c \<longleftrightarrow>
     rs_batches (cl_stream c) = mutex_new bs \<and> \<not> poisoned (rs_index (cl_stream c)) \<and>
     inner (rs_index (cl_stream c)) \<le> length bs \<and>
     lens_ok (length bs) (cl_pc c) \<and>
     single_claim (cl_pc c) \<and> distinct (delivered (cl_trace c)) \<and>
     in_flight (cl_pc c) \<inter> set (delivered (cl_trace c)) = {} \<and>
     set (delivered (cl_trace c)) \<union> in_flight (cl_pc c) = {..<inner (rs_index (cl_stream c))} \<and>
     (\<forall>e \<in> set (cl_trace c). event_ok bs (snd e)) \<and>
     (SawDone \<in> snd ` set (cl_trace c) \<longrightarrow> inner (rs_index (cl_stream c)) = length bs)"

lemma delivered_simps [simp]:
  "delivered [] = []" "delivered ((p, Delivered i b) # tr) = i # delivered tr"
  "delivered ((p, SawDone) # tr) = delivered tr"
  by (simp_all add: delivered_def)

lemma callers_inv_step:
  assumes "call_step c c'" "callers_inv bs c"
  shows "callers_inv bs c'"
  using assms
proof (induction rule: call_step.induct)
  case (read_len c p bs')
  then show ?case by (auto simp: callers_inv_def in_flight_other intro!: single_claim_upd lens_ok_upd)
next
  case (see_done c p len i)
  note inv = see_done.prems [unfolded callers_inv_def]
  have "len = length bs" using lens_okD [of "length bs" "cl_pc c" p len] see_done.hyps(1) inv by simp
  then have i: "inner (rs_index (cl_stream c)) = length bs"
    using inv see_done.hyps(2,3) by (auto intro: le_antisym)
  have "single_claim ((cl_pc c)(p := Idle))" "lens_ok (length bs) ((cl_pc c)(p := Idle))"
    using inv by (auto intro: single_claim_upd lens_ok_upd)
  moreover have "in_flight ((cl_pc c)(p := Idle)) = in_flight (cl_pc c)"
    by (rule in_flight_other) (simp_all add: see_done.hyps(1))
  ultimately show ?case unfolding callers_inv_def finish_call_def using inv
    by (auto simp: event_ok_def i)
next
  case (claim c p len i)
  then have "i \<notin> set (delivered (cl_trace c)) \<union> in_flight (cl_pc c)" "len = length bs"
    by (auto simp: callers_inv_def dest: lens_okD)
  with claim show ?case
    by (auto simp: callers_inv_def in_flight_claim lessThan_Suc intro!: single_claim_upd lens_ok_upd)
next
  case (fetch c p i bs')
  then have "i \<in> in_flight (cl_pc c)" by (auto simp: in_flight_def)
  with fetch show ?case
    by (auto simp: callers_inv_def finish_call_def event_ok_def in_flight_drop intro!: single_claim_upd lens_ok_upd)
next
  case (fetch_panic c p i bs')
  then have "i \<in> in_flight (cl_pc c)" by (auto simp: in_flight_def)
  with fetch_panic show ?case by (auto simp: callers_inv_def)
qed (auto simp: callers_inv_def)

lemma reachable_inv: "reachable sch bs c \<Longrightarrow> callers_inv bs c"
proof (induction rule: reachable.induct)
  case start
  then show ?case by (simp add: callers_inv_def in_flight_def single_claim_def lens_ok_def)
next
  case (move c c')
  then show ?case using callers_inv_step by blast
qed

text \<open>
  C8: however the calls of concurrent processes interleave, each batch of an ADBC result stream
  is delivered at most once, every delivery is the batch at its index, no call indexes out of
  bounds or finds a poisoned lock, and once a caller has seen \<open>:done\<close> and no call is in flight
  every batch has been delivered to exactly one caller.
\<close>

theorem adbc_concurrent_delivery:
  assumes "reachable sch bs c"
  shows "distinct (delivered (cl_trace c)) \<and>
    (\<forall>(p, ev) \<in> set (cl_trace c). event_ok bs ev) \<and>
    (SawDone \<in> snd ` set (cl_trace c) \<and> (\<forall>p. cl_pc c p = Idle) \<longrightarrow>
       set (delivered (cl_trace c)) = {..<length bs})"
proof -
  have inv: "callers_inv bs c" using reachable_inv [OF assms] .
  have "in_flight (cl_pc c) = {}" if "\<forall>p. cl_pc c p = Idle" using that by (simp add: in_flight_def)
  with inv show ?thesis by (auto simp: callers_inv_def)
qed

text \<open>Two callers and two batches: the second caller overtakes the first between its sections.\<close>

lemma sample_interleaving:
  "\<exists>c. reachable (schema sample_batch) [sample_batch] (c :: bool callers) \<and>
     cl_trace c = [(True, Delivered 0 sample_batch), (False, SawDone)] \<and> (\<forall>p. cl_pc c p = Idle)"
proof -
  let ?s = "\<lambda>i. \<lparr>rs_schema = schema sample_batch, rs_batches = mutex_new [sample_batch], rs_index = mutex_new i\<rparr>"
  let ?c = "\<lambda>i pc tr. \<lparr>cl_stream = ?s i, cl_pc = pc, cl_trace = tr\<rparr> :: bool callers"
  let ?r = "reachable (schema sample_batch) [sample_batch] :: bool callers \<Rightarrow> bool"
  have upd: "mutex_new i\<lparr>inner := j\<rparr> = mutex_new j" for i j :: nat by (simp add: mutex_new_def)
  have 0: "?r (?c 0 (\<lambda>_. Idle) [])" by (rule start)
  have 1: "?r (?c 0 ((\<lambda>_. Idle)(True := HaveLen 1)) [])"
    using move [OF 0 read_len [of _ True]] by simp
  have 2: "?r (?c 0 ((\<lambda>_. Idle)(True := HaveLen 1, False := HaveLen 1)) [])"
    using move [OF 1 read_len [of _ False]] by simp
  have 3: "?r (?c 1 ((\<lambda>_. Idle)(True := HaveIndex 0, False := HaveLen 1)) [])"
    using move [OF 2 claim [of _ True 1 0]] by (simp add: upd fun_upd_twist)
  have 4: "?r (?c 1 ((\<lambda>_. Idle)(True := HaveIndex 0)) [(False, SawDone)])"
    using move [OF 3 see_done [of _ False 1 1]] by (simp add: finish_call_def fun_upd_twist fun_upd_idem)
  have 5: "?r (?c 1 (\<lambda>_. Idle) [(True, Delivered 0 sample_batch), (False, SawDone)])"
    using move [OF 4 fetch [of _ True 0 "[sample_batch]"]] by (simp add: finish_call_def fun_upd_idem)
  then show ?thesis by (intro exI [of _ "?c 1 (\<lambda>_. Idle) [(True, Delivered 0 sample_batch), (False, SawDone)]"]) simp
qed

theorem adbc_concurrent_delivery_witness:
  "\<exists>c :: bool callers. cl_trace c = [(True, Delivered 0 sample_batch), (False, SawDone)] \<and>
     set (delivered (cl_trace c)) = {..<length [sample_batch]}"
proof -
  obtain c :: "bool callers" where c: "reachable (schema sample_batch) [sample_batch] c"
    "cl_trace c = [(True, Delivered 0 sample_batch), (False, SawDone)]" "\<forall>p. cl_pc c p = Idle"
    using sample_interleaving by blast
  have "SawDone \<in> snd ` set (cl_trace c)" using c(2) by simp
  then have "set (delivered (cl_trace c)) = {..<length [sample_batch]}"
    using adbc_concurrent_delivery [OF c(1)] c(3) by blast
  with c(2) show ?thesis by blast
qed

text \<open>An uninterrupted call performs exactly the sequential \<open>adbc_stream_next\<close>.\<close>

definition event_of :: "AdbcResultStream \<Rightarrow> call_event" where
  "event_of s =
     (case fst (adbc_stream_next s) of
        OkTuple b \<Rightarrow> Delivered (inner (rs_index s)) b
      | ErrorTuple e \<Rightarrow> (if e = BatchIndexPanic then Panicked else LockFailed e)
      | _ \<Rightarrow> SawDone)"

text \<open>
  A call that is not interrupted between its critical sections has the effect and the
  result of the sequential model: the three steps compose to \<open>adbc_stream_next\<close>, on every
  branch, poisoned locks included.
\<close>

theorem adbc_next_is_uninterrupted_call:
  assumes "cl_pc c p = Idle"
  shows "call_step\<^sup>*\<^sup>* c
    (c\<lparr>cl_stream := snd (adbc_stream_next (cl_stream c)),
       cl_trace := (p, event_of (cl_stream c)) # cl_trace c\<rparr>)"
proof -
  let ?s = "cl_stream c"
  let ?bs = "inner (rs_batches ?s)" and ?i = "inner (rs_index ?s)"
  have idle: "(cl_pc c)(p := Idle) = cl_pc c" using assms by (simp add: fun_upd_idem)
  let ?c1 = "c\<lparr>cl_pc := (cl_pc c)(p := HaveLen (length ?bs))\<rparr>"
  show ?thesis
  proof (cases "poisoned (rs_batches ?s)")
    case True
    then have "adbc_stream_next ?s = (ErrorTuple StreamLock, ?s)"
      by (simp add: adbc_stream_next_def lock_def)
    then show ?thesis using len_locked [OF assms] True
      by (auto simp: event_of_def finish_call_def idle intro!: r_into_rtranclp)
  next
    case b: False
    have 1: "call_step c ?c1" using read_len [OF assms, of ?bs] b by simp
    show ?thesis
    proof (cases "poisoned (rs_index ?s)")
      case True
      then have "adbc_stream_next ?s = (ErrorTuple StreamIndexLock, ?s)"
        using b by (simp add: adbc_stream_next_def lock_def Let_def)
      then show ?thesis using index_locked [of ?c1 p "length ?bs"] True 1
        by (auto simp: event_of_def finish_call_def idle intro: converse_rtranclp_into_rtranclp)
    next
      case i: False
      note seq = adbc_stream_next_live [of ?s]
      show ?thesis
      proof (cases "length ?bs \<le> ?i")
        case True
        then show ?thesis using see_done [of ?c1 p "length ?bs" ?i] 1 b i seq
          by (auto simp: event_of_def finish_call_def idle stream_live_def
              intro: converse_rtranclp_into_rtranclp)
      next
        case False
        let ?c2 = "?c1\<lparr>cl_stream := ?s\<lparr>rs_index := (rs_index ?s)\<lparr>inner := ?i + 1\<rparr>\<rparr>,
            cl_pc := (cl_pc c)(p := HaveIndex ?i)\<rparr>"
        have 2: "call_step ?c1 ?c2" using claim [of ?c1 p "length ?bs" ?i] i False by simp
        have 3: "call_step ?c2 (finish_call p (Delivered ?i (?bs ! ?i)) ?c2)"
          using fetch [of ?c2 p ?i ?bs] b False by simp
        have "call_step\<^sup>*\<^sup>* c (finish_call p (Delivered ?i (?bs ! ?i)) ?c2)"
          using 1 2 3 by (meson converse_rtranclp_into_rtranclp rtranclp.rtrancl_refl)
        then show ?thesis using seq b i False
          by (auto simp: event_of_def finish_call_def idle stream_live_def)
      qed
    qed
  qed
qed

theorem adbc_next_is_uninterrupted_call_witness:
  "\<exists>c' :: bool callers. call_step\<^sup>*\<^sup>*
      \<lparr>cl_stream = \<lparr>rs_schema = schema sample_batch, rs_batches = mutex_new [sample_batch],
                    rs_index = mutex_new 0\<rparr>, cl_pc = (\<lambda>_. Idle), cl_trace = []\<rparr> c' \<and>
     cl_trace c' = [(True, Delivered 0 sample_batch)]"
proof -
  let ?c = "\<lparr>cl_stream = \<lparr>rs_schema = schema sample_batch, rs_batches = mutex_new [sample_batch],
                    rs_index = mutex_new 0\<rparr>, cl_pc = (\<lambda>_. Idle), cl_trace = []\<rparr> :: bool callers"
  have "event_of (cl_stream ?c) = Delivered 0 sample_batch"
    by (simp add: event_of_def adbc_stream_next_def lock_def Let_def)
  then show ?thesis using adbc_next_is_uninterrupted_call [of ?c True] by fastforce
qed

section \<open>Driver options\<close>

definition opt_or :: "'a option \<Rightarrow> 'a option \<Rightarrow> 'a option" where
  "opt_or x y = (case x of None \<Rightarrow> y | Some v \<Rightarrow> Some v)"

definition encode_opt :: "string \<times> string \<Rightarrow> beam_term" where
  "encode_opt kv = TTuple [TAtom (fst kv), TBinary (snd kv)]"

lemma opt_or_simps [simp]: "opt_or None y = y" "opt_or (Some v) y = Some v"
  by (simp_all add: opt_or_def)

lemma driver_opt_fold:
  assumes "\<forall>kv \<in> set kvs. utf8_valid (snd kv)"
  shows "foldM_result driver_opt_item d (map encode_opt kvs) =
    Ok \<lparr>do_driver_path = opt_or (map_of (rev kvs) ''driver_path'') (do_driver_path d),
        do_driver_name = opt_or (map_of (rev kvs) ''driver_name'') (do_driver_name d),
        do_uri = opt_or (map_of (rev kvs) ''uri'') (do_uri d),
        do_db_path = opt_or (map_of (rev kvs) ''path'') (do_db_path d),
        do_entrypoint = opt_or (map_of (rev kvs) ''entrypoint'') (do_entrypoint d)\<rparr>"
  using assms
proof (induction kvs arbitrary: d)
  case (Cons kv kvs)
  obtain k v where kv: "kv = (k, v)" by (cases kv)
  define d' where "d' =
    (if k = ''driver_path'' then d\<lparr>do_driver_path := Some v\<rparr>
     else if k = ''driver_name'' then d\<lparr>do_driver_name := Some v\<rparr>
     else if k = ''uri'' then d\<lparr>do_uri := Some v\<rparr>
     else if k = ''path'' then d\<lparr>do_db_path := Some v\<rparr>
     else if k = ''entrypoint'' then d\<lparr>do_entrypoint := Some v\<rparr> else d)"
  have item: "driver_opt_item d (encode_opt kv) = Ok d'"
    using Cons.prems by (simp add: driver_opt_item_def encode_opt_def kv d'_def)
  have d': "do_driver_path d' = opt_or (map_of [kv] ''driver_path'') (do_driver_path d)"
    "do_driver_name d' = opt_or (map_of [kv] ''driver_name'') (do_driver_name d)"
    "do_uri d' = opt_or (map_of [kv] ''uri'') (do_uri d)"
    "do_db_path d' = opt_or (map_of [kv] ''path'') (do_db_path d)"
    "do_entrypoint d' = opt_or (map_of [kv] ''entrypoint'') (do_entrypoint d)"
    by (simp_all add: d'_def kv)
  have "map_of (rev (kv # kvs)) k = opt_or (map_of (rev kvs) k) (map_of [kv] k)" for k
    by (auto simp: map_of_append map_add_def opt_or_def split: option.splits)
  moreover have "opt_or (opt_or x y) z = opt_or x (opt_or y z)" for x y z :: "string option"
    by (cases x) auto
  ultimately show ?case using Cons.IH [of d'] Cons.prems by (simp add: item d')
qed simp

text \<open>
  Driver options are read as a keyword list in which the last value of a key wins and unknown
  keys are ignored; a driver path takes precedence over a driver name (whose form drops the
  database path and the entry point), and with neither the options are rejected.
\<close>

theorem decode_driver_spec_last_wins:
  assumes "\<forall>kv \<in> set kvs. utf8_valid (snd kv)"
  shows "decode_driver_spec (TList (map encode_opt kvs)) =
    (let get = map_of (rev kvs) in
     case get ''driver_path'' of
       Some p \<Rightarrow> Ok (SpecPath p (get ''uri'') (get ''path'') (get ''entrypoint''))
     | None \<Rightarrow> (case get ''driver_name'' of Some n \<Rightarrow> Ok (SpecName n (get ''uri'')) | None \<Rightarrow> Err NoDriver))"
proof -
  have "opt_or x None = x" for x :: "string option" by (cases x) auto
  then show ?thesis using driver_opt_fold [OF assms, of driver_opts_empty]
    by (simp add: decode_driver_spec_def driver_spec_of_def driver_opts_empty_def Let_def
        split: option.split)
qed

theorem decode_driver_spec_last_wins_witness:
  "decode_driver_spec (TList (map encode_opt [(''driver_name'', ''duckdb''), (''uri'', ''a''), (''uri'', ''b'')])) =
     Ok (SpecName ''duckdb'' (Some ''b''))"
  using decode_driver_spec_last_wins [of "[(''driver_name'', ''duckdb''), (''uri'', ''a''), (''uri'', ''b'')]"]
  by (simp add: utf8_valid.simps)

end
