(* ===== verification/Cdi.thy ===== *)
theory Cdi
  imports Arrow_Model
begin

text \<open>
  The Arrow C Data Interface (\<open>cdi.rs\<close>).  A handle owns two heap boxes, the C structs for the
  array and the schema, through two atomic addresses.  The heap is an explicit store of boxes; a
  box knows whether its \<open>release\<close> pointer is still set, dropping it runs the callback in that
  case, and an access to an address that is not live is a fault.  The operations are modelled
  sequentially and, because each takes the two addresses by two separate atomic swaps, also as
  steps of concurrent callers.  \<open>to_ffi\<close>, \<open>from_ffi\<close> and the conversions to and from struct
  arrays are parameters.
\<close>

section \<open>The heap\<close>

datatype ('a, 's) ffi_box = ArrayBox 'a bool | SchemaBox 's bool

record ('a, 's) cdi_mem =
  m_heap :: "nat \<Rightarrow> ('a, 's) ffi_box option"
  m_next :: nat
  m_released :: "nat list"
  m_fault :: bool

text \<open>\<open>Box::into_raw(Box::new(v))\<close>: a fresh, non-null address.\<close>

definition box_new :: "('a, 's) ffi_box \<Rightarrow> ('a, 's) cdi_mem \<Rightarrow> nat \<times> ('a, 's) cdi_mem" where
  "box_new v m = (m_next m, m\<lparr>m_heap := (m_heap m)(m_next m \<mapsto> v), m_next := m_next m + 1\<rparr>)"

fun release_set :: "('a, 's) ffi_box \<Rightarrow> bool" where
  "release_set (ArrayBox _ r) = r"
| "release_set (SchemaBox _ r) = r"

text \<open>\<open>drop(Box::from_raw(p))\<close>: run \<open>release\<close> if it is set, then free the box.\<close>

definition drop_box :: "nat \<Rightarrow> ('a, 's) cdi_mem \<Rightarrow> ('a, 's) cdi_mem" where
  "drop_box p m =
     (case m_heap m p of
        None \<Rightarrow> m\<lparr>m_fault := True\<rparr>
      | Some v \<Rightarrow> m\<lparr>m_heap := (m_heap m)(p := None),
                    m_released := (if release_set v then p # m_released m else m_released m)\<rparr>)"

text \<open>\<open>take_raw\<close>: move the value out and free the box without dropping the value.\<close>

definition take_raw :: "nat \<Rightarrow> ('a, 's) cdi_mem \<Rightarrow> ('a, 's) ffi_box option \<times> ('a, 's) cdi_mem" where
  "take_raw p m =
     (case m_heap m p of
        None \<Rightarrow> (None, m\<lparr>m_fault := True\<rparr>)
      | Some v \<Rightarrow> (Some v, m\<lparr>m_heap := (m_heap m)(p := None)\<rparr>))"

section \<open>Operations\<close>

record ExArrowCdiHandle =
  schema_ptr :: nat
  array_ptr :: nat

datatype cdi_error = CdiError string | AlreadyConsumed | CdiFault

record ('a, 's) ffi_api =
  to_ffi :: "RecordBatch \<Rightarrow> ('a \<times> 's, string) result"
  from_ffi :: "'a \<Rightarrow> 's \<Rightarrow> (RecordBatch, string) result"

definition cdi_export ::
  "('a, 's) ffi_api \<Rightarrow> RecordBatch \<Rightarrow> ('a, 's) cdi_mem \<Rightarrow>
   (ExArrowCdiHandle, cdi_error) nif_term \<times> ('a, 's) cdi_mem" where
  "cdi_export F batch m =
     (case to_ffi F batch of
        Err e \<Rightarrow> (err_encode (CdiError e), m)
      | Ok (ffi_array, ffi_schema) \<Rightarrow>
          let (s, m1) = box_new (SchemaBox ffi_schema True) m;
              (a, m2) = box_new (ArrayBox ffi_array True) m1
          in (ok_encode \<lparr>schema_ptr = s, array_ptr = a\<rparr>, m2))"

text \<open>
  The part of \<open>cdi_import\<close> after the swaps.  The array value moves into \<open>from_ffi\<close>, which
  owns it on success and drops it, running \<open>release\<close>, on failure; the schema box is dropped
  either way.
\<close>

definition import_taken ::
  "('a, 's) ffi_api \<Rightarrow> nat \<Rightarrow> nat \<Rightarrow> ('a, 's) cdi_mem \<Rightarrow>
   (RecordBatch, cdi_error) nif_term \<times> ('a, 's) cdi_mem" where
  "import_taken F schema_raw array_raw m =
     (if array_raw = 0 \<or> schema_raw = 0 then (err_encode AlreadyConsumed, m)
      else
        (case take_raw array_raw m of
           (Some (ArrayBox arr r), m1) \<Rightarrow>
             (case m_heap m1 schema_raw of
                Some (SchemaBox sch _) \<Rightarrow>
                  let m2 = drop_box schema_raw m1 in
                  (case from_ffi F arr sch of
                     Ok batch \<Rightarrow> (ok_encode batch, m2)
                   | Err e \<Rightarrow>
                       (err_encode (CdiError e),
                        m2\<lparr>m_released := (if r then array_raw # m_released m2 else m_released m2)\<rparr>))
              | _ \<Rightarrow> (err_encode CdiFault, m1\<lparr>m_fault := True\<rparr>))
         | (_, m1) \<Rightarrow> (err_encode CdiFault, m1\<lparr>m_fault := True\<rparr>)))"

definition cdi_import ::
  "('a, 's) ffi_api \<Rightarrow> ExArrowCdiHandle \<Rightarrow> ('a, 's) cdi_mem \<Rightarrow>
   (RecordBatch, cdi_error) nif_term \<times> ExArrowCdiHandle \<times> ('a, 's) cdi_mem" where
  "cdi_import F h m =
     (let schema_raw = schema_ptr h; h1 = h\<lparr>schema_ptr := 0\<rparr>;
          array_raw = array_ptr h1; h2 = h1\<lparr>array_ptr := 0\<rparr>;
          (reply, m') = import_taken F schema_raw array_raw m
      in (reply, h2, m'))"

definition cdi_pointers :: "ExArrowCdiHandle \<Rightarrow> nat \<times> nat" where
  "cdi_pointers h = (schema_ptr h, array_ptr h)"

text \<open>Freeing taken addresses, shared by \<open>cdi_mark_consumed\<close> and \<open>Drop\<close>.\<close>

definition free_taken :: "nat \<Rightarrow> nat \<Rightarrow> ('a, 's) cdi_mem \<Rightarrow> ('a, 's) cdi_mem" where
  "free_taken schema_raw array_raw m =
     (let m1 = (if array_raw = 0 then m else drop_box array_raw m)
      in if schema_raw = 0 then m1 else drop_box schema_raw m1)"

definition cdi_mark_consumed ::
  "ExArrowCdiHandle \<Rightarrow> ('a, 's) cdi_mem \<Rightarrow>
   (RecordBatch, cdi_error) nif_term \<times> ExArrowCdiHandle \<times> ('a, 's) cdi_mem" where
  "cdi_mark_consumed h m =
     (AtomOk, \<lparr>schema_ptr = 0, array_ptr = 0\<rparr>, free_taken (schema_ptr h) (array_ptr h) m)"

definition drop_handle :: "ExArrowCdiHandle \<Rightarrow> ('a, 's) cdi_mem \<Rightarrow> ExArrowCdiHandle \<times> ('a, 's) cdi_mem" where
  "drop_handle h m = (\<lparr>schema_ptr = 0, array_ptr = 0\<rparr>, free_taken (schema_ptr h) (array_ptr h) m)"

section \<open>Sequential use\<close>

definition mem_ok :: "('a, 's) cdi_mem \<Rightarrow> bool" where
  "mem_ok m \<longleftrightarrow> 0 < m_next m \<and> (\<forall>p. m_next m \<le> p \<longrightarrow> m_heap m p = None) \<and> \<not> m_fault m"

lemma drop_box_live:
  "m_heap m p = Some v \<Longrightarrow> drop_box p m =
     m\<lparr>m_heap := (m_heap m)(p := None),
       m_released := (if release_set v then p # m_released m else m_released m)\<rparr>"
  by (simp add: drop_box_def)

lemma export_Ok:
  assumes "cdi_export F batch m = (OkTuple h, m')" "mem_ok m"
  obtains arr sch where "to_ffi F batch = Ok (arr, sch)" "schema_ptr h = m_next m"
    "array_ptr h = m_next m + 1" "m_next m' = m_next m + 2" "m_released m' = m_released m" "\<not> m_fault m'"
    "m_heap m' = (m_heap m)(m_next m \<mapsto> SchemaBox sch True, m_next m + 1 \<mapsto> ArrayBox arr True)"
  using assms by (auto simp: cdi_export_def box_new_def mem_ok_def split: sum.splits)

lemma import_live:
  assumes "m_heap m s = Some (SchemaBox sch True)" "m_heap m a = Some (ArrayBox arr True)"
    "s \<noteq> 0" "a \<noteq> 0" "s \<noteq> a"
  shows "import_taken F s a m =
    (case from_ffi F arr sch of
       Ok batch \<Rightarrow> (OkTuple batch, m\<lparr>m_heap := (m_heap m)(a := None, s := None), m_released := s # m_released m\<rparr>)
     | Err e \<Rightarrow> (ErrorTuple (CdiError e),
                m\<lparr>m_heap := (m_heap m)(a := None, s := None), m_released := a # s # m_released m\<rparr>))"
  using assms
  by (auto simp: import_taken_def take_raw_def drop_box_def Let_def split: sum.splits)


definition sample_ffi :: "(RecordBatch, unit) ffi_api" where
  "sample_ffi = \<lparr>to_ffi = (\<lambda>b. Ok (b, ())), from_ffi = (\<lambda>b _. Ok b)\<rparr>"

definition empty_mem :: "('a, 's) cdi_mem" where
  "empty_mem = \<lparr>m_heap = (\<lambda>_. None), m_next = 1, m_released = [], m_fault = False\<rparr>"


section \<open>Concurrent use\<close>

text \<open>
  \<open>cdi_import\<close> and \<open>cdi_mark_consumed\<close> first swap the schema address, then the array address,
  and then work on what they took.  Between the swaps another caller may run.  The handle is
  dropped when no call uses it any more.
\<close>

datatype cdi_call = CallImport | CallMark

datatype cdi_pc = CIdle | GotSchema cdi_call nat | GotBoth cdi_call nat nat

record ('a, 's, 'p) cdi_callers =
  cc_handle :: ExArrowCdiHandle
  cc_mem :: "('a, 's) cdi_mem"
  cc_pc :: "'p \<Rightarrow> cdi_pc"
  cc_log :: "('p \<times> (RecordBatch, cdi_error) nif_term) list"
  cc_dropped :: bool

inductive cdi_step ::
  "('a, 's) ffi_api \<Rightarrow> ('a, 's, 'p) cdi_callers \<Rightarrow> ('a, 's, 'p) cdi_callers \<Rightarrow> bool" for F where
  swap_schema: "cc_pc c p = CIdle \<Longrightarrow> \<not> cc_dropped c \<Longrightarrow>
    cdi_step F c (c\<lparr>cc_handle := (cc_handle c)\<lparr>schema_ptr := 0\<rparr>,
                    cc_pc := (cc_pc c)(p := GotSchema call (schema_ptr (cc_handle c)))\<rparr>)"
| swap_array: "cc_pc c p = GotSchema call s \<Longrightarrow>
    cdi_step F c (c\<lparr>cc_handle := (cc_handle c)\<lparr>array_ptr := 0\<rparr>,
                    cc_pc := (cc_pc c)(p := GotBoth call s (array_ptr (cc_handle c)))\<rparr>)"
| finish_import: "cc_pc c p = GotBoth CallImport s a \<Longrightarrow> import_taken F s a (cc_mem c) = (r, m') \<Longrightarrow>
    cdi_step F c (c\<lparr>cc_mem := m', cc_pc := (cc_pc c)(p := CIdle), cc_log := (p, r) # cc_log c\<rparr>)"
| finish_mark: "cc_pc c p = GotBoth CallMark s a \<Longrightarrow>
    cdi_step F c (c\<lparr>cc_mem := free_taken s a (cc_mem c), cc_pc := (cc_pc c)(p := CIdle),
                    cc_log := (p, AtomOk) # cc_log c\<rparr>)"
| last_reference_dropped: "(\<And>p. cc_pc c p = CIdle) \<Longrightarrow> \<not> cc_dropped c \<Longrightarrow>
    cdi_step F c (c\<lparr>cc_handle := fst (drop_handle (cc_handle c) (cc_mem c)),
                    cc_mem := snd (drop_handle (cc_handle c) (cc_mem c)), cc_dropped := True\<rparr>)"

text \<open>A freshly exported handle that nobody uses yet.\<close>

definition fresh_callers :: "nat \<Rightarrow> nat \<Rightarrow> ('a, 's, 'p) cdi_callers \<Rightarrow> bool" where
  "fresh_callers S A c \<longleftrightarrow>
     S \<noteq> 0 \<and> A \<noteq> 0 \<and> S \<noteq> A \<and> cc_handle c = \<lparr>schema_ptr = S, array_ptr = A\<rparr> \<and>
     (\<exists>sch arr. m_heap (cc_mem c) S = Some (SchemaBox sch True) \<and> m_heap (cc_mem c) A = Some (ArrayBox arr True)) \<and>
     m_released (cc_mem c) = [] \<and> \<not> m_fault (cc_mem c) \<and> (\<forall>p. cc_pc c p = CIdle) \<and> \<not> cc_dropped c"

fun held_schema :: "cdi_pc \<Rightarrow> nat" where
  "held_schema CIdle = 0"
| "held_schema (GotSchema _ s) = s"
| "held_schema (GotBoth _ s _) = s"

fun held_array :: "cdi_pc \<Rightarrow> nat" where
  "held_array (GotBoth _ _ a) = a"
| "held_array _ = 0"

text \<open>An address is in the handle, or with one caller, or with nobody.\<close>

definition single_owner :: "nat \<Rightarrow> nat \<Rightarrow> ('p \<Rightarrow> nat) \<Rightarrow> bool" where
  "single_owner X ptr hold \<longleftrightarrow>
     ptr \<in> {0, X} \<and> (\<forall>p. hold p \<in> {0, X}) \<and> (ptr = X \<longrightarrow> (\<forall>p. hold p \<noteq> X)) \<and>
     (\<forall>p q. hold p = X \<longrightarrow> hold q = X \<longrightarrow> p = q)"

definition owned :: "nat \<Rightarrow> nat \<Rightarrow> ('p \<Rightarrow> nat) \<Rightarrow> bool" where
  "owned X ptr hold \<longleftrightarrow> ptr = X \<or> (\<exists>p. hold p = X)"

lemma owner_transfer:
  assumes "single_owner X ptr hold" "hold p = 0" "X \<noteq> 0"
  shows "single_owner X 0 (hold(p := ptr))" "owned X 0 (hold(p := ptr)) \<longleftrightarrow> owned X ptr hold"
proof -
  show "single_owner X 0 (hold(p := ptr))" using assms by (auto simp: single_owner_def)
  have "hold q = X \<Longrightarrow> q \<noteq> p" for q using assms(2,3) by auto
  then show "owned X 0 (hold(p := ptr)) \<longleftrightarrow> owned X ptr hold"
    using assms(2,3) unfolding owned_def by (metis fun_upd_apply)
qed

lemma owner_release:
  assumes "single_owner X ptr hold" "X \<noteq> 0"
  shows "single_owner X ptr (hold(p := 0))" "hold p = X \<Longrightarrow> \<not> owned X ptr (hold(p := 0))"
    "hold p \<noteq> X \<Longrightarrow> owned X ptr (hold(p := 0)) \<longleftrightarrow> owned X ptr hold"
  using assms by (auto simp: single_owner_def owned_def split: if_splits)

text \<open>
  What the heap promises: an owned address is a live box whose release callback has not run, and
  no callback has run twice.
\<close>

definition heap_inv ::
  "nat \<Rightarrow> nat \<Rightarrow> bool \<Rightarrow> bool \<Rightarrow> ('a, 's) cdi_mem \<Rightarrow> bool" where
  "heap_inv S A own_s own_a m \<longleftrightarrow>
     \<not> m_fault m \<and> distinct (m_released m) \<and> set (m_released m) \<subseteq> {S, A} \<and>
     (own_s \<longrightarrow> (\<exists>sch. m_heap m S = Some (SchemaBox sch True)) \<and> S \<notin> set (m_released m)) \<and>
     (own_a \<longrightarrow> (\<exists>arr. m_heap m A = Some (ArrayBox arr True)) \<and> A \<notin> set (m_released m))"

definition cdi_inv :: "nat \<Rightarrow> nat \<Rightarrow> ('a, 's, 'p) cdi_callers \<Rightarrow> bool" where
  "cdi_inv S A c \<longleftrightarrow>
     single_owner S (schema_ptr (cc_handle c)) (held_schema \<circ> cc_pc c) \<and>
     single_owner A (array_ptr (cc_handle c)) (held_array \<circ> cc_pc c) \<and>
     heap_inv S A (owned S (schema_ptr (cc_handle c)) (held_schema \<circ> cc_pc c))
                  (owned A (array_ptr (cc_handle c)) (held_array \<circ> cc_pc c)) (cc_mem c)"

lemma heap_inv_mono:
  "heap_inv S A x y m \<Longrightarrow> (x' \<longrightarrow> x) \<Longrightarrow> (y' \<longrightarrow> y) \<Longrightarrow> heap_inv S A x' y' m"
  by (auto simp: heap_inv_def)

lemma free_taken_inv:
  assumes "heap_inv S A x y m" "S \<noteq> 0" "A \<noteq> 0" "S \<noteq> A" "s \<in> {0, S}" "a \<in> {0, A}"
    "s = S \<Longrightarrow> x" "a = A \<Longrightarrow> y"
  shows "heap_inv S A (x \<and> s \<noteq> S) (y \<and> a \<noteq> A) (free_taken s a m)"
  using assms by (auto simp: heap_inv_def free_taken_def drop_box_def Let_def)

lemma import_taken_inv:
  assumes "heap_inv S A x y m" "S \<noteq> 0" "A \<noteq> 0" "S \<noteq> A" "s \<in> {0, S}" "a \<in> {0, A}"
    "s = S \<Longrightarrow> x" "a = A \<Longrightarrow> y" "import_taken F s a m = (r, m')"
  shows "heap_inv S A (x \<and> s \<noteq> S) (y \<and> a \<noteq> A) m' \<and> r \<noteq> ErrorTuple CdiFault"
proof (cases "s = 0 \<or> a = 0")
  case True
  then show ?thesis using assms by (auto simp: import_taken_def heap_inv_def)
next
  case False
  then have sa: "s = S" "a = A" using assms(5,6) by auto
  with assms obtain sch arr where
    "m_heap m S = Some (SchemaBox sch True)" "m_heap m A = Some (ArrayBox arr True)"
    "S \<notin> set (m_released m)" "A \<notin> set (m_released m)"
    by (auto simp: heap_inv_def)
  then show ?thesis
    using import_live [of m S sch A arr F] assms sa
    by (auto simp: heap_inv_def split: sum.splits)
qed

text \<open>What a caller holds when it has done both swaps, and what is left when it returns.\<close>

abbreviation owned_schema :: "nat \<Rightarrow> ('a, 's, 'p) cdi_callers \<Rightarrow> bool" where
  "owned_schema S c \<equiv> owned S (schema_ptr (cc_handle c)) (held_schema \<circ> cc_pc c)"

abbreviation owned_array :: "nat \<Rightarrow> ('a, 's, 'p) cdi_callers \<Rightarrow> bool" where
  "owned_array A c \<equiv> owned A (array_ptr (cc_handle c)) (held_array \<circ> cc_pc c)"

lemma taken_facts:
  assumes "cdi_inv S A c" "cc_pc c p = GotBoth call s a"
  shows "s \<in> {0, S}" "a \<in> {0, A}" "s = S \<Longrightarrow> owned_schema S c" "a = A \<Longrightarrow> owned_array A c"
    "heap_inv S A (owned_schema S c) (owned_array A c) (cc_mem c)"
proof -
  have h: "(held_schema \<circ> cc_pc c) p = s" "(held_array \<circ> cc_pc c) p = a" using assms(2) by simp_all
  show "s \<in> {0, S}" "a \<in> {0, A}" "s = S \<Longrightarrow> owned_schema S c" "a = A \<Longrightarrow> owned_array A c"
    "heap_inv S A (owned_schema S c) (owned_array A c) (cc_mem c)"
    using assms(1) h by (auto simp: cdi_inv_def single_owner_def owned_def simp del: o_apply)
qed

lemma finish_inv:
  assumes "cdi_inv S A c" "cc_pc c p = GotBoth call s a" "S \<noteq> 0" "A \<noteq> 0"
    "heap_inv S A (owned_schema S c \<and> s \<noteq> S) (owned_array A c \<and> a \<noteq> A) m'"
  shows "cdi_inv S A (c\<lparr>cc_mem := m', cc_pc := (cc_pc c)(p := CIdle), cc_log := l\<rparr>)"
proof -
  have h: "(held_schema \<circ> cc_pc c) p = s" "(held_array \<circ> cc_pc c) p = a" using assms(2) by simp_all
  have so: "single_owner S (schema_ptr (cc_handle c)) (held_schema \<circ> cc_pc c)"
    "single_owner A (array_ptr (cc_handle c)) (held_array \<circ> cc_pc c)"
    using assms(1) by (simp_all add: cdi_inv_def)
  note rs = owner_release [OF so(1) assms(3), of p] and ra = owner_release [OF so(2) assms(4), of p]
  have "owned S (schema_ptr (cc_handle c)) ((held_schema \<circ> cc_pc c)(p := 0)) \<longrightarrow> owned_schema S c \<and> s \<noteq> S"
    using rs(2,3) h(1) by blast
  moreover have "owned A (array_ptr (cc_handle c)) ((held_array \<circ> cc_pc c)(p := 0)) \<longrightarrow> owned_array A c \<and> a \<noteq> A"
    using ra(2,3) h(2) by blast
  ultimately show ?thesis using rs(1) ra(1) heap_inv_mono [OF assms(5)]
    by (simp add: cdi_inv_def fun_upd_comp)
qed

lemma cdi_step_inv:
  assumes "cdi_step F c c'" "cdi_inv S A c" "S \<noteq> 0" "A \<noteq> 0" "S \<noteq> A"
  shows "cdi_inv S A c'"
  using assms
proof (induction rule: cdi_step.induct)
  case (swap_schema c p call)
  then show ?case
    by (simp add: cdi_inv_def fun_upd_comp owner_transfer fun_upd_idem)
next
  case (swap_array c p call s)
  then show ?case
    by (simp add: cdi_inv_def fun_upd_comp owner_transfer fun_upd_idem)
next
  case (finish_import c p s a r m')
  note t = taken_facts [OF finish_import.prems(1) finish_import.hyps(1)]
  have "heap_inv S A (owned_schema S c \<and> s \<noteq> S) (owned_array A c \<and> a \<noteq> A) m'"
    using import_taken_inv [OF t(5) finish_import.prems(2-4) t(1-4) finish_import.hyps(2)] by blast
  then show ?case
    by (rule finish_inv [OF finish_import.prems(1) finish_import.hyps(1) finish_import.prems(2,3)])
next
  case (finish_mark c p s a)
  note t = taken_facts [OF finish_mark.prems(1) finish_mark.hyps(1)]
  show ?case
    by (rule finish_inv [OF finish_mark.prems(1) finish_mark.hyps(1) finish_mark.prems(2,3)])
       (rule free_taken_inv [OF t(5) finish_mark.prems(2-4) t(1-4)])
next
  case (last_reference_dropped c)
  let ?s = "schema_ptr (cc_handle c)" and ?a = "array_ptr (cc_handle c)"
  have ptrs: "?s \<in> {0, S}" "?a \<in> {0, A}"
    using last_reference_dropped.prems(1) by (auto simp: cdi_inv_def single_owner_def)
  have "heap_inv S A (?s = S) (?a = A) (cc_mem c)"
    using last_reference_dropped by (simp add: cdi_inv_def owned_def)
  from free_taken_inv [OF this last_reference_dropped.prems(2-4) ptrs]
  have "heap_inv S A False False (free_taken ?s ?a (cc_mem c))" by (simp cong: conj_cong)
  then show ?case using last_reference_dropped
    by (auto simp: cdi_inv_def drop_handle_def single_owner_def owned_def)
qed

lemma fresh_inv: "fresh_callers S A c \<Longrightarrow> cdi_inv S A c"
  by (auto simp: fresh_callers_def cdi_inv_def single_owner_def owned_def heap_inv_def)

lemma cdi_reachable_inv:
  assumes "(cdi_step F)\<^sup>*\<^sup>* c c'" "cdi_inv S A c" "S \<noteq> 0" "A \<noteq> 0" "S \<noteq> A"
  shows "cdi_inv S A c'"
  using assms by (induction rule: rtranclp_induct) (auto dest: cdi_step_inv)

text \<open>
  C3: no interleaving of imports, \<open>mark_consumed\<close> calls and the final drop of a handle touches
  freed memory or frees a box twice, and no release callback runs more than once.
\<close>

theorem cdi_memory_safe:
  assumes "fresh_callers S A c" "(cdi_step F)\<^sup>*\<^sup>* c c'"
  shows "\<not> m_fault (cc_mem c') \<and> distinct (m_released (cc_mem c'))"
proof -
  have "cdi_inv S A c'"
    using cdi_reachable_inv [OF assms(2) fresh_inv [OF assms(1)]] assms(1)
    by (auto simp: fresh_callers_def)
  then show ?thesis by (simp add: cdi_inv_def heap_inv_def)
qed

definition exported :: "(RecordBatch, unit, bool) cdi_callers" where
  "exported =
     \<lparr>cc_handle = \<lparr>schema_ptr = 1, array_ptr = 2\<rparr>,
      cc_mem = \<lparr>m_heap = [1 \<mapsto> SchemaBox () True, 2 \<mapsto> ArrayBox sample_batch True], m_next = 3,
                m_released = [], m_fault = False\<rparr>,
      cc_pc = (\<lambda>_. CIdle), cc_log = [], cc_dropped = False\<rparr>"

lemma exported_fresh: "fresh_callers 1 2 exported"
  by (simp add: fresh_callers_def exported_def)

lemma exported_is_export:
  "cdi_export sample_ffi sample_batch empty_mem = (OkTuple (cc_handle exported), cc_mem exported)"
  by (simp add: cdi_export_def sample_ffi_def box_new_def empty_mem_def exported_def Let_def numeral_2_eq_2)

text \<open>The second import runs between the two swaps of the first.\<close>

lemma leaking_run:
  "\<exists>c. (cdi_step sample_ffi)\<^sup>*\<^sup>* exported c \<and> cc_dropped c \<and>
     cc_log c = [(False, ErrorTuple AlreadyConsumed), (True, ErrorTuple AlreadyConsumed)] \<and>
     m_heap (cc_mem c) 1 \<noteq> None \<and> m_heap (cc_mem c) 2 \<noteq> None \<and> m_released (cc_mem c) = []"
proof -
  let ?c = "\<lambda>s a pc l. exported\<lparr>cc_handle := \<lparr>schema_ptr = s, array_ptr = a\<rparr>, cc_pc := pc, cc_log := l\<rparr>"
  let ?step = "cdi_step sample_ffi"
  let ?e = "ErrorTuple AlreadyConsumed :: (RecordBatch, cdi_error) nif_term"
  have err: "import_taken sample_ffi s a m = (?e, m)" if "s = 0 \<or> a = 0" for s a m
    using that by (auto simp: import_taken_def)
  have 1: "?step exported (?c 0 2 ((\<lambda>_. CIdle)(True := GotSchema CallImport 1)) [])"
    using swap_schema [of exported True sample_ffi CallImport] by (simp add: exported_def)
  have 2: "?step (?c 0 2 ((\<lambda>_. CIdle)(True := GotSchema CallImport 1)) [])
      (?c 0 2 ((\<lambda>_. CIdle)(True := GotSchema CallImport 1, False := GotSchema CallImport 0)) [])"
    using swap_schema [of "?c 0 2 ((\<lambda>_. CIdle)(True := GotSchema CallImport 1)) []" False sample_ffi CallImport]
    by (simp add: exported_def)
  have 3: "?step (?c 0 2 ((\<lambda>_. CIdle)(True := GotSchema CallImport 1, False := GotSchema CallImport 0)) [])
      (?c 0 0 ((\<lambda>_. CIdle)(True := GotSchema CallImport 1, False := GotBoth CallImport 0 2)) [])"
    using swap_array [of "?c 0 2 ((\<lambda>_. CIdle)(True := GotSchema CallImport 1, False := GotSchema CallImport 0)) []"
        False CallImport 0 sample_ffi]
    by (simp add: exported_def)
  have 4: "?step (?c 0 0 ((\<lambda>_. CIdle)(True := GotSchema CallImport 1, False := GotBoth CallImport 0 2)) [])
      (?c 0 0 ((\<lambda>_. CIdle)(True := GotBoth CallImport 1 0, False := GotBoth CallImport 0 2)) [])"
    using swap_array [of "?c 0 0 ((\<lambda>_. CIdle)(True := GotSchema CallImport 1, False := GotBoth CallImport 0 2)) []"
        True CallImport 1 sample_ffi]
    by (simp add: exported_def fun_upd_twist)
  have 5: "?step (?c 0 0 ((\<lambda>_. CIdle)(True := GotBoth CallImport 1 0, False := GotBoth CallImport 0 2)) [])
      (?c 0 0 ((\<lambda>_. CIdle)(False := GotBoth CallImport 0 2)) [(True, ?e)])"
    using finish_import [of "?c 0 0 ((\<lambda>_. CIdle)(True := GotBoth CallImport 1 0, False := GotBoth CallImport 0 2)) []"
        True 1 0 sample_ffi ?e]
    by (simp add: err exported_def fun_upd_twist fun_upd_idem)
  have 6: "?step (?c 0 0 ((\<lambda>_. CIdle)(False := GotBoth CallImport 0 2)) [(True, ?e)])
      (?c 0 0 (\<lambda>_. CIdle) [(False, ?e), (True, ?e)])"
    using finish_import [of "?c 0 0 ((\<lambda>_. CIdle)(False := GotBoth CallImport 0 2)) [(True, ?e)]"
        False 0 2 sample_ffi ?e]
    by (simp add: err exported_def fun_upd_idem)
  have 7: "?step (?c 0 0 (\<lambda>_. CIdle) [(False, ?e), (True, ?e)])
      (?c 0 0 (\<lambda>_. CIdle) [(False, ?e), (True, ?e)]\<lparr>cc_dropped := True\<rparr>)"
    using last_reference_dropped [of "?c 0 0 (\<lambda>_. CIdle) [(False, ?e), (True, ?e)]" sample_ffi]
    by (simp add: drop_handle_def free_taken_def exported_def)
  have "?step\<^sup>*\<^sup>* exported (?c 0 0 (\<lambda>_. CIdle) [(False, ?e), (True, ?e)]\<lparr>cc_dropped := True\<rparr>)"
    using 1 2 3 4 5 6 7 by (meson converse_rtranclp_into_rtranclp rtranclp.rtrancl_refl)
  then show ?thesis
    by (intro exI [of _ "?c 0 0 (\<lambda>_. CIdle) [(False, ?e), (True, ?e)]\<lparr>cc_dropped := True\<rparr>"] conjI)
       (simp_all add: exported_def)
qed

theorem cdi_memory_safe_witness:
  "\<exists>c. cc_log c = [(False, ErrorTuple AlreadyConsumed), (True, ErrorTuple AlreadyConsumed)] \<and>
     \<not> m_fault (cc_mem c) \<and> distinct (m_released (cc_mem c)) \<and>
     (cdi_step sample_ffi)\<^sup>*\<^sup>* exported c"
  using leaking_run cdi_memory_safe [OF exported_fresh] by blast

text \<open>
  C36: two concurrent imports can both fail and leak the exported batch.  If the second import
  swaps both addresses between the two swaps of the first, one holds only the schema and the other
  only the array; both report the handle as consumed, neither frees what it took, and after the
  handle is dropped both boxes are still allocated.
\<close>

theorem cdi_concurrent_imports_leak:
  "\<exists>c. (cdi_step sample_ffi)\<^sup>*\<^sup>* exported c \<and> cc_dropped c \<and>
     cc_log c = [(False, ErrorTuple AlreadyConsumed), (True, ErrorTuple AlreadyConsumed)] \<and>
     m_heap (cc_mem c) 1 \<noteq> None \<and> m_heap (cc_mem c) 2 \<noteq> None \<and> m_released (cc_mem c) = []"
  by (rule leaking_run)

end
