(* ===== verification/Flight_Types.thy ===== *)
theory Flight_Types
  imports Batch_Stream
begin

text \<open>
  Data shared by the Flight server, the Flight client and the Flight SQL client (\<open>flight.rs\<close>,
  lines 44 to 329): gRPC statuses, TLS modes, flight descriptors and flight infos, with their
  decoders from and encoders to BEAM terms.  The protobuf messages keep the fields the sources
  read or set to something other than the default.
\<close>

section \<open>gRPC statuses\<close>

datatype Code =
    Code_Ok | Cancelled | Unknown | InvalidArgument | DeadlineExceeded | NotFound | AlreadyExists
  | PermissionDenied | ResourceExhausted | FailedPrecondition | Aborted | OutOfRange
  | Unimplemented | Internal | Unavailable | DataLoss | Unauthenticated

record Status =
  st_code :: Code
  st_message :: string

definition status :: "Code \<Rightarrow> string \<Rightarrow> Status" where
  "status c m = \<lparr>st_code = c, st_message = m\<rparr>"

datatype ArrowError = IpcErr string | OtherArrowError string

datatype FlightError =
    FE_Arrow ArrowError
  | FE_Tonic Status
  | FE_ProtocolError string
  | FE_DecodeError string
  | FE_Other string

section \<open>TLS modes\<close>

datatype TlsMode = Plaintext | SystemCerts | CustomCa bytes

datatype ServerTlsMode =
    ServerPlaintext
  | ServerTls bytes bytes
  | ServerMtls bytes bytes bytes

definition parse_tls_mode :: "beam_term \<Rightarrow> (TlsMode, string) result" where
  "parse_tls_mode t =
     (case decode_atom t of
        Some a \<Rightarrow>
          if a = ''plaintext'' then Ok Plaintext
          else if a = ''system_certs'' then Ok SystemCerts
          else Err ''unknown tls_mode atom; expected :plaintext or :system_certs''
      | None \<Rightarrow>
          (case get_tuple t of
             None \<Rightarrow> Err ''tls_mode must be :plaintext, :system_certs, or {:custom_ca, pem_binary()}''
           | Some tup \<Rightarrow>
               if length tup = 2 \<and> decode_atom (tup ! 0) = Some ''custom_ca'' then
                 (case decode_binary (tup ! 1) of
                    None \<Rightarrow> Err ''custom_ca payload must be a binary''
                  | Some pem \<Rightarrow> Ok (CustomCa pem))
               else Err ''invalid tls_mode; expected :plaintext, :system_certs, or {:custom_ca, binary()}''))"

definition parse_server_tls :: "beam_term \<Rightarrow> (ServerTlsMode, string) result" where
  "parse_server_tls t =
     (case decode_atom t of
        Some a \<Rightarrow>
          if a = ''plaintext'' then Ok ServerPlaintext
          else Err ''server_tls atom must be :plaintext''
      | None \<Rightarrow>
          (case get_tuple t of
             None \<Rightarrow> Err ''server_tls must be :plaintext, {:tls, cert, key}, or {:mtls, cert, key, ca}''
           | Some tup \<Rightarrow>
               if length tup = 3 \<and> decode_atom (tup ! 0) = Some ''tls'' then
                 (case decode_binary (tup ! 1) of
                    None \<Rightarrow> Err ''tls cert must be a binary''
                  | Some cert \<Rightarrow>
                      (case decode_binary (tup ! 2) of
                         None \<Rightarrow> Err ''tls key must be a binary''
                       | Some key \<Rightarrow> Ok (ServerTls cert key)))
               else if length tup = 4 \<and> decode_atom (tup ! 0) = Some ''mtls'' then
                 (case decode_binary (tup ! 1) of
                    None \<Rightarrow> Err ''mtls cert must be a binary''
                  | Some cert \<Rightarrow>
                      (case decode_binary (tup ! 2) of
                         None \<Rightarrow> Err ''mtls key must be a binary''
                       | Some key \<Rightarrow>
                           (case decode_binary (tup ! 3) of
                              None \<Rightarrow> Err ''mtls ca must be a binary''
                            | Some ca \<Rightarrow> Ok (ServerMtls cert key ca))))
               else Err ''invalid server_tls; expected :plaintext, {:tls, cert, key}, or {:mtls, cert, key, ca}''))"

section \<open>Descriptors\<close>

definition ECHO_TICKET :: bytes where
  "ECHO_TICKET = ''echo''"

definition DESCRIPTOR_CMD :: int where
  [simp]: "DESCRIPTOR_CMD = 2"

definition DESCRIPTOR_PATH :: int where
  [simp]: "DESCRIPTOR_PATH = 1"

record FlightDescriptor =
  fd_type :: int
  fd_cmd :: bytes
  fd_path :: "string list"

definition default_descriptor :: FlightDescriptor where
  "default_descriptor = \<lparr>fd_type = 0, fd_cmd = [], fd_path = []\<rparr>"

definition decode_descriptor :: "beam_term \<Rightarrow> (FlightDescriptor, string) result" where
  "decode_descriptor t =
     (case get_tuple t of
        None \<Rightarrow> Err ''descriptor must be a 2-tuple {:cmd, binary()} or {:path, [string]}''
      | Some tup \<Rightarrow>
          if length tup \<noteq> 2 then Err ''descriptor tuple must have exactly 2 elements''
          else
            (case decode_atom (tup ! 0) of
               None \<Rightarrow> Err ''descriptor first element must be an atom''
             | Some tag \<Rightarrow>
                 if tag = ''cmd'' then
                   (case decode_binary (tup ! 1) of
                      None \<Rightarrow> Err ''cmd descriptor: second element must be a binary''
                    | Some bin \<Rightarrow> Ok (default_descriptor\<lparr>fd_type := DESCRIPTOR_CMD, fd_cmd := bin\<rparr>))
                 else if tag = ''path'' then
                   (case decode_string_vec (tup ! 1) of
                      None \<Rightarrow> Err ''path descriptor: second element must be a list of strings''
                    | Some segments \<Rightarrow>
                        Ok (default_descriptor\<lparr>fd_type := DESCRIPTOR_PATH, fd_path := segments\<rparr>))
                 else Err ''descriptor tag must be :cmd or :path''))"

text \<open>
  \<open>alloc\<close> says which binary sizes the BEAM allocator can satisfy.
\<close>

definition try_encode_binary :: "(nat \<Rightarrow> bool) \<Rightarrow> bytes \<Rightarrow> beam_term option" where
  "try_encode_binary alloc data = (if alloc (length data) then Some (TBinary data) else None)"

definition encode_descriptor :: "(nat \<Rightarrow> bool) \<Rightarrow> FlightDescriptor option \<Rightarrow> beam_term option" where
  "encode_descriptor alloc desc =
     (case desc of
        None \<Rightarrow> Some (TAtom ''nil'')
      | Some d \<Rightarrow>
          if fd_type d = DESCRIPTOR_CMD then
            map_option (\<lambda>cmd_term. TTuple [TAtom ''cmd'', cmd_term]) (try_encode_binary alloc (fd_cmd d))
          else if fd_type d = DESCRIPTOR_PATH then
            Some (TTuple [TAtom ''path'', TList (map TBinary (fd_path d))])
          else Some (TAtom ''nil''))"

text \<open>\<open>[String]::join\<close>.\<close>

fun join_strings :: "string \<Rightarrow> string list \<Rightarrow> string" where
  "join_strings sep [] = []"
| "join_strings sep [x] = x"
| "join_strings sep (x # y # xs) = x @ sep @ join_strings sep (y # xs)"

definition descriptor_to_key :: "FlightDescriptor \<Rightarrow> string option" where
  "descriptor_to_key desc =
     (if fd_type desc = DESCRIPTOR_CMD then Some (from_utf8_lossy (fd_cmd desc))
      else if fd_type desc = DESCRIPTOR_PATH then Some (join_strings ''/'' (fd_path desc))
      else None)"

section \<open>Flight infos\<close>

record FlightEndpoint =
  ep_ticket :: "bytes option"
  ep_location :: "string list"

record FlightInfo =
  fi_schema :: bytes
  fi_descriptor :: "FlightDescriptor option"
  fi_endpoint :: "FlightEndpoint list"
  fi_total_records :: int
  fi_total_bytes :: int
  fi_ordered :: bool
  fi_app_metadata :: bytes

text \<open>\<open>iter().map(f).collect::<Option<Vec<_>>>()\<close>.\<close>

definition collect_option :: "('a \<Rightarrow> 'b option) \<Rightarrow> 'a list \<Rightarrow> 'b list option" where
  "collect_option f xs = (case collect (\<lambda>x. ok_or () (f x)) xs of Err _ \<Rightarrow> None | Ok ys \<Rightarrow> Some ys)"

definition encode_endpoint :: "(nat \<Rightarrow> bool) \<Rightarrow> FlightEndpoint \<Rightarrow> beam_term option" where
  "encode_endpoint alloc ep =
     (case try_encode_binary alloc (case ep_ticket ep of None \<Rightarrow> [] | Some t \<Rightarrow> t) of
        None \<Rightarrow> None
      | Some ticket_term \<Rightarrow> Some (TTuple [ticket_term, TList (map TBinary (ep_location ep))]))"

definition encode_flight_info :: "(nat \<Rightarrow> bool) \<Rightarrow> FlightInfo \<Rightarrow> beam_term option" where
  "encode_flight_info alloc info =
     (case try_encode_binary alloc (fi_schema info) of
        None \<Rightarrow> None
      | Some schema_bytes \<Rightarrow>
          (case encode_descriptor alloc (fi_descriptor info) of
             None \<Rightarrow> None
           | Some descriptor \<Rightarrow>
               (case collect_option (encode_endpoint alloc) (fi_endpoint info) of
                  None \<Rightarrow> None
                | Some endpoints \<Rightarrow>
                    Some (TTuple [schema_bytes, descriptor, TList endpoints,
                                  TInt (fi_total_records info), TInt (fi_total_bytes info)]))))"

section \<open>Facts\<close>

lemma collect_map_Ok [simp]: "collect (\<lambda>x. x) (map Ok xs) = Ok xs"
  by (induction xs) auto

lemma collect_option_total:
  "(\<And>x. x \<in> set xs \<Longrightarrow> f x = Some (g x)) \<Longrightarrow> collect_option f xs = Some (map g xs)"
proof -
  assume "\<And>x. x \<in> set xs \<Longrightarrow> f x = Some (g x)"
  then have "collect (\<lambda>x. ok_or () (f x)) xs = Ok (map g xs)" by (intro collect_total) simp
  then show ?thesis by (simp add: collect_option_def)
qed

lemma decode_string_vec_iff:
  "decode_string_vec t = Some ss \<longleftrightarrow> t = TList (map TBinary ss) \<and> (\<forall>s \<in> set ss. utf8_valid s)"
proof
  assume "decode_string_vec t = Some ss"
  then obtain ts where t: "t = TList ts" "collect (\<lambda>x. ok_or () (decode_string x)) ts = Ok ss"
    by (auto simp: decode_string_vec_def split: option.splits sum.splits)
  then have "list_all2 (\<lambda>x s. utf8_valid s \<and> x = TBinary s) ts ss" by (simp add: collect_eq_Ok)
  then have "ts = map TBinary ss \<and> (\<forall>s \<in> set ss. utf8_valid s)"
    by (induction rule: list_all2_induct) auto
  with t show "t = TList (map TBinary ss) \<and> (\<forall>s \<in> set ss. utf8_valid s)" by simp
next
  assume "t = TList (map TBinary ss) \<and> (\<forall>s \<in> set ss. utf8_valid s)"
  then show "decode_string_vec t = Some ss" by (auto intro: decode_string_vec_strings)
qed

lemma join_strings_valid: "(\<And>s. s \<in> set ss \<Longrightarrow> utf8_valid s) \<Longrightarrow> utf8_valid (join_strings ''/'' ss)"
proof (induction ss rule: induct_list012)
  case (3 x y zs)
  have slash: "utf8_valid ''/''" by (rule utf8_valid_ascii) auto
  have "utf8_valid (x @ (''/'' @ join_strings ''/'' (y # zs)))"
    using 3 by (intro utf8_valid_append slash) auto
  then show ?case by simp
qed auto

text \<open>The descriptors a client can send: exactly one of the two payloads, and valid strings.\<close>

definition descriptor_wf :: "FlightDescriptor \<Rightarrow> bool" where
  "descriptor_wf d \<longleftrightarrow>
     fd_type d = DESCRIPTOR_CMD \<and> fd_path d = [] \<or>
     fd_type d = DESCRIPTOR_PATH \<and> fd_cmd d = [] \<and> list_all utf8_valid (fd_path d)"

lemma decode_descriptor_cmd:
  "decode_descriptor (TTuple [TAtom ''cmd'', TBinary c]) = Ok \<lparr>fd_type = 2, fd_cmd = c, fd_path = []\<rparr>"
  by (simp add: decode_descriptor_def default_descriptor_def)

lemma decode_descriptor_path:
  "list_all utf8_valid ss \<Longrightarrow> decode_descriptor (TTuple [TAtom ''path'', TList (map TBinary ss)]) =
     Ok \<lparr>fd_type = 1, fd_cmd = [], fd_path = ss\<rparr>"
  using decode_string_vec_strings [of ss]
  by (simp add: decode_descriptor_def default_descriptor_def list_all_iff)

lemma decode_descriptor_OkD:
  assumes "decode_descriptor t = Ok d"
  obtains c where "t = TTuple [TAtom ''cmd'', TBinary c]" "d = \<lparr>fd_type = 2, fd_cmd = c, fd_path = []\<rparr>"
  | ss where "t = TTuple [TAtom ''path'', TList (map TBinary ss)]" "list_all utf8_valid ss"
      "d = \<lparr>fd_type = 1, fd_cmd = [], fd_path = ss\<rparr>"
proof -
  from assms obtain tup tag where tup: "t = TTuple tup" "length tup = 2" "tup ! 0 = TAtom tag"
    "tag = ''cmd'' \<or> tag = ''path''"
    by (auto simp: decode_descriptor_def split: option.splits if_splits)
  then obtain x where x: "tup = [TAtom tag, x]"
    by (auto simp: length_Suc_conv numeral_2_eq_2)
  with assms tup that show thesis
    by (auto simp: decode_descriptor_def default_descriptor_def decode_string_vec_iff list_all_iff
        split: option.splits)
qed

lemma decode_descriptor_wf: "decode_descriptor t = Ok d \<Longrightarrow> descriptor_wf d"
  by (erule decode_descriptor_OkD) (simp_all add: descriptor_wf_def)

lemma decode_descriptor_encode: "decode_descriptor t = Ok d \<Longrightarrow> encode_descriptor (\<lambda>_. True) (Some d) = Some t"
  by (erule decode_descriptor_OkD) (simp_all add: encode_descriptor_def try_encode_binary_def)

text \<open>
  C16: descriptor terms and descriptors correspond one to one.  A BEAM term decodes to a descriptor
  exactly when the descriptor is well-formed (a command with no path, or a path of valid strings
  with no command) and encodes back to that very term.
\<close>

theorem descriptor_codec:
  "decode_descriptor t = Ok d \<longleftrightarrow> descriptor_wf d \<and> encode_descriptor (\<lambda>_. True) (Some d) = Some t"
proof
  assume "decode_descriptor t = Ok d"
  then show "descriptor_wf d \<and> encode_descriptor (\<lambda>_. True) (Some d) = Some t"
    by (simp add: decode_descriptor_wf decode_descriptor_encode)
next
  assume "descriptor_wf d \<and> encode_descriptor (\<lambda>_. True) (Some d) = Some t"
  then show "decode_descriptor t = Ok d"
    using decode_descriptor_cmd decode_descriptor_path
    by (cases d) (auto simp: descriptor_wf_def encode_descriptor_def try_encode_binary_def)
qed

text \<open>The key of a descriptor is always a valid string.\<close>

lemma descriptor_to_key_valid:
  "descriptor_wf d \<Longrightarrow> descriptor_to_key d = Some k \<Longrightarrow> utf8_valid k"
  by (auto simp: descriptor_wf_def descriptor_to_key_def list_all_iff from_utf8_lossy_valid
      intro: join_strings_valid split: if_splits)

text \<open>Different descriptors can share a key: a path segment may contain the separator.\<close>

lemma descriptor_key_collision:
  "decode_descriptor (TTuple [TAtom ''path'', TList [TBinary ''a/b'']]) \<noteq>
     decode_descriptor (TTuple [TAtom ''path'', TList [TBinary ''a'', TBinary ''b'']]) \<and>
   map descriptor_to_key
     [\<lparr>fd_type = 1, fd_cmd = [], fd_path = [''a/b'']\<rparr>, \<lparr>fd_type = 1, fd_cmd = [], fd_path = [''a'', ''b'']\<rparr>,
      \<lparr>fd_type = 2, fd_cmd = ''a/b'', fd_path = []\<rparr>] = replicate 3 (Some ''a/b'')"
proof -
  have "utf8_valid ''a/b''" "utf8_valid ''a''" "utf8_valid ''b''" by (rule utf8_valid_ascii; auto)+
  then have v: "list_all utf8_valid [''a/b'']" "list_all utf8_valid [''a'', ''b'']" by simp_all
  have "from_utf8_lossy ''a/b'' = ''a/b''" using v(1) by (simp add: from_utf8_lossy_id)
  then show ?thesis using decode_descriptor_path [OF v(1)] decode_descriptor_path [OF v(2)]
    by (simp add: descriptor_to_key_def numeral_3_eq_3)
qed

end
