(* ===== verification/Sql_Errors.thy ===== *)
theory Sql_Errors
  imports Flight_Types
begin

text \<open>
  Error terms of the Flight SQL client (\<open>flight_sql.rs\<close>, lines 117 to 307): the mapping of gRPC
  codes to atoms, and the recovery of a status that the \<open>arrow-flight\<close> crate has flattened into
  the text of an IPC error.  Strings are the bytes of their UTF-8 encoding; every character the
  scanners look for is ASCII, so scanning bytes and scanning characters agree.
\<close>

section \<open>TLS mode\<close>

text \<open>The Flight SQL client has its own copy of the TLS parser.\<close>

definition sql_parse_tls_mode :: "beam_term \<Rightarrow> (TlsMode, string) result" where
  "sql_parse_tls_mode t =
     (case decode_atom t of
        Some a \<Rightarrow>
          if a = ''plaintext'' then Ok Plaintext
          else if a = ''system_certs'' then Ok SystemCerts
          else Err ''unknown tls_mode atom; expected :plaintext or :system_certs''
      | None \<Rightarrow>
          (case get_tuple t of
             None \<Rightarrow> Err ''tls_mode must be :plaintext, :system_certs, or {:custom_ca, pem_binary()}''
           | Some tup \<Rightarrow>
               if length tup = 2 \<and> decode_atom (tup ! 0) = Some ''custom_ca'' then
                 (case decode_binary (tup ! 1) of
                    None \<Rightarrow> Err ''custom_ca payload must be a binary''
                  | Some pem \<Rightarrow> Ok (CustomCa pem))
               else Err ''invalid tls_mode; expected :plaintext, :system_certs, or {:custom_ca, binary()}''))"

lemma sql_parse_tls_mode_same: "sql_parse_tls_mode = parse_tls_mode"
  by (rule ext) (simp add: sql_parse_tls_mode_def parse_tls_mode_def)

section \<open>Codes\<close>

text \<open>\<open>{:error, {code, grpc_status, message}}\<close>, or \<open>{:error, message}\<close> for a poisoned lock.\<close>

datatype sql_error = SqlError string int string | PlainError string

definition encode_sql_error :: "string \<Rightarrow> int \<Rightarrow> string \<Rightarrow> ('v, sql_error) nif_term" where
  "encode_sql_error code grpc_status msg = ErrorTuple (SqlError code grpc_status msg)"

fun tonic_code_to_atom :: "Code \<Rightarrow> string \<times> int" where
  "tonic_code_to_atom Cancelled = (''transport_error'', 1)"
| "tonic_code_to_atom Unavailable = (''transport_error'', 14)"
| "tonic_code_to_atom DeadlineExceeded = (''transport_error'', 4)"
| "tonic_code_to_atom Unauthenticated = (''unauthenticated'', 16)"
| "tonic_code_to_atom PermissionDenied = (''permission_denied'', 7)"
| "tonic_code_to_atom NotFound = (''not_found'', 5)"
| "tonic_code_to_atom InvalidArgument = (''invalid_argument'', 3)"
| "tonic_code_to_atom OutOfRange = (''invalid_argument'', 11)"
| "tonic_code_to_atom Unimplemented = (''unimplemented'', 12)"
| "tonic_code_to_atom Internal = (''server_error'', 13)"
| "tonic_code_to_atom Unknown = (''server_error'', 2)"
| "tonic_code_to_atom ResourceExhausted = (''server_error'', 8)"
| "tonic_code_to_atom FailedPrecondition = (''server_error'', 9)"
| "tonic_code_to_atom Aborted = (''server_error'', 10)"
| "tonic_code_to_atom AlreadyExists = (''server_error'', 6)"
| "tonic_code_to_atom DataLoss = (''server_error'', 15)"
| "tonic_code_to_atom Code_Ok = (''server_error'', 0)"

definition tonic_code_name_to_atom :: "string \<Rightarrow> string \<times> int" where
  "tonic_code_name_to_atom name =
     (if name = ''Ok'' then (''ok'', 0)
      else if name = ''Cancelled'' then (''transport_error'', 1)
      else if name = ''Unknown'' then (''server_error'', 2)
      else if name = ''InvalidArgument'' then (''invalid_argument'', 3)
      else if name = ''DeadlineExceeded'' then (''transport_error'', 4)
      else if name = ''NotFound'' then (''not_found'', 5)
      else if name = ''AlreadyExists'' then (''server_error'', 6)
      else if name = ''PermissionDenied'' then (''permission_denied'', 7)
      else if name = ''ResourceExhausted'' then (''server_error'', 8)
      else if name = ''FailedPrecondition'' then (''server_error'', 9)
      else if name = ''Aborted'' then (''server_error'', 10)
      else if name = ''OutOfRange'' then (''invalid_argument'', 11)
      else if name = ''Unimplemented'' then (''unimplemented'', 12)
      else if name = ''Internal'' then (''server_error'', 13)
      else if name = ''Unavailable'' then (''transport_error'', 14)
      else if name = ''DataLoss'' then (''server_error'', 15)
      else if name = ''Unauthenticated'' then (''unauthenticated'', 16)
      else (''server_error'', 2))"

section \<open>Scanning\<close>

text \<open>\<open>str::find\<close>: the position of the first occurrence.\<close>

fun find_str :: "string \<Rightarrow> string \<Rightarrow> nat option" where
  "find_str p [] = (if p = [] then Some 0 else None)"
| "find_str p (c # s) =
     (if take (length p) (c # s) = p then Some 0 else map_option Suc (find_str p s))"

definition extract_field :: "string \<Rightarrow> string \<Rightarrow> string \<Rightarrow> string option" where
  "extract_field s pre suf =
     (case find_str pre s of
        None \<Rightarrow> None
      | Some i \<Rightarrow>
          (let start = i + length pre in
           case find_str suf (drop start s) of
             None \<Rightarrow> None
           | Some j \<Rightarrow> Some (take j (drop start s))))"

text \<open>The characters the quoting rules mention.\<close>

abbreviation quote_char :: char where "quote_char \<equiv> CHR 0x22"
abbreviation backslash :: char where "backslash \<equiv> CHR 0x5C"
abbreviation newline_char :: char where "newline_char \<equiv> CHR 0x0A"
abbreviation tab_char :: char where "tab_char \<equiv> CHR 0x09"

definition unescape :: "char \<Rightarrow> string" where
  "unescape c =
     (if c = quote_char then [quote_char]
      else if c = CHR ''n'' then [newline_char]
      else if c = CHR ''t'' then [tab_char]
      else if c = backslash then [backslash]
      else [backslash, c])"

fun unquote_loop :: "string \<Rightarrow> string \<Rightarrow> string option" where
  "unquote_loop res [] = None"
| "unquote_loop res (c # cs) =
     (if c = quote_char then Some res
      else if c = backslash then
        (case cs of [] \<Rightarrow> None | d # ds \<Rightarrow> unquote_loop (res @ unescape d) ds)
      else unquote_loop (res @ [c]) cs)"

definition extract_quoted_field :: "string \<Rightarrow> string \<Rightarrow> string option" where
  "extract_quoted_field s pre =
     (case find_str pre s of None \<Rightarrow> None | Some i \<Rightarrow> unquote_loop [] (drop (i + length pre) s))"

text \<open>
  \<open>str::trim\<close>: the encodings of the characters with the Unicode property \<open>White_Space\<close>.
\<close>

definition whitespace :: "string list" where
  "whitespace =
     [[CHR 0x09], [CHR 0x0A], [CHR 0x0B], [CHR 0x0C], [CHR 0x0D], [CHR 0x20],
      [CHR 0xC2, CHR 0x85], [CHR 0xC2, CHR 0xA0], [CHR 0xE1, CHR 0x9A, CHR 0x80],
      [CHR 0xE2, CHR 0x80, CHR 0x80], [CHR 0xE2, CHR 0x80, CHR 0x81],
      [CHR 0xE2, CHR 0x80, CHR 0x82], [CHR 0xE2, CHR 0x80, CHR 0x83],
      [CHR 0xE2, CHR 0x80, CHR 0x84], [CHR 0xE2, CHR 0x80, CHR 0x85],
      [CHR 0xE2, CHR 0x80, CHR 0x86], [CHR 0xE2, CHR 0x80, CHR 0x87],
      [CHR 0xE2, CHR 0x80, CHR 0x88], [CHR 0xE2, CHR 0x80, CHR 0x89],
      [CHR 0xE2, CHR 0x80, CHR 0x8A], [CHR 0xE2, CHR 0x80, CHR 0xA8],
      [CHR 0xE2, CHR 0x80, CHR 0xA9], [CHR 0xE2, CHR 0x80, CHR 0xAF],
      [CHR 0xE2, CHR 0x81, CHR 0x9F], [CHR 0xE3, CHR 0x80, CHR 0x80]]"

definition head_len :: "string list \<Rightarrow> string \<Rightarrow> nat" where
  "head_len ws s = (case find (\<lambda>w. take (length w) s = w) ws of None \<Rightarrow> 0 | Some w \<Rightarrow> length w)"

function strip_head :: "string list \<Rightarrow> string \<Rightarrow> string" where
  "strip_head ws s =
     (if s = [] \<or> head_len ws s = 0 then s else strip_head ws (drop (head_len ws s) s))"
  by pat_completeness auto
termination
  by (relation "measure (\<lambda>(ws, s). length s)") auto

declare strip_head.simps [simp del]

definition trim :: "string \<Rightarrow> string" where
  "trim s = rev (strip_head (map rev whitespace) (rev (strip_head whitespace s)))"

definition parse_tonic_status_debug :: "string \<Rightarrow> (string \<times> int \<times> string) option" where
  "parse_tonic_status_debug s =
     (if take 8 s \<noteq> ''Status {'' then None
      else
        (case extract_field s ''code: '' '','' of
           None \<Rightarrow> None
         | Some code_str \<Rightarrow>
             (let (atom, grpc_int) = tonic_code_name_to_atom (trim code_str) in
              Some (atom, grpc_int,
                    case extract_quoted_field s (''message: '' @ [quote_char]) of None \<Rightarrow> [] | Some m \<Rightarrow> m))))"

text \<open>The display forms of the crates' errors are parameters.\<close>

record error_display =
  arrow_display :: "ArrowError \<Rightarrow> string"
  flight_display :: "FlightError \<Rightarrow> string"

definition arrow_error_to_term :: "error_display \<Rightarrow> ArrowError \<Rightarrow> ('v, sql_error) nif_term" where
  "arrow_error_to_term D err =
     (case err of
        IpcErr s \<Rightarrow>
          (case parse_tonic_status_debug s of
             Some (atom, grpc_int, msg) \<Rightarrow> encode_sql_error atom grpc_int msg
           | None \<Rightarrow> encode_sql_error ''transport_error'' 0 (arrow_display D err))
      | OtherArrowError _ \<Rightarrow> encode_sql_error ''transport_error'' 0 (arrow_display D err))"

definition flight_error_to_term :: "error_display \<Rightarrow> FlightError \<Rightarrow> ('v, sql_error) nif_term" where
  "flight_error_to_term D err =
     (case err of
        FE_Tonic st \<Rightarrow>
          (let (code, grpc_code) = tonic_code_to_atom (st_code st) in
           encode_sql_error code grpc_code (st_message st))
      | FE_Arrow e \<Rightarrow> arrow_error_to_term D e
      | FE_DecodeError msg \<Rightarrow> encode_sql_error ''protocol_error'' 0 msg
      | FE_ProtocolError msg \<Rightarrow> encode_sql_error ''protocol_error'' 0 msg
      | FE_Other _ \<Rightarrow> encode_sql_error ''transport_error'' 0 (flight_display D err))"

section \<open>Recovering a flattened status\<close>

text \<open>
  The \<open>Debug\<close> form of a status: the variant name of the code, then the message as a quoted string
  with the escapes of \<open>str\<close>'s \<open>Debug\<close> implementation, then whatever fields follow.
\<close>

fun code_name :: "Code \<Rightarrow> string" where
  "code_name Code_Ok = ''Ok''"
| "code_name Cancelled = ''Cancelled''"
| "code_name Unknown = ''Unknown''"
| "code_name InvalidArgument = ''InvalidArgument''"
| "code_name DeadlineExceeded = ''DeadlineExceeded''"
| "code_name NotFound = ''NotFound''"
| "code_name AlreadyExists = ''AlreadyExists''"
| "code_name PermissionDenied = ''PermissionDenied''"
| "code_name ResourceExhausted = ''ResourceExhausted''"
| "code_name FailedPrecondition = ''FailedPrecondition''"
| "code_name Aborted = ''Aborted''"
| "code_name OutOfRange = ''OutOfRange''"
| "code_name Unimplemented = ''Unimplemented''"
| "code_name Internal = ''Internal''"
| "code_name Unavailable = ''Unavailable''"
| "code_name DataLoss = ''DataLoss''"
| "code_name Unauthenticated = ''Unauthenticated''"

definition debug_escape :: "char \<Rightarrow> string" where
  "debug_escape c =
     (if c = quote_char \<or> c = backslash then [backslash, c]
      else if c = newline_char then [backslash, CHR ''n'']
      else if c = tab_char then [backslash, CHR ''t'']
      else if c = CHR 0x0D then [backslash, CHR ''r'']
      else [c])"

text \<open>The characters the scanner can recover: printable ASCII, newline and tab.\<close>

definition recoverable :: "char \<Rightarrow> bool" where
  "recoverable c \<longleftrightarrow> 32 \<le> byte_val c \<and> byte_val c \<le> 126 \<or> c = newline_char \<or> c = tab_char"

definition status_debug :: "Code \<Rightarrow> string \<Rightarrow> string \<Rightarrow> string" where
  "status_debug c m rest =
     ''Status { code: '' @ code_name c @ '', message: '' @ [quote_char] @
     concat (map debug_escape m) @ [quote_char] @ rest"

lemma unquote_escaped:
  "list_all recoverable m \<Longrightarrow>
   unquote_loop res (concat (map debug_escape m) @ quote_char # rest) = Some (res @ m)"
proof (induction m arbitrary: res)
  case (Cons c m)
  then have c: "recoverable c" by simp
  then have "c \<noteq> CHR 0x0D" by (auto simp: recoverable_def)
  then show ?case using Cons by (simp add: debug_escape_def unescape_def)
qed simp

lemma find_code: "find_str ''code: '' (''Status { code: '' @ s) = Some 9"
  by simp

lemma find_comma: "find_str '','' (code_name c @ '','' @ s) = Some (length (code_name c))"
  by (cases c) simp_all

lemma find_message:
  "find_str (''message: '' @ [quote_char]) (''Status { code: '' @ code_name c @ '', message: '' @ [quote_char] @ s) =
     Some (17 + length (code_name c))"
  by (cases c) simp_all

lemma strip_head_none:
  assumes "[] \<notin> set ws" "s = [] \<or> hd s \<notin> hd ` set ws"
  shows "strip_head ws s = s"
proof (cases "s = []")
  case False
  have "find (\<lambda>w. take (length w) s = w) ws = None"
  proof (rule ccontr)
    assume "find (\<lambda>w. take (length w) s = w) ws \<noteq> None"
    then obtain w where w: "w \<in> set ws" "take (length w) s = w" by (auto simp: find_None_iff)
    then have "w \<noteq> []" using assms(1) by auto
    then have "hd w = hd s" using w(2) by (metis hd_append2 append_take_drop_id)
    then have "hd s \<in> hd ` set ws" using w(1) by (metis imageI)
    then show False using assms(2) False by simp
  qed
  then show ?thesis by (subst strip_head.simps) (simp add: head_len_def)
qed (simp add: strip_head.simps)

lemma trim_id:
  assumes "hd s \<notin> hd ` set whitespace" "last s \<notin> last ` set whitespace"
  shows "trim s = s"
proof -
  have ne: "[] \<notin> set whitespace" "[] \<notin> set (map rev whitespace)" by (auto simp: whitespace_def)
  have "hd ` set (map rev whitespace) = last ` set whitespace" by (simp add: image_image hd_rev)
  then show ?thesis using assms strip_head_none [OF ne(1), of s] strip_head_none [OF ne(2), of "rev s"]
    by (simp add: trim_def hd_rev)
qed

lemma trim_code_name: "trim (code_name c) = code_name c"
  by (rule trim_id; cases c; simp add: whitespace_def)

lemma code_name_to_atom: "c \<noteq> Code_Ok \<Longrightarrow> tonic_code_name_to_atom (code_name c) = tonic_code_to_atom c"
  by (cases c) (simp_all add: tonic_code_name_to_atom_def)

lemma parse_status_debug:
  assumes "list_all recoverable m"
  shows "parse_tonic_status_debug (status_debug c m rest) =
    Some (fst (tonic_code_name_to_atom (code_name c)), snd (tonic_code_name_to_atom (code_name c)), m)"
proof -
  let ?tail = "concat (map debug_escape m) @ [quote_char] @ rest"
  let ?s = "status_debug c m rest"
  have s: "?s = ''Status { code: '' @ code_name c @ '', message: '' @ [quote_char] @ ?tail"
    by (simp add: status_debug_def)
  have "find_str ''code: '' ?s = Some 9" unfolding s by (rule find_code)
  moreover have "drop 15 ?s = code_name c @ '','' @ ('' message: '' @ [quote_char] @ ?tail)"
    unfolding s by simp
  ultimately have code: "extract_field ?s ''code: '' '','' = Some (code_name c)"
    using find_comma [of c "'' message: '' @ [quote_char] @ ?tail"] by (simp add: extract_field_def)
  have "find_str (''message: '' @ [quote_char]) ?s = Some (17 + length (code_name c))"
    unfolding s by (rule find_message)
  moreover have "drop (17 + length (code_name c) + 10) ?s = ?tail"
  proof -
    let ?p = "''Status { code: '' @ code_name c @ '', message: '' @ [quote_char]"
    have "17 + length (code_name c) + 10 = length ?p" by simp
    moreover have "?s = ?p @ ?tail" unfolding s by simp
    ultimately show ?thesis by (metis append_eq_conv_conj)
  qed
  ultimately have msg: "extract_quoted_field ?s (''message: '' @ [quote_char]) = Some m"
    using unquote_escaped [OF assms, of "[]" rest] by (simp add: extract_quoted_field_def)
  have "take 8 ?s = ''Status {''" unfolding s by simp
  with code msg show ?thesis
    by (simp add: parse_tonic_status_debug_def trim_code_name case_prod_beta)
qed

text \<open>
  C7: a flattened status is recovered.  When \<open>arrow-flight\<close> has turned a status into an IPC error
  whose text is the status's \<open>Debug\<close> form, the error term the client sees has the same code atom,
  the same gRPC number and the same message as if the status had arrived unflattened, for every
  code other than \<open>Ok\<close> and every message of printable ASCII characters, newlines and tabs,
  whatever quotes and backslashes it contains.
\<close>

theorem flattened_status_recovered:
  assumes "st_code st \<noteq> Code_Ok" "list_all recoverable (st_message st)"
  shows "flight_error_to_term D (FE_Arrow (IpcErr (status_debug (st_code st) (st_message st) rest))) =
    flight_error_to_term D (FE_Tonic st)"
  using parse_status_debug [OF assms(2), of "st_code st" rest] code_name_to_atom [OF assms(1)]
  by (simp add: flight_error_to_term_def arrow_error_to_term_def case_prod_beta)

definition plain_display :: error_display where
  "plain_display = \<lparr>arrow_display = (\<lambda>_. ''arrow error''), flight_display = (\<lambda>_. ''flight error'')\<rparr>"

theorem flattened_status_recovered_witness:
  "flight_error_to_term plain_display
     (FE_Arrow (IpcErr (status_debug NotFound (''no table '' @ [quote_char, CHR ''u'', quote_char]) '', source: None }''))) =
    ErrorTuple (SqlError ''not_found'' 5 (''no table '' @ [quote_char, CHR ''u'', quote_char]))"
  using flattened_status_recovered [of "status NotFound (''no table '' @ [quote_char, CHR ''u'', quote_char])"
      plain_display "'', source: None }''"]
  by (simp add: status_def flight_error_to_term_def encode_sql_error_def recoverable_def)

text \<open>
  What recovery gets wrong.  \<open>extract_quoted_field\<close> does not know the escape that \<open>Debug\<close> uses
  for a carriage return, so the recovered message shows a backslash and the letter \<open>r\<close>; and the
  code \<open>Ok\<close> becomes the atom \<open>ok\<close> when it is recovered from text but \<open>server_error\<close> otherwise.
\<close>

theorem flattened_status_garbled:
  "parse_tonic_status_debug (status_debug Internal [CHR ''a'', CHR 0x0D] []) =
     Some (''server_error'', 13, [CHR ''a'', backslash, CHR ''r'']) \<and>
   tonic_code_name_to_atom (code_name Code_Ok) = (''ok'', 0) \<and>
   tonic_code_to_atom Code_Ok = (''server_error'', 0)"
proof -
  have "trim ''Internal'' = ''Internal''" using trim_code_name [of Internal] by simp
  then show ?thesis
    by (simp add: parse_tonic_status_debug_def status_debug_def extract_field_def extract_quoted_field_def
        debug_escape_def unescape_def tonic_code_name_to_atom_def)
qed

end
