(* ===== verification/Flight_Server.thy ===== *)
theory Flight_Server
  imports Flight_Types Ipc "HOL-Library.List_Lexorder" "HOL-Library.Char_ord"
begin

text \<open>
  The Flight server (\<open>flight.rs\<close>, lines 189 to 198 and 330 to 581): a store of datasets behind a mutex and one
  handler per RPC.  A handler maps the request and the state of the mutex to a response and the
  new state; the part of \<open>do_put\<close> that runs before the lock is taken does not touch the state, so
  each handler takes effect in one step and a server's life is a sequence of requests.  The
  FlatBuffer codec of the \<open>arrow-flight\<close> crate is a parameter (\<open>flight_api\<close>), and so is the
  iteration order of a \<open>HashMap\<close>.
\<close>

section \<open>The codec and the state\<close>

record 'm flight_api =
  fa_schema_ipc :: "Schema \<Rightarrow> (bytes, string) result"
  fa_encode :: "Schema \<Rightarrow> FlightDescriptor option \<Rightarrow> RecordBatch list \<Rightarrow> ('m, FlightError) result list"
  fa_decode :: "('m, FlightError) result list \<Rightarrow> (RecordBatch, FlightError) result list"
  fa_descriptor :: "'m \<Rightarrow> FlightDescriptor option"
  fa_status_display :: "Status \<Rightarrow> string"
  fa_error_display :: "FlightError \<Rightarrow> string"

type_synonym dataset = "Schema \<times> RecordBatch list"

record EchoState =
  datasets :: "string \<rightharpoonup> dataset"

type_synonym hash_iter = "(string \<rightharpoonup> dataset) \<Rightarrow> (string \<times> dataset) list"

type_synonym EchoFlightService = "EchoState Mutex"

text \<open>A server starts with an empty store (\<open>flight_server_start\<close>).\<close>

definition echo_init :: EchoFlightService where
  "echo_init = mutex_new \<lparr>datasets = Map.empty\<rparr>"

definition schema_ipc_bytes :: "'m flight_api \<Rightarrow> Schema \<Rightarrow> (bytes, Status) result" where
  "schema_ipc_bytes A sch =
     map_err (\<lambda>e. status Internal (''schema IPC encode: '' @ e)) (fa_schema_ipc A sch)"

text \<open>\<open>batches.iter().map(|b| b.num_rows() as i64).sum()\<close>.\<close>

definition total_rows :: "RecordBatch list \<Rightarrow> int" where
  "total_rows batches = foldl (\<lambda>acc b. wrap_i64 (acc + wrap_i64 (int (num_rows b)))) 0 batches"

definition lock_status :: "EchoFlightService \<Rightarrow> (EchoState, Status) result" where
  "lock_status st = map_err (\<lambda>_. status Internal ''lock'') (lock st)"

text \<open>The wrapping sum is the number of rows whenever that fits.\<close>

lemma wrap_i64_add: "wrap_i64 (wrap_i64 a + b) = wrap_i64 (a + b)"
proof -
  have "(a + 9223372036854775808) mod 18446744073709551616 - 9223372036854775808 + b + 9223372036854775808 =
      (a + 9223372036854775808) mod 18446744073709551616 + b" by simp
  then show ?thesis unfolding wrap_i64_def by (simp only: mod_add_left_eq) (simp add: ac_simps)
qed

lemma total_rows_wrap: "total_rows bs = wrap_i64 (int (sum_list (map num_rows bs)))"
proof -
  have "foldl (\<lambda>acc b. wrap_i64 (acc + wrap_i64 (int (num_rows b)))) (wrap_i64 a) bs =
      wrap_i64 (a + int (sum_list (map num_rows bs)))" for a
  proof (induction bs arbitrary: a)
    case (Cons b bs)
    have "wrap_i64 (wrap_i64 a + wrap_i64 (int (num_rows b))) = wrap_i64 (a + int (num_rows b))"
      using wrap_i64_add [of a "wrap_i64 (int (num_rows b))"] wrap_i64_add [of "int (num_rows b)" a]
      by (simp add: add.commute)
    with Cons [of "a + int (num_rows b)"] show ?case by (simp add: add.assoc)
  qed simp
  from this [of 0] show ?thesis by (simp add: total_rows_def in_i64_def)
qed

lemma total_rows_exact:
  "sum_list (map num_rows bs) < 9223372036854775808 \<Longrightarrow> total_rows bs = int (sum_list (map num_rows bs))"
  by (simp add: total_rows_wrap in_i64_def)

section \<open>Handlers\<close>

definition handshake :: "EchoFlightService \<Rightarrow> (unit list, Status) result" where
  "handshake st = Err (status Unimplemented ''handshake'')"

definition flight_info_of ::
  "'m flight_api \<Rightarrow> FlightDescriptor \<Rightarrow> string \<Rightarrow> dataset \<Rightarrow> (FlightInfo, Status) result" where
  "flight_info_of A desc ticket_key ds =
     (case schema_ipc_bytes A (fst ds) of
        Err e \<Rightarrow> Err e
      | Ok schema_bytes \<Rightarrow>
          Ok \<lparr>fi_schema = schema_bytes, fi_descriptor = Some desc,
              fi_endpoint = [\<lparr>ep_ticket = Some ticket_key, ep_location = []\<rparr>],
              fi_total_records = total_rows (snd ds), fi_total_bytes = - 1,
              fi_ordered = False, fi_app_metadata = []\<rparr>)"

definition list_flights ::
  "'m flight_api \<Rightarrow> hash_iter \<Rightarrow> EchoFlightService \<Rightarrow> ((FlightInfo, Status) result list, Status) result" where
  "list_flights A it st =
     (case lock_status st of
        Err e \<Rightarrow> Err e
      | Ok guard \<Rightarrow>
          Ok (map (\<lambda>(ticket_key, ds).
                 flight_info_of A (default_descriptor\<lparr>fd_type := DESCRIPTOR_CMD, fd_cmd := ticket_key\<rparr>)
                   ticket_key ds)
               (it (datasets guard))))"

definition unknown_ticket :: "string \<Rightarrow> Status" where
  "unknown_ticket k = status NotFound (''unknown ticket: '' @ k)"

definition get_flight_info ::
  "'m flight_api \<Rightarrow> FlightDescriptor \<Rightarrow> EchoFlightService \<Rightarrow> (FlightInfo, Status) result" where
  "get_flight_info A desc st =
     (case descriptor_to_key desc of
        None \<Rightarrow> Err (status InvalidArgument ''unsupported descriptor type'')
      | Some ticket_key \<Rightarrow>
          (case lock_status st of
             Err e \<Rightarrow> Err e
           | Ok guard \<Rightarrow>
               (case datasets guard ticket_key of
                  None \<Rightarrow> Err (unknown_ticket ticket_key)
                | Some ds \<Rightarrow> flight_info_of A desc ticket_key ds)))"

definition get_schema ::
  "'m flight_api \<Rightarrow> FlightDescriptor \<Rightarrow> EchoFlightService \<Rightarrow> (bytes, Status) result" where
  "get_schema A desc st =
     (case descriptor_to_key desc of
        None \<Rightarrow> Err (status InvalidArgument ''unsupported descriptor type'')
      | Some ticket_key \<Rightarrow>
          (case lock_status st of
             Err e \<Rightarrow> Err e
           | Ok guard \<Rightarrow>
               (case datasets guard ticket_key of
                  None \<Rightarrow> Err (unknown_ticket ticket_key)
                | Some ds \<Rightarrow> schema_ipc_bytes A (fst ds))))"

definition do_get ::
  "'m flight_api \<Rightarrow> bytes \<Rightarrow> EchoFlightService \<Rightarrow> (('m, Status) result list, Status) result" where
  "do_get A ticket st =
     (let ticket_key = from_utf8_lossy ticket in
      case lock_status st of
        Err e \<Rightarrow> Err e
      | Ok guard \<Rightarrow>
          (case datasets guard ticket_key of
             None \<Rightarrow> Err (unknown_ticket ticket_key)
           | Some (sch, batches) \<Rightarrow>
               Ok (map (map_err (\<lambda>e. status Internal (fa_error_display A e))) (fa_encode A sch None batches))))"

text \<open>
  What \<open>do_put\<close> does before it takes the lock: peek at the first message for the descriptor,
  decode the whole stream, and reject an upload without batches.  The outcome is the key and the
  dataset to store.
\<close>

definition put_key :: "'m flight_api \<Rightarrow> 'm \<Rightarrow> string" where
  "put_key A first =
     (case Option.bind (fa_descriptor A first) descriptor_to_key of
        None \<Rightarrow> from_utf8_lossy ECHO_TICKET
      | Some k \<Rightarrow> k)"

definition decode_upload ::
  "'m flight_api \<Rightarrow> ('m, Status) result list \<Rightarrow> (string \<times> dataset, Status) result" where
  "decode_upload A stream =
     (case stream of
        [] \<Rightarrow> Err (status InvalidArgument ''do_put: empty stream'')
      | Err e # _ \<Rightarrow> Err (status Internal (fa_status_display A e))
      | Ok first # rest \<Rightarrow>
          (case collect (\<lambda>x. x) (fa_decode A (map (map_err FE_Tonic) (Ok first # rest))) of
             Err e \<Rightarrow> Err (status Internal (fa_error_display A e))
           | Ok [] \<Rightarrow> Err (status InvalidArgument ''do_put rejected: stream contained no record batches'')
           | Ok (b # bs) \<Rightarrow> Ok (put_key A first, schema b, b # bs)))"

definition do_put ::
  "'m flight_api \<Rightarrow> ('m, Status) result list \<Rightarrow> EchoFlightService \<Rightarrow>
   ((bytes, Status) result list, Status) result \<times> EchoFlightService" where
  "do_put A stream st =
     (case decode_upload A stream of
        Err e \<Rightarrow> (Err e, st)
      | Ok (ticket_key, ds) \<Rightarrow>
          (case lock_status st of
             Err e \<Rightarrow> (Err e, st)
           | Ok guard \<Rightarrow>
               (Ok [Ok []], st\<lparr>inner := guard\<lparr>datasets := (datasets guard)(ticket_key \<mapsto> ds)\<rparr>\<rparr>)))"

definition do_action ::
  "hash_iter \<Rightarrow> string \<Rightarrow> bytes \<Rightarrow> EchoFlightService \<Rightarrow>
   ((bytes, Status) result list, Status) result \<times> EchoFlightService" where
  "do_action it ty body st =
     (if ty = ''ping'' then (Ok [Ok ''pong''], st)
      else if ty = ''clear'' then
        (case lock_status st of
           Err e \<Rightarrow> (Err e, st)
         | Ok guard \<Rightarrow> (Ok [], st\<lparr>inner := guard\<lparr>datasets := Map.empty\<rparr>\<rparr>))
      else if ty = ''list_tickets'' then
        (case lock_status st of
           Err e \<Rightarrow> (Err e, st)
         | Ok guard \<Rightarrow> (Ok (map (\<lambda>kv. Ok (fst kv)) (it (datasets guard))), st))
      else (Err (status NotFound (''unknown action: '' @ ty)), st))"

definition list_actions :: "((string \<times> string, Status) result list, Status) result" where
  "list_actions =
     Ok [Ok (''clear'', ''Clear all stored datasets.''),
         Ok (''ping'', ''Responds with 'pong'. Used to verify the server is alive.''),
         Ok (''list_tickets'', ''Return one result per stored dataset, each body is the ticket bytes.'')]"

definition poll_flight_info :: "FlightDescriptor \<Rightarrow> (unit, Status) result" where
  "poll_flight_info d = Err (status Unimplemented ''poll_flight_info'')"

definition do_exchange :: "('m, Status) result list \<Rightarrow> (('m, Status) result list, Status) result" where
  "do_exchange ms = Err (status Unimplemented ''do_exchange'')"

section \<open>The service\<close>

datatype 'm request =
    Handshake
  | ListFlights bytes
  | GetFlightInfo FlightDescriptor
  | GetSchema FlightDescriptor
  | DoGet bytes
  | DoPut "('m, Status) result list"
  | DoAction string bytes
  | ListActions
  | PollFlightInfo FlightDescriptor
  | DoExchange "('m, Status) result list"

datatype 'm response =
    RUnit "(unit, Status) result"
  | RInfos "((FlightInfo, Status) result list, Status) result"
  | RInfo "(FlightInfo, Status) result"
  | RSchema "(bytes, Status) result"
  | RData "(('m, Status) result list, Status) result"
  | RBytes "((bytes, Status) result list, Status) result"
  | RActions "((string \<times> string, Status) result list, Status) result"

fun serve :: "'m flight_api \<Rightarrow> hash_iter \<Rightarrow> 'm request \<Rightarrow> EchoFlightService \<Rightarrow> 'm response \<times> EchoFlightService" where
  "serve A it Handshake st = (RUnit (map_sum id (\<lambda>_. ()) (handshake st)), st)"
| "serve A it (ListFlights _) st = (RInfos (list_flights A it st), st)"
| "serve A it (GetFlightInfo d) st = (RInfo (get_flight_info A d st), st)"
| "serve A it (GetSchema d) st = (RSchema (get_schema A d st), st)"
| "serve A it (DoGet t) st = (RData (do_get A t st), st)"
| "serve A it (DoPut ms) st = map_prod RBytes id (do_put A ms st)"
| "serve A it (DoAction ty body) st = map_prod RBytes id (do_action it ty body st)"
| "serve A it ListActions st = (RActions list_actions, st)"
| "serve A it (PollFlightInfo d) st = (RUnit (poll_flight_info d), st)"
| "serve A it (DoExchange ms) st = (RData (do_exchange ms), st)"

inductive echo_reachable :: "'m flight_api \<Rightarrow> hash_iter \<Rightarrow> EchoFlightService \<Rightarrow> bool"
  for A :: "'m flight_api" and it :: hash_iter where
  start: "echo_reachable A it echo_init"
| step: "echo_reachable A it st \<Longrightarrow> echo_reachable A it (snd (serve A it req st))"

definition run_requests :: "'m flight_api \<Rightarrow> hash_iter \<Rightarrow> 'm request list \<Rightarrow> EchoFlightService \<Rightarrow> EchoFlightService" where
  "run_requests A it reqs st = fold (\<lambda>r s. snd (serve A it r s)) reqs st"

section \<open>The store as an abstract data type\<close>

text \<open>
  What a request means for a key-value store, and the contract of an implementation: the effect
  of each request on each key.  \<open>latest\<close> reads a history, most recent request first.
\<close>

datatype ('k, 'v) store_op = StorePut 'k 'v | StoreClear | StoreKeep

fun latest :: "('r \<Rightarrow> ('k, 'v) store_op) \<Rightarrow> 'r list \<Rightarrow> 'k \<Rightarrow> 'v option" where
  "latest eff [] k = None"
| "latest eff (r # rs) k =
     (case eff r of
        StorePut k' v \<Rightarrow> if k = k' then Some v else latest eff rs k
      | StoreClear \<Rightarrow> None
      | StoreKeep \<Rightarrow> latest eff rs k)"

locale dataset_store =
  fixes lookup :: "'s \<Rightarrow> 'k \<Rightarrow> 'v option"
    and exec :: "'r \<Rightarrow> 's \<Rightarrow> 's"
    and eff :: "'r \<Rightarrow> ('k, 'v) store_op"
    and live :: "'s \<Rightarrow> bool"
  assumes live_exec: "live s \<Longrightarrow> live (exec r s)"
    and lookup_put: "live s \<Longrightarrow> eff r = StorePut k' v \<Longrightarrow> lookup (exec r s) k = (if k = k' then Some v else lookup s k)"
    and lookup_clear: "live s \<Longrightarrow> eff r = StoreClear \<Longrightarrow> lookup (exec r s) k = None"
    and lookup_keep: "live s \<Longrightarrow> eff r = StoreKeep \<Longrightarrow> lookup (exec r s) k = lookup s k"
begin

lemma live_fold: "live s \<Longrightarrow> live (fold exec rs s)"
  using live_exec by (induction rs arbitrary: s) auto

text \<open>A lookup after any history of requests finds the latest upload under the key.\<close>

lemma lookup_fold:
  assumes "live s" "\<And>k. lookup s k = None"
  shows "lookup (fold exec rs s) k = latest eff (rev rs) k"
proof (induction rs rule: rev_induct)
  case Nil
  then show ?case using assms(2) by simp
next
  case (snoc r rs)
  have l: "live (fold exec rs s)" using assms(1) by (rule live_fold)
  show ?case using snoc lookup_put [OF l] lookup_clear [OF l] lookup_keep [OF l]
    by (simp split: store_op.split)
qed

end

fun request_effect :: "'m flight_api \<Rightarrow> 'm request \<Rightarrow> (string, dataset) store_op" where
  "request_effect A (DoPut ms) =
     (case decode_upload A ms of Ok (k, ds) \<Rightarrow> StorePut k ds | Err _ \<Rightarrow> StoreKeep)"
| "request_effect A (DoAction ty _) = (if ty = ''clear'' then StoreClear else StoreKeep)"
| "request_effect A _ = StoreKeep"

lemma lock_status_live [simp]: "\<not> poisoned st \<Longrightarrow> lock_status st = Ok (inner st)"
  by (simp add: lock_status_def lock_def)

lemma do_put_state:
  "\<not> poisoned st \<Longrightarrow> snd (do_put A ms st) =
     (case decode_upload A ms of
        Err _ \<Rightarrow> st
      | Ok (k, ds) \<Rightarrow> st\<lparr>inner := (inner st)\<lparr>datasets := (datasets (inner st))(k \<mapsto> ds)\<rparr>\<rparr>)"
  by (auto simp: do_put_def split: sum.splits)

lemma do_action_state:
  "\<not> poisoned st \<Longrightarrow> snd (do_action it ty body st) =
     (if ty = ''clear'' then st\<lparr>inner := (inner st)\<lparr>datasets := Map.empty\<rparr>\<rparr> else st)"
  by (simp add: do_action_def)

lemma serve_state:
  "\<not> poisoned st \<Longrightarrow> snd (serve A it r st) =
     (case request_effect A r of
        StorePut k ds \<Rightarrow> st\<lparr>inner := (inner st)\<lparr>datasets := (datasets (inner st))(k \<mapsto> ds)\<rparr>\<rparr>
      | StoreClear \<Rightarrow> st\<lparr>inner := (inner st)\<lparr>datasets := Map.empty\<rparr>\<rparr>
      | StoreKeep \<Rightarrow> st)"
  by (cases r) (auto simp: do_put_state do_action_state split: sum.splits)

interpretation echo: dataset_store "\<lambda>st. datasets (inner st)" "\<lambda>r st. snd (serve A it r st)"
    "request_effect A" "\<lambda>st. \<not> poisoned st" for A :: "'m flight_api" and it
  by unfold_locales (auto simp: serve_state split: store_op.splits)

lemma echo_init_live [simp]: "\<not> poisoned echo_init"
  by (simp add: echo_init_def)

lemma run_requests_live [simp]: "\<not> poisoned (run_requests A it reqs echo_init)"
  unfolding run_requests_def by (rule echo.live_fold) simp

lemma run_requests_lookup:
  "datasets (inner (run_requests A it reqs echo_init)) k = latest (request_effect A) (rev reqs) k"
  unfolding run_requests_def by (rule echo.lookup_fold) (simp_all add: echo_init_def)

text \<open>
  C5: the server is a store of datasets.  After any sequence of requests, \<open>do_get\<close> answers with
  the batches of the latest accepted upload under the ticket's key that no later \<open>clear\<close> removed,
  and with \<open>NotFound\<close> when there is none; every other request leaves the answer unchanged.
\<close>

theorem echo_serves_latest_upload:
  "do_get A ticket (run_requests A it reqs echo_init) =
     (case latest (request_effect A) (rev reqs) (from_utf8_lossy ticket) of
        None \<Rightarrow> Err (unknown_ticket (from_utf8_lossy ticket))
      | Some (sch, batches) \<Rightarrow>
          Ok (map (map_err (\<lambda>e. status Internal (fa_error_display A e))) (fa_encode A sch None batches)))"
  by (simp add: do_get_def run_requests_lookup Let_def)

section \<open>The invariant of the store\<close>

text \<open>
  Stored datasets are never empty, their schema is that of their first batch, and their keys are
  strings.  The last part needs that the path segments of a received descriptor are strings,
  which the type of the message guarantees.
\<close>

definition echo_inv :: "EchoFlightService \<Rightarrow> bool" where
  "echo_inv st \<longleftrightarrow> \<not> poisoned st \<and> finite (dom (datasets (inner st))) \<and>
     (\<forall>k sch bs. datasets (inner st) k = Some (sch, bs) \<longrightarrow> bs \<noteq> [] \<and> sch = schema (hd bs) \<and> utf8_valid k)"

locale flight_messages =
  fixes A :: "'m flight_api"
  assumes descriptor_strings: "fa_descriptor A m = Some d \<Longrightarrow> list_all utf8_valid (fd_path d)"
begin

lemma put_key_valid: "utf8_valid (put_key A m)"
proof (cases "Option.bind (fa_descriptor A m) descriptor_to_key")
  case None
  then show ?thesis by (simp add: put_key_def from_utf8_lossy_valid)
next
  case (Some k)
  then obtain d where d: "fa_descriptor A m = Some d" "descriptor_to_key d = Some k"
    by (auto simp: Option.bind_eq_Some_conv)
  have "list_all utf8_valid (fd_path d)" using d(1) by (rule descriptor_strings)
  then have "utf8_valid k" using d(2)
    by (auto simp: descriptor_to_key_def list_all_iff from_utf8_lossy_valid
        intro: join_strings_valid split: if_splits)
  with Some show ?thesis by (simp add: put_key_def)
qed

lemma decode_upload_ok:
  "decode_upload A ms = Ok (k, sch, bs) \<Longrightarrow> bs \<noteq> [] \<and> sch = schema (hd bs) \<and> utf8_valid k"
  by (auto simp: decode_upload_def put_key_valid split: list.splits sum.splits)

lemma request_effect_put:
  "request_effect A r = StorePut k (sch, bs) \<Longrightarrow> bs \<noteq> [] \<and> sch = schema (hd bs) \<and> utf8_valid k"
  by (cases r) (auto dest: decode_upload_ok split: sum.splits if_splits)

lemma serve_inv: "echo_inv st \<Longrightarrow> echo_inv (snd (serve A it r st))"
  using request_effect_put [of r]
  by (auto simp: echo_inv_def serve_state split: store_op.splits)

lemma served_inv: "echo_reachable A it st \<Longrightarrow> echo_inv st"
proof (induction rule: echo_reachable.induct)
  case start
  then show ?case by (simp add: echo_inv_def echo_init_def)
qed (rule serve_inv)

end

locale hash_map_iter =
  fixes it :: hash_iter
  assumes iter_distinct: "finite (dom m) \<Longrightarrow> distinct (map fst (it m))"
    and iter_map_of: "finite (dom m) \<Longrightarrow> map_of (it m) = m"
begin

lemma iter_keys: "finite (dom m) \<Longrightarrow> set (map fst (it m)) = dom m"
  using iter_map_of [of m] dom_map_of_conv_image_fst [of "it m"] by simp

lemma iter_entries: "finite (dom m) \<Longrightarrow> (k, v) \<in> set (it m) \<longleftrightarrow> m k = Some v"
  using iter_map_of [of m] iter_distinct [of m] map_of_eq_Some_iff [of "it m" k v] by simp

end

text \<open>Iteration in key order is one admissible order.\<close>

definition key_order_iter :: hash_iter where
  "key_order_iter m = map (\<lambda>k. (k, the (m k))) (sorted_list_of_set (dom m))"

interpretation key_order: hash_map_iter key_order_iter
proof
  fix m :: "string \<rightharpoonup> dataset"
  assume fin: "finite (dom m)"
  show "distinct (map fst (key_order_iter m))" by (simp add: key_order_iter_def comp_def)
  show "map_of (key_order_iter m) = m"
  proof
    fix k
    have "map_of (key_order_iter m) k = (if k \<in> dom m then Some (the (m k)) else None)"
      using fin by (auto simp: key_order_iter_def map_of_map_keys restrict_map_def)
    then show "map_of (key_order_iter m) k = m k" by (cases "m k") auto
  qed
qed

section \<open>The codec\<close>

text \<open>
  What the encoder and the decoder of \<open>arrow-flight\<close> promise each other.  The encoder always
  starts with a schema message, which carries the descriptor.  A batch that is \<open>transportable\<close>
  (it fits one message and has no dictionary columns, which the encoder would rewrite) arrives
  unchanged when it has the schema the encoder was given.
\<close>

locale flight_codec = flight_messages A for A :: "'m flight_api" +
  fixes transportable :: "RecordBatch \<Rightarrow> bool"
  assumes encode_head: "pred_option (\<lambda>x. list_all utf8_valid (fd_path x)) d \<Longrightarrow>
      \<exists>h rest. fa_encode A sch d bs = Ok h # rest \<and> fa_descriptor A h = d"
    and encode_ok: "list_all (\<lambda>b. schema b = sch \<and> transportable b) bs \<Longrightarrow> list_all is_ok (fa_encode A sch d bs)"
    and decode_encode: "list_all (\<lambda>b. schema b = sch \<and> transportable b) bs \<Longrightarrow>
      fa_decode A (fa_encode A sch d bs) = map Ok bs"
begin

lemma decode_upload_encoded:
  assumes d: "pred_option (\<lambda>x. list_all utf8_valid (fd_path x)) d"
    and bs: "list_all (\<lambda>b. schema b = sch \<and> transportable b) bs" "bs \<noteq> []"
    and ms: "map (map_err FE_Tonic) ms = fa_encode A sch d bs"
  shows "decode_upload A ms =
    Ok (case Option.bind d descriptor_to_key of None \<Rightarrow> from_utf8_lossy ECHO_TICKET | Some k \<Rightarrow> k, sch, bs)"
proof -
  from encode_head [OF d] obtain h rest where h: "fa_encode A sch d bs = Ok h # rest" "fa_descriptor A h = d"
    by blast
  with ms obtain ms' where ms': "ms = Ok h # ms'" by (cases ms) auto
  have "fa_decode A (map (map_err FE_Tonic) (Ok h # ms')) = map Ok bs"
    using decode_encode [OF bs(1), of d] ms ms' by simp
  then show ?thesis using ms' h(2) bs
    by (cases bs) (simp_all add: decode_upload_def put_key_def)
qed

end

subsection \<open>A reference codec\<close>

text \<open>
  Messages that carry the schema and the descriptor, or one batch.  A path segment that is not a
  string has no representation on the wire, so a descriptor with such a segment is not sent.
\<close>

datatype ref_message = RefSchema Schema "FlightDescriptor option" | RefBatch RecordBatch

fun ref_descriptor :: "ref_message \<Rightarrow> FlightDescriptor option" where
  "ref_descriptor (RefSchema sch d) =
     Option.bind d (\<lambda>x. if list_all utf8_valid (fd_path x) then Some x else None)"
| "ref_descriptor (RefBatch b) = None"

fun ref_decode :: "(ref_message, FlightError) result list \<Rightarrow> (RecordBatch, FlightError) result list" where
  "ref_decode [] = []"
| "ref_decode (Err e # ms) = [Err e]"
| "ref_decode (Ok (RefSchema sch d) # ms) = ref_decode ms"
| "ref_decode (Ok (RefBatch b) # ms) = Ok b # ref_decode ms"

definition ref_flight :: "ref_message flight_api" where
  "ref_flight =
     \<lparr>fa_schema_ipc = (\<lambda>sch. Ok (ref_encode (sch, []))),
      fa_encode = (\<lambda>sch d bs. Ok (RefSchema sch d) # map (\<lambda>b. Ok (RefBatch b)) bs),
      fa_decode = ref_decode, fa_descriptor = ref_descriptor,
      fa_status_display = st_message, fa_error_display = (\<lambda>_. ''flight error'')\<rparr>"

lemma ref_decode_batches: "ref_decode (map (\<lambda>b. Ok (RefBatch b)) bs) = map Ok bs"
  by (induction bs) auto

interpretation ref_flight: flight_codec ref_flight "\<lambda>_. True"
proof
  show "list_all utf8_valid (fd_path d)" if "fa_descriptor ref_flight m = Some d" for m d
    using that by (cases m) (auto simp: ref_flight_def Option.bind_eq_Some_conv split: if_splits)
  show "\<exists>h rest. fa_encode ref_flight sch d bs = Ok h # rest \<and> fa_descriptor ref_flight h = d"
    if "pred_option (\<lambda>x. list_all utf8_valid (fd_path x)) d" for sch d bs
    using that by (cases d) (simp_all add: ref_flight_def)
qed (simp_all add: ref_flight_def ref_decode_batches list_all_iff)

section \<open>Listing\<close>

lemma do_get_stored:
  assumes "\<not> poisoned st" "utf8_valid k"
  shows "is_ok (do_get A k st) \<longleftrightarrow> datasets (inner st) k \<noteq> None"
  using assms by (auto simp: do_get_def Let_def from_utf8_lossy_id split: option.splits)

definition listed_tickets :: "hash_iter \<Rightarrow> EchoFlightService \<Rightarrow> bytes list" where
  "listed_tickets it st =
     (case fst (do_action it ''list_tickets'' [] st) of
        Ok rs \<Rightarrow> map projr rs
      | Err _ \<Rightarrow> [])"

lemma listed_tickets_eq: "\<not> poisoned st \<Longrightarrow> listed_tickets it st = map fst (it (datasets (inner st)))"
  by (simp add: listed_tickets_def do_action_def comp_def)

text \<open>
  C12: the listing action is exact.  On every reachable server \<open>list_tickets\<close> returns each ticket
  once, and the tickets it returns are precisely the strings under which \<open>do_get\<close> finds a dataset.
\<close>

theorem list_tickets_exact:
  assumes "flight_messages A" "hash_map_iter it" "echo_reachable A it st"
  shows "distinct (listed_tickets it st) \<and>
    (k \<in> set (listed_tickets it st) \<longleftrightarrow> utf8_valid k \<and> is_ok (do_get A k st))"
proof -
  have inv: "echo_inv st" using assms(1,3) by (rule flight_messages.served_inv)
  then have live: "\<not> poisoned st" and fin: "finite (dom (datasets (inner st)))"
    by (simp_all add: echo_inv_def)
  have "k \<in> set (listed_tickets it st) \<longleftrightarrow> k \<in> dom (datasets (inner st))"
    using live hash_map_iter.iter_keys [OF assms(2) fin] by (simp add: listed_tickets_eq)
  moreover have "k \<in> dom (datasets (inner st)) \<longleftrightarrow> utf8_valid k \<and> is_ok (do_get A k st)"
    using inv do_get_stored [OF live, of k A] by (auto simp: echo_inv_def)
  ultimately show ?thesis
    using live hash_map_iter.iter_distinct [OF assms(2) fin] by (simp add: listed_tickets_eq)
qed

text \<open>A server that holds one uploaded dataset under the ticket \<open>t\<close>.\<close>

definition sample_upload :: "(ref_message, Status) result list" where
  "sample_upload = [Ok (RefSchema (schema sample_batch) (Some \<lparr>fd_type = 2, fd_cmd = ''t'', fd_path = []\<rparr>)),
                    Ok (RefBatch sample_batch)]"

lemma decode_sample_upload:
  "decode_upload ref_flight sample_upload = Ok (''t'', schema sample_batch, [sample_batch])"
proof -
  have "utf8_valid ''t''" by (rule utf8_valid_ascii) auto
  then have "from_utf8_lossy ''t'' = ''t''" by (rule from_utf8_lossy_id)
  then show ?thesis
    by (simp add: decode_upload_def sample_upload_def ref_flight_def put_key_def descriptor_to_key_def)
qed

definition sample_server :: EchoFlightService where
  "sample_server = snd (serve ref_flight key_order_iter (DoPut sample_upload) echo_init)"

lemma sample_server_reachable: "echo_reachable ref_flight key_order_iter sample_server"
  unfolding sample_server_def by (intro echo_reachable.intros)

theorem list_tickets_exact_witness:
  "distinct (listed_tickets key_order_iter sample_server) \<and>
   (''t'' \<in> set (listed_tickets key_order_iter sample_server) \<longleftrightarrow>
      utf8_valid ''t'' \<and> is_ok (do_get ref_flight ''t'' sample_server)) \<and>
   listed_tickets key_order_iter sample_server = [''t'']"
proof -
  have "listed_tickets key_order_iter sample_server = [''t'']"
    using serve_state [of echo_init ref_flight key_order_iter "DoPut sample_upload"]
    by (simp add: listed_tickets_eq sample_server_def decode_sample_upload key_order_iter_def echo_init_def
        del: serve.simps)
  then show ?thesis
    using list_tickets_exact [OF ref_flight.flight_messages_axioms key_order.hash_map_iter_axioms
        sample_server_reachable, of "''t''"] by simp
qed

end
