(* ===== verification/Flight_Handle.thy ===== *)
theory Flight_Handle
  imports Flight_Server
begin

text \<open>
  Starting and stopping a server (\<open>flight.rs\<close>, lines 582 to 774).  The operating system, the
  Tokio runtime and the TLS layer are the parameter record \<open>server_env\<close>; the thread that
  \<open>flight_server_start\<close> spawns reports exactly one message, which is its result here.  Stopping
  is modelled both as the sequential NIF and, because several processes may hold the handle, as
  an interleaving of its two critical sections.
\<close>

section \<open>Starting\<close>

text \<open>
  \<open>se_connect i a\<close> is the outcome of the \<open>i\<close>-th probing connection to the address \<open>a\<close>;
  \<open>se_thread_lost\<close> says that the server thread unwound inside the runtime before it reported.
\<close>

record ('addr, 'l) server_env =
  se_thread_lost :: bool
  se_runtime :: "(unit, string) result"
  se_parse_addr :: "string \<Rightarrow> ('addr, string) result"
  se_bind :: "'addr \<Rightarrow> ('l, string) result"
  se_local_addr :: "'l \<Rightarrow> ('addr, string) result"
  se_port :: "'addr \<Rightarrow> nat"
  se_ip :: "'addr \<Rightarrow> string"
  se_tls_config :: "ServerTlsMode \<Rightarrow> (unit, string) result"
  se_connect :: "nat \<Rightarrow> string \<Rightarrow> bool"

record FlightServerHandle =
  sh_join :: "unit option Mutex"
  sh_host :: string
  sh_port :: nat
  sh_shutdown :: "unit option Mutex"

text \<open>
  The probing loop: at most \<open>n\<close> attempts from attempt \<open>i\<close> on, with a sleep after each failure.
  The result is whether one succeeded and how many sleeps there were.
\<close>

fun probe_loop :: "(nat \<Rightarrow> bool) \<Rightarrow> nat \<Rightarrow> nat \<Rightarrow> bool \<times> nat" where
  "probe_loop conn i 0 = (False, 0)"
| "probe_loop conn i (Suc n) =
     (if conn i then (True, 0)
      else let (ready, sleeps) = probe_loop conn (Suc i) n in (ready, Suc sleeps))"

definition host_port :: "string \<Rightarrow> nat \<Rightarrow> string" where
  "host_port host port = host @ '':'' @ show_nat port"

definition probe_addr :: "string \<Rightarrow> nat \<Rightarrow> string" where
  "probe_addr actual_host actual_port =
     host_port (if actual_host = ''0.0.0.0'' \<or> actual_host = ''::'' then ''127.0.0.1'' else actual_host)
       actual_port"

definition configure_tls :: "('addr, 'l) server_env \<Rightarrow> ServerTlsMode \<Rightarrow> (unit, string) result" where
  "configure_tls E tls_mode =
     (case tls_mode of
        ServerPlaintext \<Rightarrow> Ok ()
      | ServerTls cert_pem key_pem \<Rightarrow> se_tls_config E tls_mode
      | ServerMtls cert_pem key_pem ca_pem \<Rightarrow> se_tls_config E tls_mode)"

definition server_thread ::
  "('addr, 'l) server_env \<Rightarrow> string \<Rightarrow> nat \<Rightarrow> ServerTlsMode \<Rightarrow> (string \<times> nat, string) result option" where
  "server_thread E host port tls_mode =
     (if se_thread_lost E then None else
      Some (case se_runtime E of
        Err e \<Rightarrow> Err e
      | Ok _ \<Rightarrow>
          (case se_parse_addr E (host_port host port) of
             Err e \<Rightarrow> Err e
           | Ok addr \<Rightarrow>
               (case se_bind E addr of
                  Err e \<Rightarrow> Err e
                | Ok listener \<Rightarrow>
                    (let local = (case se_local_addr E listener of Ok a \<Rightarrow> a | Err _ \<Rightarrow> addr);
                         actual_port = se_port E local;
                         actual_host = se_ip E local in
                     case configure_tls E tls_mode of
                       Err e \<Rightarrow> Err e
                     | Ok _ \<Rightarrow>
                         if fst (probe_loop (\<lambda>i. se_connect E i (probe_addr actual_host actual_port)) 0 80)
                         then Ok (actual_host, actual_port)
                         else Err (''server on '' @ host_port actual_host actual_port @
                                   '' did not become ready within 2s''))))))"

definition flight_server_start ::
  "('addr, 'l) server_env \<Rightarrow> string \<Rightarrow> nat \<Rightarrow> beam_term \<Rightarrow> (FlightServerHandle, string) nif_term" where
  "flight_server_start E host port server_tls =
     (case parse_server_tls server_tls of
        Err e \<Rightarrow> err_encode e
      | Ok tls_mode \<Rightarrow>
          (case server_thread E host port tls_mode of
             None \<Rightarrow> err_encode ''server failed to bind''
           | Some (Err msg) \<Rightarrow> err_encode msg
           | Some (Ok (actual_host, actual_port)) \<Rightarrow>
               ok_encode \<lparr>sh_join = mutex_new (Some ()), sh_host = actual_host, sh_port = actual_port,
                          sh_shutdown = mutex_new (Some ())\<rparr>))"

definition flight_server_port :: "FlightServerHandle \<Rightarrow> nat" where
  "flight_server_port h = sh_port h"

definition flight_server_host :: "FlightServerHandle \<Rightarrow> string" where
  "flight_server_host h = sh_host h"

text \<open>The loop stops at the first success, after one sleep per failure before it.\<close>

lemma probe_loop_ready: "fst (probe_loop conn i n) \<longleftrightarrow> (\<exists>j < n. conn (i + j))"
proof (induction n arbitrary: i)
  case (Suc n)
  have "(\<exists>j < Suc n. conn (i + j)) \<longleftrightarrow> conn i \<or> (\<exists>j < n. conn (Suc i + j))"
    unfolding Ex_less_Suc2 by simp
  with Suc [of "Suc i"] show ?case by (simp add: case_prod_beta)
qed simp

lemma probe_loop_sleeps:
  "snd (probe_loop conn i n) = (if \<exists>j < n. conn (i + j) then LEAST j. conn (i + j) else n)"
proof (induction n arbitrary: i)
  case (Suc n)
  show ?case
  proof (cases "conn i")
    case True
    then have "(LEAST j. conn (i + j)) = 0" by (intro Least_eq_0) simp
    with True show ?thesis by auto
  next
    case False
    have ex: "(\<exists>j < Suc n. conn (i + j)) \<longleftrightarrow> (\<exists>j < n. conn (Suc i + j))"
      unfolding Ex_less_Suc2 using False by simp
    have "(LEAST j. conn (i + j)) = Suc (LEAST j. conn (i + Suc j))" if "conn (Suc i + j)" for j
      using that False by (intro Least_Suc [of _ "Suc j"]) simp_all
    then show ?thesis using Suc [of "Suc i"] False ex by (auto simp: case_prod_beta)
  qed
qed simp

text \<open>
  C15: waiting for readiness is bounded.  Once the address is bound and TLS is configured,
  \<open>flight_server_start\<close> returns a handle with the address that was really bound exactly when one
  of the first eighty probing connections succeeds, and the error otherwise; it sleeps once per
  failed attempt before the first success, so at most eighty times (two seconds).
\<close>

theorem server_start_bounded_wait:
  fixes E :: "('addr, 'l) server_env"
  assumes "parse_server_tls tls = Ok mode" "\<not> se_thread_lost E" "se_runtime E = Ok ()"
    "se_parse_addr E (host_port host port) = Ok addr" "se_bind E addr = Ok l"
    "se_local_addr E l = Ok a" "configure_tls E mode = Ok ()"
  defines "conn \<equiv> (\<lambda>i. se_connect E i (probe_addr (se_ip E a) (se_port E a)))"
  shows "(if \<exists>i < 80. conn i
          then \<exists>h. flight_server_start E host port tls = OkTuple h \<and>
            flight_server_host h = se_ip E a \<and> flight_server_port h = se_port E a \<and>
            snd (probe_loop conn 0 80) = (LEAST i. conn i)
          else flight_server_start E host port tls =
              ErrorTuple (''server on '' @ host_port (se_ip E a) (se_port E a) @
                          '' did not become ready within 2s'') \<and>
            snd (probe_loop conn 0 80) = 80) \<and>
    snd (probe_loop conn 0 80) \<le> 80"
proof -
  have start: "flight_server_start E host port tls =
      (if \<exists>i < 80. conn i
       then OkTuple \<lparr>sh_join = mutex_new (Some ()), sh_host = se_ip E a, sh_port = se_port E a,
                    sh_shutdown = mutex_new (Some ())\<rparr>
       else ErrorTuple (''server on '' @ host_port (se_ip E a) (se_port E a) @
                        '' did not become ready within 2s''))"
    using assms by (simp add: flight_server_start_def server_thread_def Let_def probe_loop_ready)
  have sleeps: "snd (probe_loop conn 0 80) = (if \<exists>i < 80. conn i then LEAST i. conn i else 80)"
    using probe_loop_sleeps [of conn 0 80] unfolding add_0 .
  have "(LEAST i. conn i) \<le> i" if "conn i" for i using that by (rule Least_le)
  then have "snd (probe_loop conn 0 80) \<le> 80" unfolding sleeps by (auto intro: order.trans less_imp_le)
  with start sleeps show ?thesis by (simp add: flight_server_host_def flight_server_port_def)
qed

text \<open>An environment in which the server answers the third probe.\<close>

definition sample_env :: "(nat, unit) server_env" where
  "sample_env =
     \<lparr>se_thread_lost = False, se_runtime = Ok (), se_parse_addr = (\<lambda>_. Ok 0), se_bind = (\<lambda>_. Ok ()),
      se_local_addr = (\<lambda>_. Ok 8815), se_port = (\<lambda>a. a), se_ip = (\<lambda>_. ''127.0.0.1''),
      se_tls_config = (\<lambda>_. Ok ()), se_connect = (\<lambda>i _. 2 \<le> i)\<rparr>"

theorem server_start_bounded_wait_witness:
  "\<exists>h. flight_server_start sample_env ''127.0.0.1'' 0 (TAtom ''plaintext'') = OkTuple h \<and>
     flight_server_host h = ''127.0.0.1'' \<and> flight_server_port h = 8815 \<and>
     snd (probe_loop (\<lambda>i. 2 \<le> i) 0 80) = 2"
proof -
  have least: "(LEAST i. 2 \<le> (i :: nat)) = 2" by (rule Least_equality) auto
  have ex: "\<exists>i < 80. 2 \<le> (i :: nat)" by (rule exI [of _ 2]) simp
  show ?thesis
    using server_start_bounded_wait [of "TAtom ''plaintext''" ServerPlaintext sample_env "''127.0.0.1''" 0 0 "()" 8815]
    by (simp add: parse_server_tls_def sample_env_def configure_tls_def ex least)
qed

section \<open>Stopping\<close>

text \<open>
  What a call of \<open>flight_server_stop\<close> does to the server, and its two critical sections: take the
  shutdown sender and signal, then take the join handle and join the thread.
\<close>

datatype stop_action = SendShutdown | JoinThread

definition signal_section :: "FlightServerHandle \<Rightarrow> stop_action list \<times> FlightServerHandle" where
  "signal_section h =
     (case lock (sh_shutdown h) of
        Err _ \<Rightarrow> ([], h)
      | Ok None \<Rightarrow> ([], h)
      | Ok (Some shutdown_tx) \<Rightarrow> ([SendShutdown], h\<lparr>sh_shutdown := (sh_shutdown h)\<lparr>inner := None\<rparr>\<rparr>))"

definition join_section :: "FlightServerHandle \<Rightarrow> stop_action list \<times> FlightServerHandle" where
  "join_section h =
     (case lock (sh_join h) of
        Err _ \<Rightarrow> ([], h)
      | Ok None \<Rightarrow> ([], h)
      | Ok (Some join) \<Rightarrow> ([JoinThread], h\<lparr>sh_join := (sh_join h)\<lparr>inner := None\<rparr>\<rparr>))"

definition flight_server_stop ::
  "FlightServerHandle \<Rightarrow> (unit, string) nif_term \<times> stop_action list \<times> FlightServerHandle" where
  "flight_server_stop h =
     (let (signals, h') = signal_section h; (joins, h'') = join_section h' in
      (AtomOk, signals @ joins, h''))"

text \<open>
  Any number of processes call \<open>flight_server_stop\<close> on one handle; a call is idle, has passed its
  first section, or has returned.
\<close>

datatype stop_pc = StopIdle | StopSignalled | StopReturned

record stop_world =
  sw_handle :: FlightServerHandle
  sw_pc :: "nat \<Rightarrow> stop_pc"
  sw_log :: "stop_action list"

inductive stop_step :: "stop_world \<Rightarrow> stop_world \<Rightarrow> bool" where
  signal: "sw_pc w c = StopIdle \<Longrightarrow> signal_section (sw_handle w) = (acts, h) \<Longrightarrow>
    stop_step w (w\<lparr>sw_handle := h, sw_pc := (sw_pc w)(c := StopSignalled), sw_log := sw_log w @ acts\<rparr>)"
| join: "sw_pc w c = StopSignalled \<Longrightarrow> join_section (sw_handle w) = (acts, h) \<Longrightarrow>
    stop_step w (w\<lparr>sw_handle := h, sw_pc := (sw_pc w)(c := StopReturned), sw_log := sw_log w @ acts\<rparr>)"

inductive_cases stop_stepE: "stop_step w w'"

definition stop_start :: "FlightServerHandle \<Rightarrow> stop_world" where
  "stop_start h = \<lparr>sw_handle = h, sw_pc = (\<lambda>_. StopIdle), sw_log = []\<rparr>"

text \<open>A handle as \<open>flight_server_start\<close> returns it.\<close>

definition handle_fresh :: "FlightServerHandle \<Rightarrow> bool" where
  "handle_fresh h \<longleftrightarrow> sh_join h = mutex_new (Some ()) \<and> sh_shutdown h = mutex_new (Some ())"

lemma start_fresh: "flight_server_start E host port tls = OkTuple h \<Longrightarrow> handle_fresh h"
  by (auto simp: flight_server_start_def handle_fresh_def split: sum.splits option.splits)

definition stop_inv :: "stop_world \<Rightarrow> bool" where
  "stop_inv w \<longleftrightarrow>
     \<not> poisoned (sh_shutdown (sw_handle w)) \<and> \<not> poisoned (sh_join (sw_handle w)) \<and>
     sw_log w = (if inner (sh_shutdown (sw_handle w)) = None then [SendShutdown] else []) @
                (if inner (sh_join (sw_handle w)) = None then [JoinThread] else []) \<and>
     (inner (sh_join (sw_handle w)) = None \<longrightarrow> inner (sh_shutdown (sw_handle w)) = None) \<and>
     (\<forall>c. sw_pc w c \<noteq> StopIdle \<longrightarrow> inner (sh_shutdown (sw_handle w)) = None) \<and>
     (\<forall>c. sw_pc w c = StopReturned \<longrightarrow> inner (sh_join (sw_handle w)) = None)"

lemma stop_inv_start: "handle_fresh h \<Longrightarrow> stop_inv (stop_start h)"
  by (simp add: stop_inv_def stop_start_def handle_fresh_def)

lemma stop_inv_step: "stop_step w w' \<Longrightarrow> stop_inv w \<Longrightarrow> stop_inv w'"
  by (erule stop_stepE)
     (auto simp: stop_inv_def signal_section_def join_section_def lock_def split: option.splits if_splits)

lemma stop_inv_reachable:
  "stop_step\<^sup>*\<^sup>* (stop_start h) w \<Longrightarrow> handle_fresh h \<Longrightarrow> stop_inv w"
  by (induction rule: rtranclp_induct) (auto intro: stop_inv_start stop_inv_step)

text \<open>
  C11: a server is shut down once and joined once.  However many processes stop the same server and
  however their calls interleave, the shutdown signal is sent at most once, the thread is joined at
  most once and never before the signal, and when any of the calls has returned both have happened.
\<close>

theorem server_stopped_once:
  assumes "flight_server_start E host port tls = OkTuple h" "stop_step\<^sup>*\<^sup>* (stop_start h) w"
  shows "sw_log w \<in> {[], [SendShutdown], [SendShutdown, JoinThread]} \<and>
    (sw_pc w c = StopReturned \<longrightarrow> sw_log w = [SendShutdown, JoinThread])"
proof -
  have "stop_inv w" using assms by (auto intro: stop_inv_reachable start_fresh)
  then show ?thesis by (auto simp: stop_inv_def split: if_splits)
qed

lemma stop_sections_fresh:
  "handle_fresh h \<Longrightarrow> signal_section h = ([SendShutdown], h\<lparr>sh_shutdown := mutex_new None\<rparr>)"
  "handle_fresh h \<Longrightarrow> join_section (h\<lparr>sh_shutdown := mutex_new None\<rparr>) =
     ([JoinThread], h\<lparr>sh_shutdown := mutex_new None, sh_join := mutex_new None\<rparr>)"
  by (simp_all add: handle_fresh_def signal_section_def join_section_def lock_def mutex_new_def)

theorem server_stopped_once_witness:
  "\<exists>h w. flight_server_start sample_env ''127.0.0.1'' 0 (TAtom ''plaintext'') = OkTuple h \<and>
     stop_step\<^sup>*\<^sup>* (stop_start h) w \<and> sw_pc w 3 = StopReturned \<and> sw_log w = [SendShutdown, JoinThread]"
proof -
  have ex: "\<exists>i < 80. 2 \<le> (i :: nat)" by (rule exI [of _ 2]) simp
  obtain h where h: "flight_server_start sample_env ''127.0.0.1'' 0 (TAtom ''plaintext'') = OkTuple h"
    using ex by (simp add: flight_server_start_def server_thread_def sample_env_def parse_server_tls_def
        configure_tls_def probe_loop_ready)
  have fresh: "handle_fresh h" using h by (rule start_fresh)
  let ?w1 = "\<lparr>sw_handle = h\<lparr>sh_shutdown := mutex_new None\<rparr>,
      sw_pc = (\<lambda>_. StopIdle)(3 := StopSignalled), sw_log = [SendShutdown]\<rparr>"
  let ?w2 = "\<lparr>sw_handle = h\<lparr>sh_shutdown := mutex_new None, sh_join := mutex_new None\<rparr>,
      sw_pc = (\<lambda>_. StopIdle)(3 := StopReturned), sw_log = [SendShutdown, JoinThread]\<rparr>"
  have "stop_step (stop_start h) ?w1"
    using stop_step.signal [of "stop_start h" 3, OF _ _] stop_sections_fresh(1) [OF fresh]
    by (simp add: stop_start_def)
  moreover have "stop_step ?w1 ?w2"
    using stop_step.join [of ?w1 3, OF _ _] stop_sections_fresh(2) [OF fresh] by simp
  ultimately have reach: "stop_step\<^sup>*\<^sup>* (stop_start h) ?w2" by (rule converse_rtranclp_into_rtranclp [OF _ r_into_rtranclp])
  then show ?thesis using h server_stopped_once [OF h reach, of 3]
    by (intro exI [of _ h] exI [of _ ?w2]) simp
qed

text \<open>A single caller: the first call does both, every further call does nothing and still replies \<open>:ok\<close>.\<close>

lemma server_stop_idempotent:
  assumes "handle_fresh h"
  obtains h' where "flight_server_stop h = (AtomOk, [SendShutdown, JoinThread], h')"
    "flight_server_stop h' = (AtomOk, [], h')"
  using assms that
  by (simp add: flight_server_stop_def stop_sections_fresh)
     (simp add: flight_server_stop_def signal_section_def join_section_def lock_def)

end
