(* ===== verification/Flight_Client.thy ===== *)
theory Flight_Client
  imports Flight_Handle
begin

text \<open>
  The Flight client NIFs (\<open>flight.rs\<close>, lines 808 to 1247).  The gRPC transport and the
  \<open>FlightClient\<close> of the \<open>arrow-flight\<close> crate are parameters: \<open>transport\<close> for the connection and
  \<open>client_api\<close> for the RPCs, which take and return the state of the world at the other end.  A
  streaming response is the list of items it yields until it ends.  The locale \<open>flight_channel\<close>
  says that the other end is the server of \<open>Flight_Server\<close>.
\<close>

section \<open>Connecting\<close>

datatype ClientTlsConfig = NativeRoots | CaCertificate bytes

record ('ep, 'c) transport =
  tr_from_shared :: "string \<Rightarrow> ('ep, string) result"
  tr_connect_timeout :: "nat \<Rightarrow> 'ep \<Rightarrow> 'ep"
  tr_tls_config :: "ClientTlsConfig \<Rightarrow> 'ep \<Rightarrow> ('ep, string) result"
  tr_connect :: "'ep \<Rightarrow> ('c, string) result"

record 'c FlightClientHandle =
  fc_client :: "'c Mutex"

definition tls_scheme :: "TlsMode \<Rightarrow> string \<times> ClientTlsConfig option" where
  "tls_scheme mode =
     (case mode of
        Plaintext \<Rightarrow> (''http'', None)
      | SystemCerts \<Rightarrow> (''https'', Some NativeRoots)
      | CustomCa pem \<Rightarrow> (''https'', Some (CaCertificate pem)))"

definition flight_client_connect ::
  "('ep, 'c) transport \<Rightarrow> string \<Rightarrow> nat \<Rightarrow> nat \<Rightarrow> beam_term \<Rightarrow> ('c FlightClientHandle, string) nif_term" where
  "flight_client_connect T host port connect_timeout_ms tls_mode =
     (case parse_tls_mode tls_mode of
        Err e \<Rightarrow> err_encode e
      | Ok mode \<Rightarrow>
          (let (scheme, tls_cfg) = tls_scheme mode in
           case tr_from_shared T (scheme @ ''://'' @ host_port host port) of
             Err e \<Rightarrow> err_encode e
           | Ok endpoint0 \<Rightarrow>
               (let endpoint1 = (if connect_timeout_ms > 0
                                 then tr_connect_timeout T connect_timeout_ms endpoint0 else endpoint0) in
                case (case tls_cfg of Some cfg \<Rightarrow> tr_tls_config T cfg endpoint1 | None \<Rightarrow> Ok endpoint1) of
                  Err e \<Rightarrow> err_encode e
                | Ok endpoint \<Rightarrow>
                    (case tr_connect T endpoint of
                       Err e \<Rightarrow> err_encode e
                     | Ok client \<Rightarrow> ok_encode \<lparr>fc_client = mutex_new client\<rparr>))))"

section \<open>Calls\<close>

record ('c, 'm, 'n) client_api =
  cl_do_put :: "'c \<Rightarrow> ('m, FlightError) result list \<Rightarrow> 'n \<Rightarrow>
    ((bytes, FlightError) result list, FlightError) result \<times> 'n"
  cl_do_get :: "'c \<Rightarrow> bytes \<Rightarrow> 'n \<Rightarrow> ((RecordBatch, FlightError) result list, FlightError) result \<times> 'n"
  cl_list_flights :: "'c \<Rightarrow> bytes \<Rightarrow> 'n \<Rightarrow> ((FlightInfo, FlightError) result list, FlightError) result \<times> 'n"
  cl_get_flight_info :: "'c \<Rightarrow> FlightDescriptor \<Rightarrow> 'n \<Rightarrow> (FlightInfo, FlightError) result \<times> 'n"
  cl_get_schema :: "'c \<Rightarrow> FlightDescriptor \<Rightarrow> 'n \<Rightarrow> (Schema, FlightError) result \<times> 'n"
  cl_list_actions :: "'c \<Rightarrow> 'n \<Rightarrow> ((string \<times> string, FlightError) result list, FlightError) result \<times> 'n"
  cl_do_action :: "'c \<Rightarrow> string \<Rightarrow> bytes \<Rightarrow> 'n \<Rightarrow> ((bytes, FlightError) result list, FlightError) result \<times> 'n"
  cl_timer :: "nat \<Rightarrow> 'n \<Rightarrow> 'n option"
  cl_display :: "FlightError \<Rightarrow> string"

text \<open>
  \<open>tokio::time::timeout\<close>: \<open>cl_timer\<close> is \<open>None\<close> when the future finishes within the limit, and
  otherwise gives the world in which it was abandoned.  A limit of zero means no timer at all.
\<close>

definition run_limited ::
  "('c, 'm, 'n) client_api \<Rightarrow> nat \<Rightarrow> string \<Rightarrow> ('n \<Rightarrow> ('a, string) result \<times> 'n) \<Rightarrow> 'n \<Rightarrow> ('a, string) result \<times> 'n" where
  "run_limited C timeout_ms rpc fut n =
     (if timeout_ms > 0 then
        (case cl_timer C timeout_ms n of
           None \<Rightarrow> fut n
         | Some n' \<Rightarrow> (Err (rpc @ '': request timed out''), n'))
      else fut n)"

text \<open>The future that starts a streaming call and collects its items.\<close>

definition collect_fut ::
  "('c, 'm, 'n) client_api \<Rightarrow> ('n \<Rightarrow> (('a, FlightError) result list, FlightError) result \<times> 'n) \<Rightarrow> 'n \<Rightarrow>
   ('a list, string) result \<times> 'n" where
  "collect_fut C call n =
     (case call n of
        (Err e, n') \<Rightarrow> (Err (cl_display C e), n')
      | (Ok stream, n') \<Rightarrow> (map_err (cl_display C) (collect (\<lambda>x. x) stream), n'))"

definition unary_fut ::
  "('c, 'm, 'n) client_api \<Rightarrow> ('n \<Rightarrow> ('a, FlightError) result \<times> 'n) \<Rightarrow> 'n \<Rightarrow> ('a, string) result \<times> 'n" where
  "unary_fut C call n = map_prod (map_err (cl_display C)) id (call n)"

subsection \<open>Uploading\<close>

definition put_descriptor :: "beam_term \<Rightarrow> (FlightDescriptor option, string) result" where
  "put_descriptor descriptor =
     (if decode_atom descriptor \<noteq> Some ''none'' then
        (case decode_descriptor descriptor of Ok d \<Rightarrow> Ok (Some d) | Err e \<Rightarrow> Err e)
      else Ok None)"

definition flight_client_do_put ::
  "('c, 'm, 'n) client_api \<Rightarrow> 'm flight_api \<Rightarrow> 'c FlightClientHandle \<Rightarrow> Schema \<Rightarrow> RecordBatch list \<Rightarrow> beam_term \<Rightarrow> 'n \<Rightarrow>
   (unit, string) nif_term \<times> 'n" where
  "flight_client_do_put C A client sch batches descriptor n =
     (case put_descriptor descriptor of
        Err e \<Rightarrow> (err_encode e, n)
      | Ok d \<Rightarrow>
          (let flight_data = fa_encode A sch d batches in
           case lock (fc_client client) of
             Err _ \<Rightarrow> (err_encode ''client lock'', n)
           | Ok guard \<Rightarrow>
               (case cl_do_put C guard flight_data n of
                  (Ok result_stream, n') \<Rightarrow> (AtomOk, n')
                | (Err e, n') \<Rightarrow> (err_encode (cl_display C e), n'))))"

subsection \<open>Downloading\<close>

text \<open>The loop that moves each received batch into the IPC buffer.\<close>

fun receive_loop ::
  "'w writer_api \<Rightarrow> (FlightError \<Rightarrow> string) \<Rightarrow> 'w \<Rightarrow> (RecordBatch, FlightError) result list \<Rightarrow> ('w, string) result" where
  "receive_loop W disp writer [] = Ok writer"
| "receive_loop W disp writer (Ok batch # rest) =
     (case wr_write W writer batch of Err e \<Rightarrow> Err e | Ok writer' \<Rightarrow> receive_loop W disp writer' rest)"
| "receive_loop W disp writer (Err e # rest) = Err (disp e)"

definition buffer_stream ::
  "'w writer_api \<Rightarrow> (FlightError \<Rightarrow> string) \<Rightarrow> (RecordBatch, FlightError) result list \<Rightarrow> (bytes, string) result" where
  "buffer_stream W disp flight_stream =
     (case flight_stream of
        [] \<Rightarrow> Err ''do_get: server returned empty batch stream (internal invariant violated: do_put should have rejected this)''
      | Err e # _ \<Rightarrow> Err (disp e)
      | Ok first_batch # rest \<Rightarrow>
          (case wr_try_new W (schema first_batch) of
             Err e \<Rightarrow> Err e
           | Ok writer0 \<Rightarrow>
               (case wr_write W writer0 first_batch of
                  Err e \<Rightarrow> Err e
                | Ok writer1 \<Rightarrow>
                    (case receive_loop W disp writer1 rest of
                       Err e \<Rightarrow> Err e
                     | Ok writer2 \<Rightarrow> wr_finish W writer2))))"

definition flight_client_do_get ::
  "('c, 'm, 'n) client_api \<Rightarrow> 'w writer_api \<Rightarrow> (bytes \<Rightarrow> ('b, string) result) \<Rightarrow> 'c FlightClientHandle \<Rightarrow> bytes \<Rightarrow> 'n \<Rightarrow>
   (('b, 'f) ExArrowIpcStream, string) nif_term \<times> 'n" where
  "flight_client_do_get C W try_new client ticket_bytes n =
     (case lock (fc_client client) of
        Err _ \<Rightarrow> (err_encode ''client lock'', n)
      | Ok guard \<Rightarrow>
          (case cl_do_get C guard ticket_bytes n of
             (Err e, n') \<Rightarrow> (err_encode (cl_display C e), n')
           | (Ok flight_stream, n') \<Rightarrow>
               ((case buffer_stream W (cl_display C) flight_stream of
                   Err e \<Rightarrow> err_encode e
                 | Ok buf \<Rightarrow>
                     (case try_new buf of
                        Err e \<Rightarrow> err_encode e
                      | Ok reader \<Rightarrow> ok_encode \<lparr>is_reader = StreamBinary (mutex_new reader)\<rparr>)),
                n')))"

subsection \<open>Metadata and actions\<close>

definition client_lock :: "'c FlightClientHandle \<Rightarrow> ('c, string) result" where
  "client_lock client = map_err (\<lambda>_. ''client lock poisoned'') (lock (fc_client client))"

definition flight_client_list_flights ::
  "('c, 'm, 'n) client_api \<Rightarrow> (nat \<Rightarrow> bool) \<Rightarrow> 'c FlightClientHandle \<Rightarrow> bytes \<Rightarrow> nat \<Rightarrow> 'n \<Rightarrow>
   (beam_term, string) nif_term \<times> 'n" where
  "flight_client_list_flights C alloc client criteria timeout_ms n =
     (case client_lock client of
        Err e \<Rightarrow> (err_encode e, n)
      | Ok guard \<Rightarrow>
          (case run_limited C timeout_ms ''list_flights'' (collect_fut C (cl_list_flights C guard criteria)) n of
             (Err e, n') \<Rightarrow> (err_encode e, n')
           | (Ok flights, n') \<Rightarrow>
               ((case collect_option (encode_flight_info alloc) flights of
                   Some t \<Rightarrow> ok_encode (TList t)
                 | None \<Rightarrow> err_encode ''binary allocation failed while encoding FlightInfo''), n')))"

definition flight_client_get_flight_info ::
  "('c, 'm, 'n) client_api \<Rightarrow> (nat \<Rightarrow> bool) \<Rightarrow> 'c FlightClientHandle \<Rightarrow> beam_term \<Rightarrow> nat \<Rightarrow> 'n \<Rightarrow>
   (beam_term, string) nif_term \<times> 'n" where
  "flight_client_get_flight_info C alloc client descriptor timeout_ms n =
     (case decode_descriptor descriptor of
        Err msg \<Rightarrow> (err_encode msg, n)
      | Ok flight_desc \<Rightarrow>
          (case client_lock client of
             Err e \<Rightarrow> (err_encode e, n)
           | Ok guard \<Rightarrow>
               (case run_limited C timeout_ms ''get_flight_info'' (unary_fut C (cl_get_flight_info C guard flight_desc)) n of
                  (Err e, n') \<Rightarrow> (err_encode e, n')
                | (Ok info, n') \<Rightarrow>
                    ((case encode_flight_info alloc info of
                        Some t \<Rightarrow> ok_encode t
                      | None \<Rightarrow> err_encode ''binary allocation failed while encoding FlightInfo''), n'))))"

definition flight_client_get_schema ::
  "('c, 'm, 'n) client_api \<Rightarrow> 'c FlightClientHandle \<Rightarrow> beam_term \<Rightarrow> nat \<Rightarrow> 'n \<Rightarrow> (Schema, string) nif_term \<times> 'n" where
  "flight_client_get_schema C client descriptor timeout_ms n =
     (case decode_descriptor descriptor of
        Err msg \<Rightarrow> (err_encode msg, n)
      | Ok flight_desc \<Rightarrow>
          (case client_lock client of
             Err e \<Rightarrow> (err_encode e, n)
           | Ok guard \<Rightarrow>
               (case run_limited C timeout_ms ''get_schema'' (unary_fut C (cl_get_schema C guard flight_desc)) n of
                  (Err e, n') \<Rightarrow> (err_encode e, n')
                | (Ok schema_ref, n') \<Rightarrow> (ok_encode schema_ref, n'))))"

definition flight_client_list_actions ::
  "('c, 'm, 'n) client_api \<Rightarrow> 'c FlightClientHandle \<Rightarrow> nat \<Rightarrow> 'n \<Rightarrow> (beam_term, string) nif_term \<times> 'n" where
  "flight_client_list_actions C client timeout_ms n =
     (case client_lock client of
        Err e \<Rightarrow> (err_encode e, n)
      | Ok guard \<Rightarrow>
          (case run_limited C timeout_ms ''list_actions'' (collect_fut C (cl_list_actions C guard)) n of
             (Err e, n') \<Rightarrow> (err_encode e, n')
           | (Ok action_types, n') \<Rightarrow>
               (ok_encode (TList (map (\<lambda>(ty, descr). TTuple [TBinary ty, TBinary descr]) action_types)), n')))"

definition flight_client_do_action ::
  "('c, 'm, 'n) client_api \<Rightarrow> (nat \<Rightarrow> bool) \<Rightarrow> 'c FlightClientHandle \<Rightarrow> string \<Rightarrow> bytes \<Rightarrow> nat \<Rightarrow> 'n \<Rightarrow>
   (beam_term, string) nif_term \<times> 'n" where
  "flight_client_do_action C alloc client action_type action_body timeout_ms n =
     (case client_lock client of
        Err e \<Rightarrow> (err_encode e, n)
      | Ok guard \<Rightarrow>
          (case run_limited C timeout_ms ''do_action'' (collect_fut C (cl_do_action C guard action_type action_body)) n of
             (Err e, n') \<Rightarrow> (err_encode e, n')
           | (Ok results, n') \<Rightarrow>
               ((case collect_option (try_encode_binary alloc) results of
                   Some t \<Rightarrow> ok_encode (TList t)
                 | None \<Rightarrow> err_encode ''binary allocation failed while encoding action results''), n')))"

section \<open>The client and the server together\<close>

text \<open>How a server's answer reaches the client.\<close>

fun client_stream :: "(('a, Status) result list, Status) result \<Rightarrow> (('a, FlightError) result list, FlightError) result" where
  "client_stream (Err s) = Err (FE_Tonic s)"
| "client_stream (Ok xs) = Ok (map (map_err FE_Tonic) xs)"

text \<open>
  A connected client: a call runs the server's handler on the messages the client sent, and
  \<open>do_get\<close> decodes the messages the server sent.
\<close>

locale flight_channel =
  fixes C :: "('c, 'm, EchoFlightService) client_api"
    and A :: "'m flight_api"
    and it :: hash_iter
    and schema_dec :: "bytes \<Rightarrow> (Schema, FlightError) result"
  assumes put_rpc: "cl_do_put C c (map Ok ms) srv =
      map_prod client_stream id (do_put A (map Ok ms) srv)"
    and get_rpc: "cl_do_get C c t srv =
      (case do_get A t srv of
         Err s \<Rightarrow> Err (FE_Tonic s)
       | Ok ms \<Rightarrow> Ok (fa_decode A (map (map_err FE_Tonic) ms)), srv)"
    and action_rpc: "cl_do_action C c ty body srv = map_prod client_stream id (do_action it ty body srv)"
    and info_rpc: "cl_get_flight_info C c d srv = (map_err FE_Tonic (get_flight_info A d srv), srv)"
    and schema_rpc: "cl_get_schema C c d srv =
      (case get_schema A d srv of Err s \<Rightarrow> Err (FE_Tonic s) | Ok bytes \<Rightarrow> schema_dec bytes, srv)"
    and schema_decode: "fa_schema_ipc A sch = Ok bytes \<Longrightarrow> schema_dec bytes = Ok sch"

text \<open>The key under which the server stores an upload, and the requests that leave a key alone.\<close>

definition upload_key :: "FlightDescriptor option \<Rightarrow> string" where
  "upload_key d = (case Option.bind d descriptor_to_key of None \<Rightarrow> from_utf8_lossy ECHO_TICKET | Some k \<Rightarrow> k)"

definition leaves_key :: "'m flight_api \<Rightarrow> string \<Rightarrow> 'm request \<Rightarrow> bool" where
  "leaves_key A k r \<longleftrightarrow> (case request_effect A r of StorePut k' _ \<Rightarrow> k' \<noteq> k | StoreClear \<Rightarrow> False | StoreKeep \<Rightarrow> True)"

lemma put_descriptor_valid:
  "put_descriptor t = Ok d \<Longrightarrow> pred_option (\<lambda>x. list_all utf8_valid (fd_path x)) d"
  by (auto simp: put_descriptor_def split: if_splits sum.splits elim!: decode_descriptor_OkD)

lemma put_descriptor_key_valid: "put_descriptor t = Ok d \<Longrightarrow> utf8_valid (upload_key d)"
  by (auto simp: put_descriptor_def upload_key_def from_utf8_lossy_valid
      split: if_splits sum.splits option.splits intro: descriptor_to_key_valid decode_descriptor_wf)

lemma run_requests_leave_key:
  "\<not> poisoned srv \<Longrightarrow> list_all (leaves_key A k) reqs \<Longrightarrow>
   datasets (inner (run_requests A it reqs srv)) k = datasets (inner srv) k \<and>
   \<not> poisoned (run_requests A it reqs srv)"
proof (induction reqs arbitrary: srv)
  case Nil
  then show ?case by (simp add: run_requests_def)
next
  case (Cons r reqs)
  have "datasets (inner (snd (serve A it r srv))) k = datasets (inner srv) k"
    using Cons.prems by (auto simp: serve_state leaves_key_def split: store_op.splits)
  moreover have "\<not> poisoned (snd (serve A it r srv))" using Cons.prems(1) by (rule echo.live_exec)
  ultimately show ?case using Cons by (simp add: run_requests_def)
qed

lemma receive_loop_ok: "receive_loop W disp w (map Ok bs) = foldM_result (wr_write W) w bs"
  by (induction bs arbitrary: w) (auto split: sum.splits)

lemma buffer_stream_ok:
  assumes "bs \<noteq> []" "schema (hd bs) = sch" "write_batches W sch bs = Ok buf"
  shows "buffer_stream W disp (map Ok bs) = Ok buf"
  using assms
  by (cases bs) (auto simp: buffer_stream_def write_batches_def receive_loop_ok split: sum.splits)

lemma all_ok_map: "list_all is_ok xs \<Longrightarrow> xs = map Ok (map projr xs)"
  by (induction xs) (auto simp: is_ok_def split: sum.splits)

locale flight_link = flight_channel C A it schema_dec + flight_codec A transportable
  for C :: "('c, 'm, EchoFlightService) client_api" and A :: "'m flight_api" and it schema_dec transportable
begin

abbreviation batches_ok :: "Schema \<Rightarrow> RecordBatch list \<Rightarrow> bool" where
  "batches_ok sch bs \<equiv> list_all (\<lambda>b. schema b = sch \<and> transportable b) bs"

lemma encoded_messages:
  assumes "batches_ok sch bs"
  obtains ms where "fa_encode A sch d bs = map Ok ms"
  using all_ok_map [OF encode_ok [OF assms, of d]] by blast

lemma client_put:
  assumes "\<not> poisoned (fc_client h)" "\<not> poisoned srv" "put_descriptor t = Ok d"
    "batches_ok sch bs" "bs \<noteq> []"
  shows "flight_client_do_put C A h sch bs t srv =
    (AtomOk, srv\<lparr>inner := (inner srv)\<lparr>datasets := (datasets (inner srv))(upload_key d \<mapsto> (sch, bs))\<rparr>\<rparr>)"
proof -
  obtain ms where ms: "fa_encode A sch d bs = map Ok ms" using encoded_messages [OF assms(4)] .
  have "decode_upload A (map Ok ms) = Ok (upload_key d, sch, bs)"
    using decode_upload_encoded [OF put_descriptor_valid [OF assms(3)] assms(4,5), of "map Ok ms"] ms
    by (simp add: comp_def upload_key_def)
  then show ?thesis using assms ms
    by (simp add: flight_client_do_put_def put_rpc lock_def do_put_def)
qed

lemma client_put_empty:
  assumes "\<not> poisoned (fc_client h)" "put_descriptor t = Ok d"
  shows "flight_client_do_put C A h sch [] t srv =
    (ErrorTuple (cl_display C (FE_Tonic (status InvalidArgument
       ''do_put rejected: stream contained no record batches''))), srv)"
proof -
  obtain ms where ms: "fa_encode A sch d [] = map Ok ms" using encoded_messages [of sch "[]" d] by auto
  obtain m rest where m: "ms = m # rest"
    using encode_head [OF put_descriptor_valid [OF assms(2)], of sch "[]"] ms by auto
  have "fa_decode A (map Ok ms) = []" using decode_encode [of sch "[]" d] ms by simp
  then have "decode_upload A (map Ok ms) =
      Err (status InvalidArgument ''do_put rejected: stream contained no record batches'')"
    using m by (simp add: decode_upload_def comp_def)
  then show ?thesis using assms ms
    by (simp add: flight_client_do_put_def put_rpc lock_def do_put_def)
qed

lemma client_get:
  assumes "\<not> poisoned (fc_client h)" "\<not> poisoned srv"
    "datasets (inner srv) (from_utf8_lossy t) = Some (sch, bs)" "batches_ok sch bs" "bs \<noteq> []"
    "write_batches W sch bs = Ok buf" "try_new buf = Ok r"
  shows "flight_client_do_get C W try_new h t srv = (OkTuple \<lparr>is_reader = StreamBinary (mutex_new r)\<rparr>, srv)"
proof -
  obtain ms where ms: "fa_encode A sch None bs = map Ok ms" using encoded_messages [OF assms(4)] .
  have "do_get A t srv = Ok (map Ok ms)" using assms(2,3) ms by (simp add: do_get_def Let_def comp_def)
  then have "cl_do_get C c t srv = (Ok (map Ok bs), srv)" for c
    using decode_encode [OF assms(4), of None] ms by (simp add: get_rpc comp_def)
  moreover have "buffer_stream W disp (map Ok bs) = Ok buf" for disp
    using assms(4-6) by (intro buffer_stream_ok) (auto simp: neq_Nil_conv)
  ultimately show ?thesis using assms(1,7) by (simp add: flight_client_do_get_def lock_def)
qed

end

text \<open>The direct channel: no network between the client and the handlers.\<close>

definition direct_client ::
  "'m flight_api \<Rightarrow> hash_iter \<Rightarrow> (bytes \<Rightarrow> (Schema, FlightError) result) \<Rightarrow> (unit, 'm, EchoFlightService) client_api" where
  "direct_client A it schema_dec =
     \<lparr>cl_do_put = (\<lambda>c ms srv. map_prod client_stream id (do_put A (map Ok (map projr (filter is_ok ms))) srv)),
      cl_do_get = (\<lambda>c t srv.
        (case do_get A t srv of
           Err s \<Rightarrow> Err (FE_Tonic s)
         | Ok ms \<Rightarrow> Ok (fa_decode A (map (map_err FE_Tonic) ms)), srv)),
      cl_list_flights = (\<lambda>c crit srv. (client_stream (list_flights A it srv), srv)),
      cl_get_flight_info = (\<lambda>c d srv. (map_err FE_Tonic (get_flight_info A d srv), srv)),
      cl_get_schema = (\<lambda>c d srv.
        (case get_schema A d srv of Err s \<Rightarrow> Err (FE_Tonic s) | Ok bytes \<Rightarrow> schema_dec bytes, srv)),
      cl_list_actions = (\<lambda>c srv. (client_stream list_actions, srv)),
      cl_do_action = (\<lambda>c ty body srv. map_prod client_stream id (do_action it ty body srv)),
      cl_timer = (\<lambda>_ _. None), cl_display = (\<lambda>_. ''flight error'')\<rparr>"

definition ref_schema_dec :: "bytes \<Rightarrow> (Schema, FlightError) result" where
  "ref_schema_dec bytes =
     (case ref_try_read bytes of Ok (sch, _) \<Rightarrow> Ok sch | Err e \<Rightarrow> Err (FE_DecodeError e))"

interpretation direct: flight_link "direct_client ref_flight it ref_schema_dec" ref_flight it ref_schema_dec "\<lambda>_. True"
  for it
proof unfold_locales
  have "filter is_ok (map Ok ms) = map Ok ms" for ms :: "ref_message list"
    by (induction ms) auto
  then show "cl_do_put (direct_client ref_flight it ref_schema_dec) c (map Ok ms) srv =
      map_prod client_stream id (do_put ref_flight (map Ok ms) srv)" for c ms srv
    by (simp add: direct_client_def comp_def)
  show "ref_schema_dec bytes = Ok sch" if "fa_schema_ipc ref_flight sch = Ok bytes" for sch bytes
    using that by (auto simp: ref_flight_def ref_schema_dec_def ref_try_read_def ref_encode_inj dest: injD [OF ref_encode_inj])
qed (simp_all add: direct_client_def)

text \<open>
  C4: what a client uploads, a client downloads.  Against the server, \<open>flight_client_do_put\<close> with
  batches that fit the wire format replies \<open>:ok\<close>; after any further requests that neither upload
  under the same key nor clear the store, \<open>flight_client_do_get\<close> with that key returns a stream
  with the uploaded schema that yields the uploaded batches in order and then \<open>:done\<close>.
\<close>

theorem flight_put_get_roundtrip:
  assumes "flight_link C A it schema_dec transportable" "ipc_codec RB cb RF cf W written try_new"
    "\<not> poisoned (fc_client h)" "\<not> poisoned srv" "put_descriptor t = Ok d"
    "list_all (\<lambda>b. schema b = sch \<and> transportable b) bs" "bs \<noteq> []"
    "is_ok (write_batches W sch bs)" "list_all (leaves_key A (upload_key d)) reqs"
  shows "fst (flight_client_do_put C A h sch bs t srv) = AtomOk \<and>
    (\<exists>strm. fst (flight_client_do_get C W try_new h (upload_key d)
               (run_requests A it reqs (snd (flight_client_do_put C A h sch bs t srv)))) = OkTuple strm \<and>
       ipc_stream_schema RB RF strm = Untagged sch \<and>
       fst (poll (ipc_stream_next RB RF) (length bs + 1) strm) = map OkTuple bs @ [AtomDone])"
proof -
  note put = flight_link.client_put [OF assms(1,3,4,5,6,7)]
  let ?srv = "run_requests A it reqs (snd (flight_client_do_put C A h sch bs t srv))"
  have key: "from_utf8_lossy (upload_key d) = upload_key d"
    using put_descriptor_key_valid [OF assms(5)] by (rule from_utf8_lossy_id)
  have srv: "datasets (inner ?srv) (from_utf8_lossy (upload_key d)) = Some (sch, bs)" "\<not> poisoned ?srv"
    using run_requests_leave_key [OF _ assms(9), of "snd (flight_client_do_put C A h sch bs t srv)" it] assms(4)
    by (simp_all add: put key)
  from assms(8) obtain buf where buf: "write_batches W sch bs = Ok buf"
    by (cases "write_batches W sch bs") auto
  obtain r where r: "try_new buf = Ok r" "rd_schema RB r = sch" "cb r = map Ok bs"
    using ipc_codec.write_then_read [OF assms(2) buf] .
  note get = flight_link.client_get [OF assms(1,3) srv(2,1) assms(6,7) buf, of try_new r, OF r(1)]
  note polled = ipc_codec.stream_of_reader [OF assms(2) r(2,3)]
  show ?thesis using polled
    by (intro conjI exI [of _ "\<lparr>is_reader = StreamBinary (mutex_new r)\<rparr>"]) (simp_all add: get, simp add: put)
qed

abbreviation sample_link :: "(unit, ref_message, EchoFlightService) client_api" where
  "sample_link \<equiv> direct_client ref_flight key_order_iter ref_schema_dec"

abbreviation sample_client :: "unit FlightClientHandle" where
  "sample_client \<equiv> \<lparr>fc_client = mutex_new ()\<rparr>"

abbreviation sample_term :: beam_term where
  "sample_term \<equiv> TTuple [TAtom ''cmd'', TBinary ''t'']"

abbreviation sample_desc :: FlightDescriptor where
  "sample_desc \<equiv> \<lparr>fd_type = 2, fd_cmd = ''t'', fd_path = []\<rparr>"

lemma sample_desc_decodes: "put_descriptor sample_term = Ok (Some sample_desc)"
  by (simp add: put_descriptor_def decode_descriptor_cmd)

lemma sample_upload_key: "upload_key (Some sample_desc) = ''t''"
proof -
  have "utf8_valid ''t''" by (rule utf8_valid_ascii) auto
  then show ?thesis by (simp add: upload_key_def descriptor_to_key_def from_utf8_lossy_id)
qed

theorem flight_put_get_roundtrip_witness:
  "\<exists>strm. fst (flight_client_do_get sample_link ref_writer ref_try_read sample_client ''t''
        (run_requests ref_flight key_order_iter [DoAction ''ping'' []]
           (snd (flight_client_do_put sample_link ref_flight sample_client (schema sample_batch) [sample_batch]
              sample_term echo_init)))) = OkTuple strm \<and>
     fst (poll (ipc_stream_next ref_reader ref_reader) (length [sample_batch] + 1) strm) =
       [OkTuple sample_batch, AtomDone]"
proof -
  have "is_ok (write_batches ref_writer (schema sample_batch) [sample_batch])"
    by (simp add: write_batches_def ref_writer_def)
  moreover have "list_all (leaves_key ref_flight (upload_key (Some sample_desc))) [DoAction ''ping'' []]"
    by (simp add: leaves_key_def)
  ultimately show ?thesis
    using flight_put_get_roundtrip [OF direct.flight_link_axioms ref_codec.ipc_codec_axioms _ echo_init_live
        sample_desc_decodes, of sample_client "schema sample_batch" "[sample_batch]" "[DoAction ''ping'' []]"]
    unfolding sample_upload_key by auto
qed

text \<open>
  C17: the metadata calls describe the upload.  After an upload with a descriptor, asking for the
  flight info of that descriptor returns the schema message, the very descriptor term, one endpoint
  whose ticket is the storage key, the total number of rows (when it fits 63 bits) and an unknown
  byte count; asking for the schema returns the uploaded schema.
\<close>

theorem flight_metadata_after_put:
  assumes "flight_link C A it schema_dec transportable" "\<not> poisoned (fc_client h)" "\<not> poisoned srv"
    "decode_descriptor t = Ok d" "list_all (\<lambda>b. schema b = sch \<and> transportable b) bs" "bs \<noteq> []"
    "fa_schema_ipc A sch = Ok schema_bytes" "sum_list (map num_rows bs) < 9223372036854775808"
  shows "fst (flight_client_get_flight_info C (\<lambda>_. True) h t 0 (snd (flight_client_do_put C A h sch bs t srv))) =
      OkTuple (TTuple [TBinary schema_bytes, t, TList [TTuple [TBinary (upload_key (Some d)), TList []]],
                       TInt (int (sum_list (map num_rows bs))), TInt (- 1)]) \<and>
    fst (flight_client_get_schema C h t 0 (snd (flight_client_do_put C A h sch bs t srv))) = OkTuple sch"
proof -
  have desc: "put_descriptor t = Ok (Some d)"
    using assms(4) by (auto simp: put_descriptor_def elim: decode_descriptor_OkD)
  note put = flight_link.client_put [OF assms(1-3) desc assms(5,6)]
  have "flight_channel C A it schema_dec" using assms(1) by (rule flight_link.axioms(1))
  note rpc = flight_channel.info_rpc [OF this] flight_channel.schema_rpc [OF this]
    flight_channel.schema_decode [OF this assms(7)]
  have "descriptor_to_key d = Some (upload_key (Some d))"
    using assms(4) by (auto simp: upload_key_def descriptor_to_key_def elim: decode_descriptor_OkD)
  with assms put rpc decode_descriptor_encode [OF assms(4)] show ?thesis
    by (simp add: flight_client_get_flight_info_def flight_client_get_schema_def client_lock_def lock_def
        run_limited_def unary_fut_def get_flight_info_def get_schema_def flight_info_of_def schema_ipc_bytes_def
        encode_flight_info_def try_encode_binary_def collect_option_def encode_endpoint_def total_rows_exact)
qed

theorem flight_metadata_after_put_witness:
  "fst (flight_client_get_schema sample_link sample_client sample_term 0
     (snd (flight_client_do_put sample_link ref_flight sample_client (schema sample_batch) [sample_batch]
        sample_term echo_init))) = OkTuple (schema sample_batch)"
proof -
  have "fa_schema_ipc ref_flight (schema sample_batch) = Ok (ref_encode (schema sample_batch, []))"
    by (simp add: ref_flight_def)
  moreover have "sum_list (map num_rows [sample_batch]) < 9223372036854775808" by (simp add: sample_batch_def)
  ultimately show ?thesis
    using flight_metadata_after_put [OF direct.flight_link_axioms _ echo_init_live decode_descriptor_cmd,
        of sample_client "schema sample_batch" "[sample_batch]"] by auto
qed

text \<open>
  An upload without batches is refused.  Against the server, \<open>flight_client_do_put\<close> with no
  batches replies with the server's \<open>InvalidArgument\<close> and leaves the store as it was, so no
  dataset is ever empty.
\<close>

theorem empty_upload_rejected:
  assumes "flight_link C A it schema_dec transportable" "\<not> poisoned (fc_client h)" "put_descriptor t = Ok d"
  shows "flight_client_do_put C A h sch [] t srv =
    (ErrorTuple (cl_display C (FE_Tonic (status InvalidArgument
       ''do_put rejected: stream contained no record batches''))), srv)"
  using assms by (rule flight_link.client_put_empty)

theorem empty_upload_rejected_witness:
  "flight_client_do_put sample_link ref_flight sample_client (schema sample_batch) [] sample_term sample_server =
    (ErrorTuple ''flight error'', sample_server)"
  using empty_upload_rejected [OF direct.flight_link_axioms _ sample_desc_decodes,
      of sample_client key_order_iter "schema sample_batch" sample_server]
  by (simp add: direct_client_def)



end
