(* ===== verification/Flight_Sql.thy ===== *)
theory Flight_Sql
  imports Sql_Errors Flight_Client
begin

text \<open>
  The Flight SQL client (\<open>flight_sql.rs\<close>): connecting, queries and updates, lazy result streams,
  metadata calls and prepared statements.  The \<open>FlightSqlServiceClient\<close>, its prepared statements
  and its record batch streams are the parameter record \<open>sql_api\<close>; the client sits in a mutex that
  a connection shares with the statements prepared on it, so every function that may reach the
  client takes that mutex and returns its new state.
\<close>

section \<open>Resources\<close>

record CommandGetTables =
  gt_catalog :: "string option"
  gt_db_schema_filter_pattern :: "string option"
  gt_table_name_filter_pattern :: "string option"
  gt_table_types :: "string list"
  gt_include_schema :: bool

record CommandGetDbSchemas =
  gs_catalog :: "string option"
  gs_db_schema_filter_pattern :: "string option"

record ('c, 'p, 's) sql_api = error_display +
  sq_set_header :: "string \<Rightarrow> string \<Rightarrow> 'c \<Rightarrow> 'c"
  sq_execute :: "string \<Rightarrow> 'c \<Rightarrow> (FlightInfo, FlightError) result \<times> 'c"
  sq_run_update :: "string \<Rightarrow> 'c \<Rightarrow> (int, FlightError) result \<times> 'c"
  sq_do_get :: "bytes \<Rightarrow> 'c \<Rightarrow> ('s, FlightError) result \<times> 'c"
  sq_get_tables :: "CommandGetTables \<Rightarrow> 'c \<Rightarrow> (FlightInfo, FlightError) result \<times> 'c"
  sq_get_db_schemas :: "CommandGetDbSchemas \<Rightarrow> 'c \<Rightarrow> (FlightInfo, FlightError) result \<times> 'c"
  sq_get_sql_info :: "nat list \<Rightarrow> 'c \<Rightarrow> (FlightInfo, FlightError) result \<times> 'c"
  sq_prepare :: "string \<Rightarrow> 'c \<Rightarrow> ('p, FlightError) result \<times> 'c"
  ps_set_parameters :: "RecordBatch \<Rightarrow> 'p \<Rightarrow> (unit, FlightError) result \<times> 'p"
  ps_parameter_schema :: "'p \<Rightarrow> (Schema, FlightError) result"
  ps_execute :: "'p \<Rightarrow> (FlightInfo, FlightError) result \<times> 'p"
  ps_run_update :: "'p \<Rightarrow> (int, FlightError) result \<times> 'p"
  ps_close :: "'p \<Rightarrow> (unit, FlightError) result"
  st_next :: "'s \<Rightarrow> (RecordBatch, FlightError) result option \<times> 's"
  sq_schema_decode :: "bytes \<Rightarrow> (Schema, string) result"

record 's FlightSqlStreamResource =
  fs_schema :: Schema
  fs_stream :: "'s Mutex"

record 'p FlightSqlPreparedStatementResource =
  pr_stmt :: "'p option Mutex"

text \<open>The error term of the crate's errors.\<close>

definition error_term :: "('c, 'p, 's) sql_api \<Rightarrow> FlightError \<Rightarrow> ('v, sql_error) nif_term" where
  "error_term S e = flight_error_to_term (error_display.truncate S) e"

definition decode_flight_schema :: "('c, 'p, 's) sql_api \<Rightarrow> bytes \<Rightarrow> (Schema, string) result" where
  "decode_flight_schema S bytes =
     (if bytes = [] then Ok (schema_new [])
      else map_err (\<lambda>e. ''schema decode: '' @ e) (sq_schema_decode S bytes))"

section \<open>Connections, queries and updates\<close>

definition flight_sql_connect ::
  "('ep, 'c) transport \<Rightarrow> ('c, 'p, 's) sql_api \<Rightarrow> string \<Rightarrow> nat \<Rightarrow> beam_term \<Rightarrow> (string \<times> string) list \<Rightarrow>
   ('c Mutex, string) nif_term" where
  "flight_sql_connect T S host port tls_mode_term headers =
     (case sql_parse_tls_mode tls_mode_term of
        Err e \<Rightarrow> err_encode e
      | Ok mode \<Rightarrow>
          (let (scheme, tls_cfg) = tls_scheme mode in
           case tr_from_shared T (scheme @ ''://'' @ host_port host port) of
             Err e \<Rightarrow> err_encode e
           | Ok endpoint0 \<Rightarrow>
               (case (case tls_cfg of Some cfg \<Rightarrow> tr_tls_config T cfg endpoint0 | None \<Rightarrow> Ok endpoint0) of
                  Err e \<Rightarrow> err_encode e
                | Ok endpoint \<Rightarrow>
                    (case tr_connect T endpoint of
                       Err e \<Rightarrow> err_encode e
                     | Ok client \<Rightarrow>
                         ok_encode (mutex_new (foldl (\<lambda>c (k, v). sq_set_header S k v c) client headers))))))"

definition endpoint_message :: "nat \<Rightarrow> string" where
  "endpoint_message n =
     ''expected exactly 1 endpoint, got '' @ show_nat n @
     ''; multi-endpoint distribution is not supported in v0.5.0''"

definition flight_sql_query ::
  "('c, 'p, 's) sql_api \<Rightarrow> string \<Rightarrow> 'c Mutex \<Rightarrow> ('s FlightSqlStreamResource, sql_error) nif_term \<times> 'c Mutex" where
  "flight_sql_query S sql client =
     (case lock client of
        Err _ \<Rightarrow> (err_encode (PlainError ''client lock poisoned''), client)
      | Ok guard0 \<Rightarrow>
          (case sq_execute S sql guard0 of
             (Err e, guard1) \<Rightarrow> (error_term S e, client\<lparr>inner := guard1\<rparr>)
           | (Ok flight_info, guard1) \<Rightarrow>
               (let client1 = client\<lparr>inner := guard1\<rparr>; endpoint_count = length (fi_endpoint flight_info) in
                if endpoint_count \<noteq> 1 then
                  (encode_sql_error ''multi_endpoint'' 0 (endpoint_message endpoint_count), client1)
                else
                  (case ep_ticket (fi_endpoint flight_info ! 0) of
                     None \<Rightarrow> (encode_sql_error ''protocol_error'' 0 ''FlightEndpoint has no ticket'', client1)
                   | Some ticket \<Rightarrow>
                       (case decode_flight_schema S (fi_schema flight_info) of
                          Err e \<Rightarrow> (encode_sql_error ''protocol_error'' 0 e, client1)
                        | Ok sch \<Rightarrow>
                            (case sq_do_get S ticket guard1 of
                               (Err e, guard2) \<Rightarrow> (error_term S e, client\<lparr>inner := guard2\<rparr>)
                             | (Ok stream, guard2) \<Rightarrow>
                                 (ok_encode \<lparr>fs_schema = sch, fs_stream = mutex_new stream\<rparr>,
                                  client\<lparr>inner := guard2\<rparr>)))))))"

text \<open>A row count as a term: negative counts mean that the server does not know.\<close>

datatype row_count = RowsUnknown | Rows nat

definition encode_row_count :: "('c, 'p, 's) sql_api \<Rightarrow> (int, FlightError) result \<Rightarrow> (row_count, sql_error) nif_term" where
  "encode_row_count S r =
     (case r of
        Ok n \<Rightarrow> if n < 0 then OkTuple RowsUnknown else OkTuple (Rows (nat n))
      | Err e \<Rightarrow> error_term S e)"

definition flight_sql_execute ::
  "('c, 'p, 's) sql_api \<Rightarrow> string \<Rightarrow> 'c Mutex \<Rightarrow> (row_count, sql_error) nif_term \<times> 'c Mutex" where
  "flight_sql_execute S sql client =
     (case lock client of
        Err _ \<Rightarrow> (err_encode (PlainError ''client lock poisoned''), client)
      | Ok guard \<Rightarrow>
          (case sq_run_update S sql guard of
             (r, guard') \<Rightarrow> (encode_row_count S r, client\<lparr>inner := guard'\<rparr>)))"

section \<open>Streams\<close>

definition flight_sql_stream_schema :: "'s FlightSqlStreamResource \<Rightarrow> (Schema, sql_error) nif_term" where
  "flight_sql_stream_schema r = ok_encode (fs_schema r)"

definition flight_sql_stream_next ::
  "('c, 'p, 's) sql_api \<Rightarrow> 's FlightSqlStreamResource \<Rightarrow>
   (RecordBatch, sql_error) nif_term \<times> 's FlightSqlStreamResource" where
  "flight_sql_stream_next S r =
     (case lock (fs_stream r) of
        Err _ \<Rightarrow> (err_encode (PlainError ''stream lock poisoned''), r)
      | Ok guard \<Rightarrow>
          (case st_next S guard of
             (item, guard') \<Rightarrow>
               ((case item of
                   None \<Rightarrow> AtomDone
                 | Some (Ok batch) \<Rightarrow> ok_encode batch
                 | Some (Err e) \<Rightarrow> error_term S e),
                r\<lparr>fs_stream := (fs_stream r)\<lparr>inner := guard'\<rparr>\<rparr>)))"

section \<open>Metadata\<close>

definition flight_info_to_stream ::
  "('c, 'p, 's) sql_api \<Rightarrow> 'c Mutex \<Rightarrow> FlightInfo \<Rightarrow> ('s FlightSqlStreamResource, sql_error) nif_term \<times> 'c Mutex" where
  "flight_info_to_stream S client flight_info =
     (let endpoint_count = length (fi_endpoint flight_info) in
      if endpoint_count \<noteq> 1 then
        (encode_sql_error ''multi_endpoint'' 0 (endpoint_message endpoint_count), client)
      else
        (case ep_ticket (fi_endpoint flight_info ! 0) of
           None \<Rightarrow> (encode_sql_error ''protocol_error'' 0 ''FlightEndpoint has no ticket'', client)
         | Some ticket \<Rightarrow>
             (case decode_flight_schema S (fi_schema flight_info) of
                Err e \<Rightarrow> (encode_sql_error ''protocol_error'' 0 e, client)
              | Ok sch \<Rightarrow>
                  (case lock client of
                     Err _ \<Rightarrow> (err_encode (PlainError ''client lock poisoned''), client)
                   | Ok guard \<Rightarrow>
                       (case sq_do_get S ticket guard of
                          (Err e, guard') \<Rightarrow> (error_term S e, client\<lparr>inner := guard'\<rparr>)
                        | (Ok stream, guard') \<Rightarrow>
                            (ok_encode \<lparr>fs_schema = sch, fs_stream = mutex_new stream\<rparr>,
                             client\<lparr>inner := guard'\<rparr>))))))"

text \<open>What the three metadata calls share: the call under the lock, then the stream.\<close>

definition metadata_call ::
  "('c, 'p, 's) sql_api \<Rightarrow> ('c \<Rightarrow> (FlightInfo, FlightError) result \<times> 'c) \<Rightarrow> 'c Mutex \<Rightarrow>
   ('s FlightSqlStreamResource, sql_error) nif_term \<times> 'c Mutex" where
  "metadata_call S call client =
     (case lock client of
        Err _ \<Rightarrow> (err_encode (PlainError ''client lock poisoned''), client)
      | Ok guard \<Rightarrow>
          (case call guard of
             (Err e, guard') \<Rightarrow> (error_term S e, client\<lparr>inner := guard'\<rparr>)
           | (Ok flight_info, guard') \<Rightarrow> flight_info_to_stream S (client\<lparr>inner := guard'\<rparr>) flight_info))"

definition flight_sql_get_tables ::
  "('c, 'p, 's) sql_api \<Rightarrow> string option \<Rightarrow> string option \<Rightarrow> string option \<Rightarrow> string list \<Rightarrow> bool \<Rightarrow> 'c Mutex \<Rightarrow>
   ('s FlightSqlStreamResource, sql_error) nif_term \<times> 'c Mutex" where
  "flight_sql_get_tables S catalog db_schema_filter table_name_filter table_types include_schema client =
     metadata_call S
       (sq_get_tables S
          \<lparr>gt_catalog = catalog, gt_db_schema_filter_pattern = db_schema_filter,
           gt_table_name_filter_pattern = table_name_filter, gt_table_types = table_types,
           gt_include_schema = include_schema\<rparr>)
       client"

definition flight_sql_get_db_schemas ::
  "('c, 'p, 's) sql_api \<Rightarrow> string option \<Rightarrow> string option \<Rightarrow> 'c Mutex \<Rightarrow>
   ('s FlightSqlStreamResource, sql_error) nif_term \<times> 'c Mutex" where
  "flight_sql_get_db_schemas S catalog db_schema_filter client =
     metadata_call S
       (sq_get_db_schemas S \<lparr>gs_catalog = catalog, gs_db_schema_filter_pattern = db_schema_filter\<rparr>) client"

definition flight_sql_get_sql_info ::
  "('c, 'p, 's) sql_api \<Rightarrow> 'c Mutex \<Rightarrow> ('s FlightSqlStreamResource, sql_error) nif_term \<times> 'c Mutex" where
  "flight_sql_get_sql_info S client = metadata_call S (sq_get_sql_info S []) client"

section \<open>Prepared statements\<close>

definition flight_sql_prepare ::
  "('c, 'p, 's) sql_api \<Rightarrow> string \<Rightarrow> 'c Mutex \<Rightarrow>
   ('p FlightSqlPreparedStatementResource, sql_error) nif_term \<times> 'c Mutex" where
  "flight_sql_prepare S sql client =
     (case lock client of
        Err _ \<Rightarrow> (err_encode (PlainError ''client lock poisoned''), client)
      | Ok guard \<Rightarrow>
          (case sq_prepare S sql guard of
             (Err e, guard') \<Rightarrow> (error_term S e, client\<lparr>inner := guard'\<rparr>)
           | (Ok stmt, guard') \<Rightarrow> (ok_encode \<lparr>pr_stmt = mutex_new (Some stmt)\<rparr>, client\<lparr>inner := guard'\<rparr>)))"

text \<open>The guards every function on a statement starts with: lock it, and refuse a closed one.\<close>

definition open_stmt :: "'p FlightSqlPreparedStatementResource \<Rightarrow> ('p, sql_error) result" where
  "open_stmt r =
     (case lock (pr_stmt r) of
        Err _ \<Rightarrow> Err (PlainError ''statement lock poisoned'')
      | Ok None \<Rightarrow> Err (SqlError ''protocol_error'' 0 ''statement is closed'')
      | Ok (Some stmt) \<Rightarrow> Ok stmt)"

definition put_stmt :: "'p FlightSqlPreparedStatementResource \<Rightarrow> 'p option \<Rightarrow> 'p FlightSqlPreparedStatementResource" where
  "put_stmt r s = r\<lparr>pr_stmt := (pr_stmt r)\<lparr>inner := s\<rparr>\<rparr>"

text \<open>The atom that \<open>bind\<close> and \<open>close\<close> wrap: they reply \<open>{:ok, :ok}\<close>.\<close>

definition ok_atom :: string where
  "ok_atom = ''ok''"

definition flight_sql_prepared_bind ::
  "('c, 'p, 's) sql_api \<Rightarrow> RecordBatch \<Rightarrow> 'p FlightSqlPreparedStatementResource \<Rightarrow>
   (string, sql_error) nif_term \<times> 'p FlightSqlPreparedStatementResource" where
  "flight_sql_prepared_bind S batch r =
     (case open_stmt r of
        Err e \<Rightarrow> (ErrorTuple e, r)
      | Ok stmt \<Rightarrow>
          (case ps_set_parameters S batch stmt of
             (Ok _, stmt') \<Rightarrow> (ok_encode ok_atom, put_stmt r (Some stmt'))
           | (Err e, stmt') \<Rightarrow> (error_term S e, put_stmt r (Some stmt'))))"

definition flight_sql_prepared_parameter_schema ::
  "('c, 'p, 's) sql_api \<Rightarrow> 'p FlightSqlPreparedStatementResource \<Rightarrow> (Schema, sql_error) nif_term" where
  "flight_sql_prepared_parameter_schema S r =
     (case open_stmt r of
        Err e \<Rightarrow> ErrorTuple e
      | Ok stmt \<Rightarrow>
          (case ps_parameter_schema S stmt of Ok sch \<Rightarrow> ok_encode sch | Err e \<Rightarrow> error_term S e))"

definition flight_sql_prepared_execute ::
  "('c, 'p, 's) sql_api \<Rightarrow> 'p FlightSqlPreparedStatementResource \<Rightarrow> 'c Mutex \<Rightarrow>
   ('s FlightSqlStreamResource, sql_error) nif_term \<times> 'p FlightSqlPreparedStatementResource \<times> 'c Mutex" where
  "flight_sql_prepared_execute S r client =
     (case open_stmt r of
        Err e \<Rightarrow> (ErrorTuple e, r, client)
      | Ok stmt \<Rightarrow>
          (case ps_execute S stmt of
             (Err e, stmt') \<Rightarrow> (error_term S e, put_stmt r (Some stmt'), client)
           | (Ok flight_info, stmt') \<Rightarrow>
               (case flight_info_to_stream S client flight_info of
                  (reply, client') \<Rightarrow> (reply, put_stmt r (Some stmt'), client'))))"

definition flight_sql_prepared_execute_update ::
  "('c, 'p, 's) sql_api \<Rightarrow> 'p FlightSqlPreparedStatementResource \<Rightarrow>
   (row_count, sql_error) nif_term \<times> 'p FlightSqlPreparedStatementResource" where
  "flight_sql_prepared_execute_update S r =
     (case open_stmt r of
        Err e \<Rightarrow> (ErrorTuple e, r)
      | Ok stmt \<Rightarrow>
          (case ps_run_update S stmt of
             (n, stmt') \<Rightarrow> (encode_row_count S n, put_stmt r (Some stmt'))))"

text \<open>
  \<open>close\<close> takes the statement out before the request is sent.  The list in the result has the
  statements for which \<open>ActionClosePreparedStatement\<close> was sent.
\<close>

definition flight_sql_prepared_close ::
  "('c, 'p, 's) sql_api \<Rightarrow> 'p FlightSqlPreparedStatementResource \<Rightarrow>
   (string, sql_error) nif_term \<times> 'p FlightSqlPreparedStatementResource \<times> 'p list" where
  "flight_sql_prepared_close S r =
     (case lock (pr_stmt r) of
        Err _ \<Rightarrow> (err_encode (PlainError ''statement lock poisoned''), r, [])
      | Ok None \<Rightarrow> (ok_encode ok_atom, r, [])
      | Ok (Some stmt) \<Rightarrow>
          ((case ps_close S stmt of Ok _ \<Rightarrow> ok_encode ok_atom | Err e \<Rightarrow> error_term S e),
           put_stmt r None, [stmt]))"

section \<open>Errors are error tuples\<close>

definition error_value :: "('c, 'p, 's) sql_api \<Rightarrow> FlightError \<Rightarrow> sql_error" where
  "error_value S e =
     (case (flight_error_to_term (error_display.truncate S) e :: (unit, sql_error) nif_term) of
        ErrorTuple x \<Rightarrow> x | _ \<Rightarrow> PlainError [])"

lemma error_term_eq: "error_term S e = ErrorTuple (error_value S e)"
  by (auto simp: error_term_def error_value_def flight_error_to_term_def arrow_error_to_term_def
      encode_sql_error_def case_prod_beta split: FlightError.split ArrowError.split option.split)

section \<open>Queries\<close>


section \<open>Result streams\<close>

text \<open>What a stream resource has still to reply, given the content of its stream.\<close>

definition sql_pending ::
  "('c, 'p, 's) sql_api \<Rightarrow> ('s \<Rightarrow> (RecordBatch, FlightError) result list) \<Rightarrow> 's FlightSqlStreamResource \<Rightarrow>
   (RecordBatch, sql_error) result list" where
  "sql_pending S content r = map (map_err (error_value S)) (content (inner (fs_stream r)))"

locale sql_stream =
  fused_iter "st_next S" content
  for S :: "('c, 'p, 's) sql_api" and content :: "'s \<Rightarrow> (RecordBatch, FlightError) result list"
begin

lemma stream_contract:
  "record_stream (flight_sql_stream_next S) (sql_pending S content) (\<lambda>r. \<not> poisoned (fs_stream r))"
proof unfold_locales
  fix r :: "'s FlightSqlStreamResource"
  assume l: "\<not> poisoned (fs_stream r)"
  then have nxt: "flight_sql_stream_next S r =
      (case fst (st_next S (inner (fs_stream r))) of
         None \<Rightarrow> AtomDone
       | Some x \<Rightarrow> reply_of (map_err (error_value S) x),
       r\<lparr>fs_stream := (fs_stream r)\<lparr>inner := snd (st_next S (inner (fs_stream r)))\<rparr>\<rparr>)"
    by (simp add: flight_sql_stream_next_def lock_def case_prod_beta error_term_eq split: option.split sum.split)
  then show "\<not> poisoned (fs_stream (snd (flight_sql_stream_next S r)))" using l by simp
  show "fst (flight_sql_stream_next S r) = AtomDone \<and> sql_pending S content (snd (flight_sql_stream_next S r)) = []"
    if "sql_pending S content r = []"
    using that nxt next_none [of "inner (fs_stream r)"] by (simp add: sql_pending_def)
  show "fst (flight_sql_stream_next S r) = reply_of x \<and> sql_pending S content (snd (flight_sql_stream_next S r)) = xs"
    if "sql_pending S content r = x # xs" for x xs
    using that nxt next_some [of "inner (fs_stream r)"] by (auto simp: sql_pending_def Cons_eq_map_conv map_eq_Cons_conv)
qed

end

sublocale sql_stream < sql: record_stream "flight_sql_stream_next S" "sql_pending S content" "\<lambda>r. \<not> poisoned (fs_stream r)"
  by (rule stream_contract)

text \<open>
  C14: a query's stream delivers the result.  When the server answers with one endpoint that has a
  ticket and a decodable schema, the query returns a stream with that schema, and polling it any
  number of times yields the items of the \<open>DoGet\<close> stream in order, errors as error terms, and
  \<open>:done\<close> from then on.
\<close>

theorem sql_query_delivers:
  assumes "sql_stream S content" "\<not> poisoned client" "sq_execute S sql (inner client) = (Ok info, c1)"
    "fi_endpoint info = [ep]" "ep_ticket ep = Some ticket" "decode_flight_schema S (fi_schema info) = Ok sch"
    "sq_do_get S ticket c1 = (Ok s, c2)"
  shows "\<exists>strm. flight_sql_query S sql client = (OkTuple strm, client\<lparr>inner := c2\<rparr>) \<and>
    flight_sql_stream_schema strm = OkTuple sch \<and>
    fst (poll (flight_sql_stream_next S) n strm) =
      map (\<lambda>x. reply_of (map_err (error_value S) x)) (take n (content s)) @
      replicate (n - length (content s)) AtomDone"
proof -
  let ?strm = "\<lparr>fs_schema = sch, fs_stream = mutex_new s\<rparr>"
  have "flight_sql_query S sql client = (OkTuple ?strm, client\<lparr>inner := c2\<rparr>)"
    using assms(2-) by (simp add: flight_sql_query_def lock_def Let_def)
  moreover have "fst (poll (flight_sql_stream_next S) n ?strm) =
      map reply_of (take n (map (map_err (error_value S)) (content s))) @
      replicate (n - length (map (map_err (error_value S)) (content s))) AtomDone"
    using record_stream.poll_replies [OF sql_stream.stream_contract [OF assms(1)], of ?strm n]
    by (simp add: sql_pending_def)
  ultimately show ?thesis
    by (intro exI [of _ ?strm]) (simp add: flight_sql_stream_schema_def take_map comp_def)
qed

subsection \<open>A reference service\<close>

text \<open>
  A service that answers every query with the same batches, and whose statements count their uses.
  Its streams are lists.
\<close>

definition sample_info :: FlightInfo where
  "sample_info =
     \<lparr>fi_schema = ''ipc'', fi_descriptor = None,
      fi_endpoint = [\<lparr>ep_ticket = Some ''tk'', ep_location = []\<rparr>], fi_total_records = - 1,
      fi_total_bytes = - 1, fi_ordered = False, fi_app_metadata = []\<rparr>"

definition ref_sql :: "(nat, nat, (RecordBatch, FlightError) result list) sql_api" where
  "ref_sql =
     \<lparr>arrow_display = (\<lambda>_. ''arrow error''), flight_display = (\<lambda>_. ''flight error''),
      sq_set_header = (\<lambda>k v c. c), sq_execute = (\<lambda>sql c. (Ok sample_info, Suc c)),
      sq_run_update = (\<lambda>sql c. (Ok 3, Suc c)),
      sq_do_get = (\<lambda>t c. (Ok [Ok sample_batch, Err (FE_Tonic (status Unavailable ''gone''))], Suc c)),
      sq_get_tables = (\<lambda>cmd c. (Ok sample_info, Suc c)), sq_get_db_schemas = (\<lambda>cmd c. (Ok sample_info, Suc c)),
      sq_get_sql_info = (\<lambda>xs c. (Ok sample_info, Suc c)), sq_prepare = (\<lambda>sql c. (Ok 0, Suc c)),
      ps_set_parameters = (\<lambda>b p. (Ok (), Suc p)), ps_parameter_schema = (\<lambda>p. Ok (schema sample_batch)),
      ps_execute = (\<lambda>p. (Ok sample_info, Suc p)), ps_run_update = (\<lambda>p. (Ok (- 1), Suc p)),
      ps_close = (\<lambda>p. Ok ()), st_next = list_next, sq_schema_decode = (\<lambda>b. Ok (schema sample_batch))\<rparr>"

interpretation ref_sql: sql_stream ref_sql "\<lambda>xs. xs"
  by unfold_locales (auto simp: ref_sql_def)

theorem sql_query_delivers_witness:
  "\<exists>strm. flight_sql_query ref_sql ''select 1'' (mutex_new 0) = (OkTuple strm, mutex_new 2) \<and>
     fst (poll (flight_sql_stream_next ref_sql) 4 strm) =
       [OkTuple sample_batch, ErrorTuple (SqlError ''transport_error'' 14 ''gone''), AtomDone, AtomDone]"
proof -
  have ex: "sq_execute ref_sql ''select 1'' (inner (mutex_new 0)) = (Ok sample_info, 1)"
    "fi_endpoint sample_info = [\<lparr>ep_ticket = Some ''tk'', ep_location = []\<rparr>]"
    "decode_flight_schema ref_sql (fi_schema sample_info) = Ok (schema sample_batch)"
    "sq_do_get ref_sql ''tk'' 1 = (Ok [Ok sample_batch, Err (FE_Tonic (status Unavailable ''gone''))], 2)"
    by (simp_all add: ref_sql_def sample_info_def decode_flight_schema_def numeral_2_eq_2)
  have err: "error_value ref_sql (FE_Tonic (status Unavailable ''gone'')) = SqlError ''transport_error'' 14 ''gone''"
    by (simp add: error_value_def flight_error_to_term_def encode_sql_error_def status_def)
  show ?thesis
    using sql_query_delivers [OF ref_sql.sql_stream_axioms _ ex(1,2) _ ex(3,4), of 4] err
    by (auto simp: mutex_new_def numeral_nat)
qed

section \<open>Sequences of calls on a statement\<close>

datatype stmt_op = OpBind RecordBatch | OpParameterSchema | OpExecute | OpExecuteUpdate | OpClose

datatype 's stmt_reply =
    ReplyAtom "(string, sql_error) nif_term"
  | ReplySchema "(Schema, sql_error) nif_term"
  | ReplyStream "('s FlightSqlStreamResource, sql_error) nif_term"
  | ReplyCount "(row_count, sql_error) nif_term"

text \<open>The handle, the shared client, and the statements whose release was requested.\<close>

record ('c, 'p) stmt_world =
  w_stmt :: "'p FlightSqlPreparedStatementResource"
  w_client :: "'c Mutex"
  w_released :: "'p list"

fun stmt_step :: "('c, 'p, 's) sql_api \<Rightarrow> stmt_op \<Rightarrow> ('c, 'p) stmt_world \<Rightarrow> 's stmt_reply \<times> ('c, 'p) stmt_world" where
  "stmt_step S (OpBind b) w =
     (case flight_sql_prepared_bind S b (w_stmt w) of (reply, r) \<Rightarrow> (ReplyAtom reply, w\<lparr>w_stmt := r\<rparr>))"
| "stmt_step S OpParameterSchema w = (ReplySchema (flight_sql_prepared_parameter_schema S (w_stmt w)), w)"
| "stmt_step S OpExecute w =
     (case flight_sql_prepared_execute S (w_stmt w) (w_client w) of
        (reply, r, c) \<Rightarrow> (ReplyStream reply, w\<lparr>w_stmt := r, w_client := c\<rparr>))"
| "stmt_step S OpExecuteUpdate w =
     (case flight_sql_prepared_execute_update S (w_stmt w) of (reply, r) \<Rightarrow> (ReplyCount reply, w\<lparr>w_stmt := r\<rparr>))"
| "stmt_step S OpClose w =
     (case flight_sql_prepared_close S (w_stmt w) of
        (reply, r, released) \<Rightarrow> (ReplyAtom reply, w\<lparr>w_stmt := r, w_released := w_released w @ released\<rparr>))"

fun stmt_run :: "('c, 'p, 's) sql_api \<Rightarrow> stmt_op list \<Rightarrow> ('c, 'p) stmt_world \<Rightarrow> 's stmt_reply list \<times> ('c, 'p) stmt_world" where
  "stmt_run S [] w = ([], w)"
| "stmt_run S (op # ops) w =
     (fst (stmt_step S op w) # fst (stmt_run S ops (snd (stmt_step S op w))),
      snd (stmt_run S ops (snd (stmt_step S op w))))"

text \<open>What a closed statement replies to each call.\<close>

fun closed_reply :: "stmt_op \<Rightarrow> 's stmt_reply" where
  "closed_reply (OpBind _) = ReplyAtom (ErrorTuple (SqlError ''protocol_error'' 0 ''statement is closed''))"
| "closed_reply OpParameterSchema = ReplySchema (ErrorTuple (SqlError ''protocol_error'' 0 ''statement is closed''))"
| "closed_reply OpExecute = ReplyStream (ErrorTuple (SqlError ''protocol_error'' 0 ''statement is closed''))"
| "closed_reply OpExecuteUpdate = ReplyCount (ErrorTuple (SqlError ''protocol_error'' 0 ''statement is closed''))"
| "closed_reply OpClose = ReplyAtom (OkTuple ok_atom)"

definition stmt_closed :: "('c, 'p) stmt_world \<Rightarrow> bool" where
  "stmt_closed w \<longleftrightarrow> \<not> poisoned (pr_stmt (w_stmt w)) \<and> inner (pr_stmt (w_stmt w)) = None"

definition stmt_inv :: "('c, 'p) stmt_world \<Rightarrow> bool" where
  "stmt_inv w \<longleftrightarrow> \<not> poisoned (pr_stmt (w_stmt w)) \<and>
     length (w_released w) = (if inner (pr_stmt (w_stmt w)) = None then 1 else 0)"

lemma stmt_step_closed: "stmt_closed w \<Longrightarrow> stmt_step S op w = (closed_reply op, w)"
  by (cases op)
     (simp_all add: stmt_closed_def flight_sql_prepared_bind_def flight_sql_prepared_parameter_schema_def
        flight_sql_prepared_execute_def flight_sql_prepared_execute_update_def flight_sql_prepared_close_def
        open_stmt_def lock_def)

lemma stmt_run_closed: "stmt_closed w \<Longrightarrow> stmt_run S ops w = (map closed_reply ops, w)"
  by (induction ops) (simp_all add: stmt_step_closed)

lemma stmt_inv_step: "stmt_inv w \<Longrightarrow> stmt_inv (snd (stmt_step S op w))"
proof (cases "stmt_closed w")
  case True
  assume "stmt_inv w"
  with True show ?thesis by (simp add: stmt_step_closed)
next
  case False
  assume inv: "stmt_inv w"
  with False obtain p where p: "inner (pr_stmt (w_stmt w)) = Some p" by (auto simp: stmt_closed_def stmt_inv_def)
  with inv have "open_stmt (w_stmt w) = Ok p" "lock (pr_stmt (w_stmt w)) = Ok (Some p)"
    by (simp_all add: stmt_inv_def open_stmt_def lock_def)
  with inv p show ?thesis
    by (cases op)
       (auto simp: stmt_inv_def flight_sql_prepared_bind_def flight_sql_prepared_execute_def
          flight_sql_prepared_execute_update_def flight_sql_prepared_close_def put_stmt_def
          split: prod.splits sum.splits)
qed

lemma stmt_inv_run: "stmt_inv w \<Longrightarrow> stmt_inv (snd (stmt_run S ops w))"
  by (induction ops arbitrary: w) (simp_all add: stmt_inv_step)

lemma stmt_close_closes: "stmt_inv w \<Longrightarrow> stmt_closed (snd (stmt_step S OpClose w))"
  by (auto simp: stmt_closed_def stmt_inv_def flight_sql_prepared_close_def put_stmt_def lock_def
      split: option.splits)

lemma prepare_fresh:
  "flight_sql_prepare S sql client = (OkTuple r, client') \<Longrightarrow>
   stmt_inv \<lparr>w_stmt = r, w_client = client', w_released = []\<rparr>"
  by (auto simp: flight_sql_prepare_def stmt_inv_def error_term_eq split: sum.splits prod.splits)

text \<open>
  C6: closing a statement is final and releases it once.  Whatever calls were made on a prepared
  statement, after the first \<open>close\<close> every further bind, schema query, execute and update replies
  that the statement is closed, every further \<open>close\<close> succeeds, the connection is not used, and
  the server has been asked exactly once to release the statement.
\<close>

theorem prepared_close_is_final:
  assumes "flight_sql_prepare S sql client = (OkTuple r, client')"
    "w = snd (stmt_step S OpClose (snd (stmt_run S pre \<lparr>w_stmt = r, w_client = client', w_released = []\<rparr>)))"
  shows "fst (stmt_run S post w) = map closed_reply post \<and>
    w_client (snd (stmt_run S post w)) = w_client w \<and>
    length (w_released (snd (stmt_run S post w))) = 1"
proof -
  have inv: "stmt_inv (snd (stmt_run S pre \<lparr>w_stmt = r, w_client = client', w_released = []\<rparr>))"
    using assms(1) by (intro stmt_inv_run prepare_fresh)
  then have "stmt_closed w" "stmt_inv w" unfolding assms(2) by (rule stmt_close_closes, rule stmt_inv_step)
  then show ?thesis by (simp add: stmt_run_closed) (simp add: stmt_inv_def stmt_closed_def)
qed

theorem prepared_close_is_final_witness:
  "fst (stmt_run ref_sql [OpExecuteUpdate, OpClose]
     (snd (stmt_step ref_sql OpClose (snd (stmt_run ref_sql [OpBind sample_batch, OpExecute]
        \<lparr>w_stmt = \<lparr>pr_stmt = mutex_new (Some 0)\<rparr>, w_client = mutex_new 1, w_released = []\<rparr>))))) =
    [ReplyCount (ErrorTuple (SqlError ''protocol_error'' 0 ''statement is closed'')), ReplyAtom (OkTuple ok_atom)]"
proof -
  have "flight_sql_prepare ref_sql ''q'' (mutex_new 0) = (OkTuple \<lparr>pr_stmt = mutex_new (Some 0)\<rparr>, mutex_new 1)"
    by (simp add: flight_sql_prepare_def lock_def ref_sql_def mutex_new_def)
  from prepared_close_is_final [OF this refl, where pre = "[OpBind sample_batch, OpExecute]"
      and post = "[OpExecuteUpdate, OpClose]"]
  show ?thesis by simp
qed


end
