(* ===== verification/Spec2Isabelle.thy ===== *)
theory Spec2Isabelle
  imports Compute_Laws Parquet_Stream Ipc Column_Binary Adbc Cdi Flight_Sql
begin

text \<open>
  Verification of the native layer of ExArrow, the Rust crate under
  \<open>src/native/ex_arrow_native/src\<close>.  The crate is a set of native functions (NIFs) that an
  Elixir library calls: they decode BEAM terms, work on Apache Arrow data through the Arrow crates,
  and hand back resources and reply terms.

  \<^bold>\<open>Parts of the program and their theories.\<close>

  \<^item> Foundations.  \<open>Prelude\<close> has Rust results, collecting and folding over results, integer
    ranges with checked and wrapping operations, and the reply terms of \<open>util.rs\<close>;
    \<open>Rust_Float\<close> and \<open>Rust_Utf8\<close> have the floating-point and string operations the sources use;
    \<open>Beam_Term\<close> has the terms that cross the boundary and their decoders; \<open>Arrow_Model\<close> has
    schemas, arrays and record batches and the interface to the Arrow crates; \<open>Batch_Stream\<close> has
    mutexes and the contract that all four kinds of result streams satisfy.
  \<^item> \<open>compute.rs\<close>: \<open>Compute\<close> (expressions, literals, evaluation, the filter, project and sort
    functions) and \<open>Compute_Laws\<close> (its theorems).
  \<^item> \<open>parquet.rs\<close>: \<open>Parquet_Options\<close> (options and filters as terms), \<open>Parquet_Filter\<close> (filter
    evaluation and validation), \<open>Parquet_Pruning\<close> (row-group statistics and the read plan),
    \<open>Parquet_Stream\<close> (readers, writers and file metadata).
  \<^item> \<open>ipc.rs\<close> and \<open>resources.rs\<close>: \<open>Ipc\<close> (stream and file formats) and \<open>Column_Binary\<close> (batches
    built from and taken apart into raw bytes).
  \<^item> \<open>adbc.rs\<close>: \<open>Adbc\<close>.  \<open>cdi.rs\<close>: \<open>Cdi\<close>.
  \<^item> \<open>flight.rs\<close>: \<open>Flight_Types\<close> (descriptors, flight infos, TLS modes), \<open>Flight_Server\<close> (the
    handlers and the dataset store), \<open>Flight_Handle\<close> (starting and stopping a server),
    \<open>Flight_Client\<close> (the client functions, and client and server together).
  \<^item> \<open>flight_sql.rs\<close>: \<open>Sql_Errors\<close> (error terms) and \<open>Flight_Sql\<close> (queries, streams, metadata and
    prepared statements).

  \<^bold>\<open>How the parts interact.\<close>  Every part replies through the constructors of \<open>util.rs\<close>.  Parquet,
  IPC, ADBC and Flight SQL hand out stream resources that are polled for batches.  A Flight download
  is buffered as an IPC stream, so \<open>Flight_Client\<close> rests on the codec of \<open>Ipc\<close>; a Flight server is
  shared by its clients through a mutex; a prepared statement shares the client of its connection.

  \<^bold>\<open>Correspondence.\<close>  A definition has the name of the Rust function it models; an auxiliary
  definition models a block of it.  Structs are records, enums are datatypes, fallible functions
  return a sum type whose left side is the error, and every early return is a branch.  A function
  that changes a resource returns the new resource with its reply.  A mutex is its content and its
  poison flag.  Where several processes can use a resource at once, there is a step relation over
  the atomic sections of the code as well (\<open>Adbc.call_step\<close>, \<open>Cdi.cdi_step\<close>,
  \<open>Flight_Handle.stop_step\<close>), and its lemmas hold for every interleaving.

  \<^bold>\<open>Parameters.\<close>  Third-party code is never defined here.  The Arrow kernels (\<open>arrow_api\<close>), the IPC
  readers and writers (\<open>reader_api\<close>, \<open>writer_api\<close>, \<open>file_reader_api\<close>), the Parquet reader and
  writer, the ADBC driver manager, the C data interface conversions, native memory, the file
  system, the Flight codec (\<open>flight_api\<close>), the gRPC client and transport (\<open>client_api\<close>,
  \<open>transport\<close>, \<open>sql_api\<close>), sockets and threads (\<open>server_env\<close>) and the iteration order of a
  \<open>HashMap\<close> are arguments of the definitions that use them.  What the code relies on is stated as
  locales: \<open>arrow_laws\<close> and \<open>arrow_order\<close>, \<open>fused_iter\<close>, \<open>ipc_codec\<close>, \<open>ipc_file_readers\<close>,
  \<open>parquet_iter\<close>, \<open>column_laws\<close>, \<open>flight_messages\<close>, \<open>flight_codec\<close>, \<open>flight_channel\<close>,
  \<open>hash_map_iter\<close>, \<open>sql_stream\<close>.  Each is interpreted on a concrete instance, so its laws can hold
  together.  The contracts between parts of the program itself are locales as well:
  \<open>record_stream\<close> (what polling a stream returns), \<open>bounded_order\<close> (range tests on statistics)
  and \<open>dataset_store\<close> (lookup after a history of uploads and clears), interpreted on the
  model's own functions.

  \<^bold>\<open>What the theorems show.\<close>

  \<^item> Compute: a filter expression keeps exactly the rows on which it is true and never panics on
    what the decoder accepts; decoding is exact; literals are accepted exactly when they are
    representable; sort and project are correct.
  \<^item> Parquet: pruning by statistics loses no matching row under the stated conditions on the
    statistics, reading options are decoded and applied exactly, and the reader delivers the plan.
  \<^item> IPC and raw bytes: writing and reading back is the identity, file access by index is
    repeatable and bounds-checked, and variable-length records are decoded exactly.
  \<^item> ADBC: concurrent consumers of one result share its batches without loss or duplication.
  \<^item> C data interface: no interleaving of import, mark and drop uses freed memory or frees twice.
  \<^item> Flight: the server refines a store of datasets, an uploaded dataset is what a client downloads,
    listing is exact, descriptors and terms correspond one to one, starting a server waits a
    bounded time, and stopping it signals and joins exactly once.
  \<^item> Flight SQL: a status flattened into text is recovered, a query behaves like a metadata call and
    its stream delivers the result, and closing a prepared statement is final and releases it once.
  \<^item> Some theorems state where the code departs from what it means to do: a nested Parquet leaf or
    a NaN value can make pruning drop a matching row, two concurrent imports can leak, errors in the
    answer to an upload are lost, and the replies of bind and close are not what their caller
    matches.

  \<^bold>\<open>Bounds.\<close>  All recursions are structural or have a termination proof; no definition uses fuel.
  The probing loop of \<open>flight_server_start\<close> has the eighty attempts of the source.  Integers are
  mathematical with the range of their Rust type written out where a value can leave it; sums
  that wrap in release builds wrap here (\<open>wrap_i64\<close>).

  \<^bold>\<open>Not modelled.\<close>  \<open>lib.rs\<close> only registers the functions.  The shared Tokio runtimes are
  scheduling and have no counterpart: a blocking call is its result.  Panics inside third-party code
  are represented only where the source handles them (a poisoned lock, a lost server thread).  Peak
  memory, buffer sharing and zero-copy claims are outside the model, as is the Elixir library on
  top of the crate.
\<close>

end
